(* ===== verification/Prelude.thy ===== *)
theory Prelude
  imports Main "HOL-Library.Word" "HOL-Library.AList" "HOL-Library.List_Lexorder"
    "HOL-Library.Char_ord"
begin

text \<open>
  Shared vocabulary of the development.  Go strings are byte strings (\<open>string\<close>), Go maps are
  association lists with distinct keys whose order stands for the (arbitrary) iteration order of
  \<^verbatim>\<open>range\<close>, machine integers keep their width, and a nil pointer is \<open>None\<close>.
  The theory also proves the facts about these carriers that several components use.
\<close>

section \<open>Types shared by the components\<close>

type_synonym u8 = "8 word"
type_synonym u32 = "32 word"
type_synonym u64 = "64 word"
type_synonym ('k, 'v) gomap = "('k \<times> 'v) list"

named_theorems gomap_simps \<open>how Go map updates act on lookups and on the key list\<close>
named_theorems inv_intros \<open>operations keep the invariant of their component\<close>
named_theorems abs_simps \<open>what an operation does to the abstraction of its state\<close>

section \<open>Go maps\<close>

text \<open>
  \<^verbatim>\<open>m[k] = v\<close> is \<open>AList.update k v m\<close>, \<^verbatim>\<open>delete(m, k)\<close> is \<open>AList.delete k m\<close>
  and \<^verbatim>\<open>m[k]\<close> is \<open>map_of m k\<close>.  A set is a map to \<^verbatim>\<open>struct{}\<close>, kept as its list of keys.
\<close>

abbreviation gokeys :: "('k, 'v) gomap \<Rightarrow> 'k list" where
  "gokeys m \<equiv> map fst m"

definition gowf :: "('k, 'v) gomap \<Rightarrow> bool" where
  "gowf m \<longleftrightarrow> distinct (gokeys m)"

lemma gowf_Nil [simp]: "gowf []"
  by (simp add: gowf_def)

lemma gowf_update [inv_intros, simp]: "gowf m \<Longrightarrow> gowf (AList.update k v m)"
  by (simp add: gowf_def distinct_update)

lemma gowf_delete [inv_intros, simp]: "gowf m \<Longrightarrow> gowf (AList.delete k m)"
  by (simp add: gowf_def distinct_delete)

lemma map_of_goupdate [gomap_simps]: "map_of (AList.update k v m) = (map_of m)(k \<mapsto> v)"
  by (simp add: update_conv')

lemma map_of_godelete [gomap_simps]: "map_of (AList.delete k m) = (map_of m)(k := None)"
  by (simp add: delete_conv')

lemma gowf_in_set_iff: "gowf m \<Longrightarrow> (k, v) \<in> set m \<longleftrightarrow> map_of m k = Some v"
  by (auto simp: gowf_def)

lemma gokeys_dom: "k \<in> set (gokeys m) \<longleftrightarrow> map_of m k \<noteq> None"
  by (simp add: map_of_eq_None_iff)

definition set_add :: "'a \<Rightarrow> 'a list \<Rightarrow> 'a list" where
  "set_add x xs = (if x \<in> set xs then xs else xs @ [x])"

lemma set_set_add [simp]: "set (set_add x xs) = insert x (set xs)"
  by (auto simp: set_add_def)

lemma distinct_set_add [simp]: "distinct xs \<Longrightarrow> distinct (set_add x xs)"
  by (simp add: set_add_def)

section \<open>Lists\<close>

lemma fold_inv:
  assumes "P s" and "\<And>x s. x \<in> set xs \<Longrightarrow> P s \<Longrightarrow> P (f x s)"
  shows "P (fold f xs s)"
  using assms by (induction xs arbitrary: s) auto

lemma fold_measure_eq:
  assumes "\<And>x s. x \<in> set xs \<Longrightarrow> g (f x s) = g s"
  shows "g (fold f xs s) = g s"
  using assms by (induction xs arbitrary: s) auto

text \<open>A loop that rewrites the cells \<open>i \<in> is\<close> of an array, each from its own old value.\<close>

lemma nth_fold_update:
  assumes "distinct is" and "k < length xs"
  shows "fold (\<lambda>i xs. xs[i := g i (xs ! i)]) is xs ! k =
    (if k \<in> set is then g k (xs ! k) else xs ! k)"
  using assms
proof (induction "is" arbitrary: xs)
  case Nil
  then show ?case by simp
next
  case (Cons i js)
  let ?xs = "xs[i := g i (xs ! i)]"
  from Cons.IH [of ?xs] Cons.prems
  have "fold (\<lambda>i xs. xs[i := g i (xs ! i)]) js ?xs ! k =
    (if k \<in> set js then g k (?xs ! k) else ?xs ! k)"
    by simp
  moreover have "?xs ! k = (if k = i then g k (xs ! k) else xs ! k)"
    using Cons.prems by (auto simp: nth_list_update)
  ultimately show ?case
    using Cons.prems by auto
qed

lemma length_fold_update [simp]:
  "length (fold (\<lambda>i xs. xs[i := g i (xs ! i)]) is xs) = length xs"
  by (induction "is" arbitrary: xs) auto

lemma filter_upt_sorted: "sorted_wrt (<) (filter P [a..<b :: nat])"
  by (rule sorted_wrt_filter) simp

lemma filter_upt_strict_eqI:
  assumes "sorted_wrt (<) (xs :: nat list)" and "set xs = {i. a \<le> i \<and> i < b \<and> P i}"
  shows "xs = filter P [a..<b]"
proof (rule sorted_distinct_set_unique)
  show "sorted xs" "distinct xs"
    using assms(1) by (auto simp: strict_sorted_iff)
  show "sorted (filter P [a..<b])" "distinct (filter P [a..<b])"
    by (auto intro: sorted_wrt_filter)
  show "set xs = set (filter P [a..<b])"
    using assms(2) by auto
qed

section \<open>Strings\<close>

text \<open>\<^verbatim>\<open>strings.Join(parts, ".")\<close>.\<close>

fun joinDots :: "string list \<Rightarrow> string" where
  "joinDots [] = ''''"
| "joinDots [x] = x"
| "joinDots (x # y # ys) = x @ ''.'' @ joinDots (y # ys)"

lemma joinDots_snoc: "joinDots (xs @ [x]) = (if xs = [] then x else joinDots xs @ ''.'' @ x)"
proof (induction xs rule: joinDots.induct)
  case (3 a b ys)
  then show ?case by (cases ys) auto
qed auto

lemma joinDots_Nil_iff:
  "\<forall>x \<in> set xs. x \<noteq> [] \<Longrightarrow> joinDots xs = [] \<longleftrightarrow> xs = []"
  by (induction xs rule: joinDots.induct) auto

lemma append_first_sep_inject:
  assumes "xs @ c # ys = xs' @ c # ys'" and "c \<notin> set xs" and "c \<notin> set xs'"
  shows "xs = xs' \<and> ys = ys'"
  using assms by (induction xs arbitrary: xs') (auto simp: Cons_eq_append_conv)

lemma append_last_sep_inject:
  assumes "xs @ c # ys = xs' @ c # ys'" and "c \<notin> set ys" and "c \<notin> set ys'"
  shows "xs = xs' \<and> ys = ys'"
proof -
  from assms(1) have "rev ys @ c # rev xs = rev ys' @ c # rev xs'"
    by (metis append.assoc append_Cons append_Nil rev.simps(2) rev_append)
  then have "rev ys = rev ys' \<and> rev xs = rev xs'"
    using assms(2,3) append_first_sep_inject by (metis set_rev)
  then show ?thesis by simp
qed

end
