(* ===== verification/Namer.thy ===== *)
theory Namer
  imports Prelude
begin

text \<open>
  Names of policies (\<^verbatim>\<open>internal/namer\<close>): fully-qualified names, policy keys, the scope
  hierarchy and the sanitising of identifiers.  The hash behind a module ID is xxhash, which is
  not part of the repository; it is the parameter \<open>hashStr\<close> of the definitions that use it.
\<close>

section \<open>Constants\<close>

definition fqnPrefix :: string where
  "fqnPrefix = ''cerbos.''"

definition DerivedRolesPrefix :: string where
  "DerivedRolesPrefix = fqnPrefix @ ''derived_roles''"

definition ExportConstantsPrefix :: string where
  "ExportConstantsPrefix = fqnPrefix @ ''export_constants''"

definition ExportVariablesPrefix :: string where
  "ExportVariablesPrefix = fqnPrefix @ ''export_variables''"

definition PrincipalPoliciesPrefix :: string where
  "PrincipalPoliciesPrefix = fqnPrefix @ ''principal''"

definition ResourcePoliciesPrefix :: string where
  "ResourcePoliciesPrefix = fqnPrefix @ ''resource''"

definition RolePoliciesPrefix :: string where
  "RolePoliciesPrefix = fqnPrefix @ ''role''"

definition DefaultVersion :: string where
  "DefaultVersion = ''default''"

lemmas prefix_defs = fqnPrefix_def DerivedRolesPrefix_def ExportConstantsPrefix_def
  ExportVariablesPrefix_def PrincipalPoliciesPrefix_def ResourcePoliciesPrefix_def
  RolePoliciesPrefix_def

section \<open>Sanitising\<close>

definition inRange :: "char \<Rightarrow> char \<Rightarrow> char \<Rightarrow> bool" where
  "inRange lo hi c \<longleftrightarrow> lo \<le> c \<and> c \<le> hi"

definition is_digit :: "char \<Rightarrow> bool" where
  "is_digit c \<longleftrightarrow> inRange CHR ''0'' CHR ''9'' c"

definition is_alpha :: "char \<Rightarrow> bool" where
  "is_alpha c \<longleftrightarrow> inRange CHR ''a'' CHR ''z'' c \<or> inRange CHR ''A'' CHR ''Z'' c"

text \<open>
  The Go function ranges over runes.  Every byte of a rune outside ASCII is at least 128, so a
  string has an invalid rune exactly when it has an invalid byte.
\<close>

definition isInvalidIdentifierChar :: "char \<Rightarrow> bool" where
  "isInvalidIdentifierChar c =
     (if c = CHR ''.'' \<or> c = CHR ''_'' then False
      else if is_digit c \<or> is_alpha c then False
      else True)"

text \<open>
  \<^verbatim>\<open>oldNamePattern\<close>: segments separated by colons, each a letter followed by word characters,
  \<open>@\<close>, \<open>.\<close>, \<open>-\<close> or \<open>/\<close>.  A colon is not a segment character, so the match is deterministic.
\<close>

definition oldNameChar :: "char \<Rightarrow> bool" where
  "oldNameChar c \<longleftrightarrow> is_digit c \<or> is_alpha c \<or> c = CHR ''_'' \<or> c = CHR ''@'' \<or> c = CHR ''.''
     \<or> c = CHR ''-'' \<or> c = CHR ''/''"

fun oldNamePattern :: "string \<Rightarrow> bool"
  and oldNameRest :: "string \<Rightarrow> bool" where
  "oldNamePattern [] = False"
| "oldNamePattern (c # cs) = (is_alpha c \<and> oldNameRest cs)"
| "oldNameRest [] = True"
| "oldNameRest (c # cs) =
     (if oldNameChar c then oldNameRest cs
      else if c = CHR '':'' then oldNamePattern cs else False)"

text \<open>\<^verbatim>\<open>invalidIdentifierChars.ReplaceAllLiteralString(v, "_")\<close>: one underscore for each
  maximal run of invalid characters; the flag says that the previous character was invalid.\<close>

fun replaceInvalid :: "bool \<Rightarrow> string \<Rightarrow> string" where
  "replaceInvalid inRun [] = []"
| "replaceInvalid inRun (c # cs) =
     (if isInvalidIdentifierChar c
      then (if inRun then replaceInvalid True cs else CHR ''_'' # replaceInvalid True cs)
      else c # replaceInvalid False cs)"

definition sanitize :: "string \<Rightarrow> string" where
  "sanitize v =
     (if \<not> list_ex isInvalidIdentifierChar v then v
      else if oldNamePattern v then replaceInvalid False v
      else v)"

definition SanitizedResource :: "string \<Rightarrow> string" where
  "SanitizedResource resource = sanitize resource"

section \<open>Fully-qualified names\<close>

definition withScope :: "string \<Rightarrow> string \<Rightarrow> string" where
  "withScope fqn scope = (if scope = '''' then fqn else fqn @ ''/'' @ scope)"

definition ResourcePolicyFQN :: "string \<Rightarrow> string \<Rightarrow> string \<Rightarrow> string" where
  "ResourcePolicyFQN resource version scope =
     withScope (ResourcePoliciesPrefix @ ''.'' @ sanitize resource @ ''.v'' @ sanitize version) scope"

definition PrincipalPolicyFQN :: "string \<Rightarrow> string \<Rightarrow> string \<Rightarrow> string" where
  "PrincipalPolicyFQN principalID version scope =
     withScope (PrincipalPoliciesPrefix @ ''.'' @ sanitize principalID @ ''.v'' @ sanitize version) scope"

definition RolePolicyFQN :: "string \<Rightarrow> string \<Rightarrow> string \<Rightarrow> string" where
  "RolePolicyFQN role version scope =
     (let version = (if version = '''' then DefaultVersion else version)
      in withScope (RolePoliciesPrefix @ ''.'' @ sanitize role @ ''.v'' @ sanitize version) scope)"

definition DerivedRolesFQN :: "string \<Rightarrow> string" where
  "DerivedRolesFQN roleSetName = DerivedRolesPrefix @ ''.'' @ sanitize roleSetName"

definition ExportConstantsFQN :: "string \<Rightarrow> string" where
  "ExportConstantsFQN constantsName = ExportConstantsPrefix @ ''.'' @ sanitize constantsName"

definition ExportVariablesFQN :: "string \<Rightarrow> string" where
  "ExportVariablesFQN variablesName = ExportVariablesPrefix @ ''.'' @ sanitize variablesName"

text \<open>\<^verbatim>\<open>strings.TrimPrefix\<close>.\<close>

definition trimPrefix :: "string \<Rightarrow> string \<Rightarrow> string" where
  "trimPrefix s p = (if take (length p) s = p then drop (length p) s else s)"

definition PolicyKeyFromFQN :: "string \<Rightarrow> string" where
  "PolicyKeyFromFQN m = trimPrefix m fqnPrefix"

definition FQNFromPolicyKey :: "string \<Rightarrow> string" where
  "FQNFromPolicyKey s = fqnPrefix @ s"

definition SimpleName :: "string \<Rightarrow> string" where
  "SimpleName fqn =
     trimPrefix (trimPrefix (trimPrefix fqn (ExportVariablesPrefix @ ''.''))
       (ExportConstantsPrefix @ ''.'')) (DerivedRolesPrefix @ ''.'')"

definition ScopeValue :: "string \<Rightarrow> string" where
  "ScopeValue scope = trimPrefix scope ''.''"

text \<open>\<^verbatim>\<open>_, scope, _ := strings.Cut(fqn, "/")\<close>: what follows the first slash, if there is one.\<close>

definition ScopeFromFQN :: "string \<Rightarrow> string" where
  "ScopeFromFQN fqn = drop 1 (dropWhile (\<lambda>c. c \<noteq> CHR ''/'') fqn)"

section \<open>The scope hierarchy\<close>

text \<open>The iterator of \<^verbatim>\<open>ScopeParents\<close> as the list of the values it yields.\<close>

definition ScopeParents :: "string \<Rightarrow> string list" where
  "ScopeParents scope =
     map (\<lambda>i. take i scope)
       (filter (\<lambda>i. scope ! i = CHR ''.'' \<or> i = 0) (rev [0..<length scope]))"

definition buildFQNTree :: "string \<Rightarrow> string \<Rightarrow> (string \<Rightarrow> 't) \<Rightarrow> 't list" where
  "buildFQNTree fqn scope elementFn =
     (if scope = '''' then [elementFn fqn]
      else [elementFn (withScope fqn scope)]
        @ map (\<lambda>i. elementFn (withScope fqn (take i scope)))
            (filter (\<lambda>i. scope ! i = CHR ''.'') (rev [0..<length scope]))
        @ [elementFn fqn])"

section \<open>Module IDs\<close>

record ModuleID =
  hash :: u64

definition RawValue :: "ModuleID \<Rightarrow> u64" where
  "RawValue m = hash m"

definition GenModuleIDFromFQN :: "(string \<Rightarrow> u64) \<Rightarrow> string \<Rightarrow> ModuleID" where
  "GenModuleIDFromFQN hashStr name = \<lparr>hash = hashStr name\<rparr>"

definition ResourcePolicyModuleID :: "(string \<Rightarrow> u64) \<Rightarrow> string \<Rightarrow> string \<Rightarrow> string \<Rightarrow> ModuleID" where
  "ResourcePolicyModuleID hashStr resource version scope =
     GenModuleIDFromFQN hashStr (ResourcePolicyFQN resource version scope)"

definition PrincipalPolicyModuleID :: "(string \<Rightarrow> u64) \<Rightarrow> string \<Rightarrow> string \<Rightarrow> string \<Rightarrow> ModuleID" where
  "PrincipalPolicyModuleID hashStr principalID version scope =
     GenModuleIDFromFQN hashStr (PrincipalPolicyFQN principalID version scope)"

definition RolePolicyModuleID :: "(string \<Rightarrow> u64) \<Rightarrow> string \<Rightarrow> string \<Rightarrow> string \<Rightarrow> ModuleID" where
  "RolePolicyModuleID hashStr role version scope =
     GenModuleIDFromFQN hashStr (RolePolicyFQN role version scope)"

definition DerivedRolesModuleID :: "(string \<Rightarrow> u64) \<Rightarrow> string \<Rightarrow> ModuleID" where
  "DerivedRolesModuleID hashStr roleSetName = GenModuleIDFromFQN hashStr (DerivedRolesFQN roleSetName)"

definition ExportConstantsModuleID :: "(string \<Rightarrow> u64) \<Rightarrow> string \<Rightarrow> ModuleID" where
  "ExportConstantsModuleID hashStr constantsName =
     GenModuleIDFromFQN hashStr (ExportConstantsFQN constantsName)"

definition ExportVariablesModuleID :: "(string \<Rightarrow> u64) \<Rightarrow> string \<Rightarrow> ModuleID" where
  "ExportVariablesModuleID hashStr variablesName =
     GenModuleIDFromFQN hashStr (ExportVariablesFQN variablesName)"

definition ScopedResourcePolicyModuleIDs ::
    "(string \<Rightarrow> u64) \<Rightarrow> string \<Rightarrow> string \<Rightarrow> string \<Rightarrow> bool \<Rightarrow> ModuleID list" where
  "ScopedResourcePolicyModuleIDs hashStr resource version scope genTree =
     (if \<not> genTree \<or> scope = '''' then [ResourcePolicyModuleID hashStr resource version scope]
      else buildFQNTree (ResourcePolicyFQN resource version '''') scope (GenModuleIDFromFQN hashStr))"

definition ScopedPrincipalPolicyModuleIDs ::
    "(string \<Rightarrow> u64) \<Rightarrow> string \<Rightarrow> string \<Rightarrow> string \<Rightarrow> bool \<Rightarrow> ModuleID list" where
  "ScopedPrincipalPolicyModuleIDs hashStr principalID version scope genTree =
     (if \<not> genTree \<or> scope = '''' then [PrincipalPolicyModuleID hashStr principalID version scope]
      else buildFQNTree (PrincipalPolicyFQN principalID version '''') scope (GenModuleIDFromFQN hashStr))"

section \<open>Rule names and policy coordinates\<close>

datatype RuleTableName = NamePrincipal string | NameResource string | NameRole string

text \<open>The dynamic type switch of \<^verbatim>\<open>RuleFQN\<close>: the metadata of a compiled resource or principal
  policy set, or a rule table metadata entry with its name (\<open>None\<close>: the oneof is unset).\<close>

datatype RpsMeta =
    ResourceSetMeta string string
  | PrincipalSetMeta string string
  | TableMeta "RuleTableName option" string

fun RuleFQN :: "RpsMeta \<Rightarrow> string \<Rightarrow> string \<Rightarrow> string" where
  "RuleFQN (ResourceSetMeta resource version) scope ruleName =
     PolicyKeyFromFQN (ResourcePolicyFQN resource version scope) @ ''#'' @ ruleName"
| "RuleFQN (PrincipalSetMeta principalID version) scope ruleName =
     PolicyKeyFromFQN (PrincipalPolicyFQN principalID version scope) @ ''#'' @ ruleName"
| "RuleFQN (TableMeta name version) scope ruleName =
     PolicyKeyFromFQN
       (case name of
          Some (NamePrincipal p) \<Rightarrow> PrincipalPolicyFQN p version scope
        | Some (NameResource r) \<Rightarrow> ResourcePolicyFQN r version scope
        | Some (NameRole r) \<Rightarrow> RolePolicyFQN r version scope
        | None \<Rightarrow> '''') @ ''#'' @ ruleName"

record PolicyCoords =
  pc_Kind :: string
  pc_Name :: string
  pc_Version :: string
  pc_Scope :: string

text \<open>\<^verbatim>\<open>strings.ToLower\<close> on ASCII letters; the kinds compared with are ASCII.\<close>

definition toLowerChar :: "char \<Rightarrow> char" where
  "toLowerChar c = (if CHR ''A'' \<le> c \<and> c \<le> CHR ''Z'' then char_of (of_char c + 32 :: nat) else c)"

text \<open>\<open>None\<close> is the panic on an unknown kind.\<close>

definition PolicyCoords_FQN :: "PolicyCoords \<Rightarrow> string option" where
  "PolicyCoords_FQN pc =
     (let prefix = fqnPrefix @ map toLowerChar (pc_Kind pc)
      in if prefix = DerivedRolesPrefix then Some (DerivedRolesFQN (pc_Name pc))
      else if prefix = ExportConstantsPrefix then Some (ExportConstantsFQN (pc_Name pc))
      else if prefix = ExportVariablesPrefix then Some (ExportVariablesFQN (pc_Name pc))
      else if prefix = PrincipalPoliciesPrefix
        then Some (PrincipalPolicyFQN (pc_Name pc) (pc_Version pc) (pc_Scope pc))
      else if prefix = ResourcePoliciesPrefix
        then Some (ResourcePolicyFQN (pc_Name pc) (pc_Version pc) (pc_Scope pc))
      else if prefix = RolePoliciesPrefix
        then Some (RolePolicyFQN (pc_Name pc) (pc_Version pc) (pc_Scope pc))
      else None)"

definition PolicyCoords_PolicyKey :: "PolicyCoords \<Rightarrow> string option" where
  "PolicyCoords_PolicyKey pc = map_option PolicyKeyFromFQN (PolicyCoords_FQN pc)"

section \<open>Sanitising: facts\<close>

lemma replaceInvalid_valid: "list_all (\<lambda>c. \<not> isInvalidIdentifierChar c) (replaceInvalid r v)"
  by (induction r v rule: replaceInvalid.induct) (auto simp: isInvalidIdentifierChar_def)

lemma sanitize_valid_or_same:
  "\<not> list_ex isInvalidIdentifierChar (sanitize v) \<or> sanitize v = v \<and> \<not> oldNamePattern v"
  using replaceInvalid_valid [of False v]
  by (auto simp: sanitize_def list_all_iff list_ex_iff)

lemma sanitize_valid [simp]: "\<not> list_ex isInvalidIdentifierChar v \<Longrightarrow> sanitize v = v"
  by (simp add: sanitize_def)

lemma sanitize_idem: "sanitize (sanitize v) = sanitize v"
  using sanitize_valid_or_same [of v] by (auto simp: sanitize_def)

lemma oldNamePattern_no_slash: "oldNamePattern v \<Longrightarrow> CHR ''/'' \<notin> set (sanitize v)"
proof -
  assume "oldNamePattern v"
  with sanitize_valid_or_same [of v] have "\<not> list_ex isInvalidIdentifierChar (sanitize v)"
    by blast
  moreover have "isInvalidIdentifierChar (CHR ''/'')"
    by code_simp
  ultimately show ?thesis
    by (auto simp: list_ex_iff)
qed

section \<open>Names: facts\<close>

lemma trimPrefix_append [simp]: "trimPrefix (p @ s) p = s"
  by (simp add: trimPrefix_def)

lemma PolicyKey_roundtrip: "PolicyKeyFromFQN (FQNFromPolicyKey s) = s"
  by (simp add: PolicyKeyFromFQN_def FQNFromPolicyKey_def)

lemma withScope_no_slash:
  assumes "CHR ''/'' \<notin> set fqn"
  shows "ScopeFromFQN (withScope fqn scope) = scope"
proof -
  have "dropWhile (\<lambda>c. c \<noteq> CHR ''/'') (fqn @ ys) = dropWhile (\<lambda>c. c \<noteq> CHR ''/'') ys" for ys
    using assms by (intro dropWhile_append2) metis
  note app = this
  show ?thesis
  proof (cases "scope = []")
    case True
    have nil: "dropWhile (\<lambda>c. c \<noteq> CHR ''/'') fqn = []"
      using app [of "[]"] by (simp only: append_Nil2 dropWhile.simps(1))
    show ?thesis
      unfolding ScopeFromFQN_def withScope_def True by (simp only: nil drop_Nil simp_thms if_True)
  next
    case False
    with app [of "CHR ''/'' # scope"] show ?thesis by (simp add: ScopeFromFQN_def withScope_def)
  qed
qed

lemma ScopeFromFQN_Resource:
  assumes "CHR ''/'' \<notin> set (sanitize r)" and "CHR ''/'' \<notin> set (sanitize v)"
  shows "ScopeFromFQN (ResourcePolicyFQN r v s) = s"
  unfolding ResourcePolicyFQN_def
  by (rule withScope_no_slash) (use assms in \<open>simp add: prefix_defs\<close>)

lemma withScope_inject:
  assumes "withScope f s = withScope f' s'" and "CHR ''/'' \<notin> set f" and "CHR ''/'' \<notin> set f'"
  shows "f = f' \<and> s = s'"
proof -
  have "s = s'"
    using withScope_no_slash [OF assms(2), of s] withScope_no_slash [OF assms(3), of s'] assms(1)
    by simp
  with assms(1) show ?thesis
    by (simp add: withScope_def split: if_splits)
qed

section \<open>The scope hierarchy: facts\<close>

lemma ScopeParents_Nil [simp]: "ScopeParents [] = []"
  by (simp add: ScopeParents_def)

lemma ScopeParents_single:
  assumes "x \<noteq> []" and "CHR ''.'' \<notin> set x"
  shows "ScopeParents x = [[]]"
proof -
  from assms(1) obtain n where n: "length x = Suc n"
    by (cases x) auto
  have "\<forall>i \<in> set [1..<Suc n]. \<not> (x ! i = CHR ''.'' \<or> i = 0)"
    using assms(2) n by (auto simp: in_set_conv_nth)
  then have "filter (\<lambda>i. x ! i = CHR ''.'' \<or> i = 0) [1..<Suc n] = []"
    by (simp add: filter_empty_conv)
  moreover have "[0..<length x] = 0 # [1..<Suc n]"
    using n upt_conv_Cons by simp
  ultimately show ?thesis
    by (simp add: ScopeParents_def rev_filter [symmetric])
qed

lemma ScopeParents_snoc:
  assumes "p \<noteq> []" and "CHR ''.'' \<notin> set x"
  shows "ScopeParents (p @ ''.'' @ x) = p # ScopeParents p"
proof -
  let ?s = "p @ ''.'' @ x" and ?P = "\<lambda>i. (p @ ''.'' @ x) ! i = CHR ''.'' \<or> i = 0"
  have "[0..<length ?s] = [0..<length p] @ [length p..<length ?s]"
    using upt_add_eq_append [of 0 "length p" "length ?s - length p"] by simp
  moreover have "[length p..<length ?s] = length p # [Suc (length p)..<length ?s]"
    by (rule upt_conv_Cons) simp
  ultimately have split: "[0..<length ?s] = [0..<length p] @ [length p] @ [Suc (length p)..<length ?s]"
    by simp
  have "\<not> ?P i" if "i \<in> set [Suc (length p)..<length ?s]" for i
  proof -
    from that have "?s ! i = x ! (i - Suc (length p))" and "i - Suc (length p) < length x"
      by (auto simp: nth_append nth_Cons')
    with assms(2) nth_mem have "?s ! i \<noteq> CHR ''.''" by metis
    with that show ?thesis by auto
  qed
  then have tail: "filter ?P [Suc (length p)..<length ?s] = []"
    by (simp add: filter_empty_conv)
  have front: "filter ?P [0..<length p] = filter (\<lambda>i. p ! i = CHR ''.'' \<or> i = 0) [0..<length p]"
    by (rule filter_cong) (auto simp: nth_append)
  have mid: "filter ?P [length p] = [length p]"
    by (simp add: nth_append)
  have "filter ?P [0..<length ?s] = filter (\<lambda>i. p ! i = CHR ''.'' \<or> i = 0) [0..<length p] @ [length p]"
    unfolding split filter_append front mid tail by simp
  then have "filter ?P (rev [0..<length ?s]) =
      length p # rev (filter (\<lambda>i. p ! i = CHR ''.'' \<or> i = 0) [0..<length p])"
    unfolding rev_filter [symmetric] by simp
  then have "ScopeParents ?s =
      take (length p) ?s # map (\<lambda>i. take i ?s) (rev (filter (\<lambda>i. p ! i = CHR ''.'' \<or> i = 0) [0..<length p]))"
    by (simp only: ScopeParents_def list.map)
  moreover have "map (\<lambda>i. take i ?s) (rev (filter (\<lambda>i. p ! i = CHR ''.'' \<or> i = 0) [0..<length p])) =
      ScopeParents p"
    unfolding ScopeParents_def rev_filter by (rule map_cong) auto
  ultimately show ?thesis
    by simp
qed

lemma ScopeParents_joinDots:
  assumes "\<forall>x \<in> set segs. x \<noteq> [] \<and> CHR ''.'' \<notin> set x"
  shows "ScopeParents (joinDots segs) = map (\<lambda>n. joinDots (take n segs)) (rev [0..<length segs])"
  using assms
proof (induction segs rule: rev_induct)
  case Nil
  then show ?case by simp
next
  case (snoc x xs)
  show ?case
  proof (cases "xs = []")
    case True
    with snoc.prems show ?thesis by (simp add: ScopeParents_single)
  next
    case False
    have "joinDots xs \<noteq> []"
      using False snoc.prems by (simp add: joinDots_Nil_iff)
    then have "ScopeParents (joinDots (xs @ [x])) = joinDots xs # ScopeParents (joinDots xs)"
      using snoc.prems False ScopeParents_snoc [of "joinDots xs" x] by (simp add: joinDots_snoc)
    then show ?thesis
      using snoc by simp
  qed
qed

section \<open>Properties\<close>

text \<open>A name as the FQN functions use it: no slash once sanitised; a version has no dot either.\<close>

definition plainName :: "string \<Rightarrow> bool" where
  "plainName s \<longleftrightarrow> CHR ''/'' \<notin> set (sanitize s)"

definition plainVersion :: "string \<Rightarrow> bool" where
  "plainVersion s \<longleftrightarrow> CHR ''/'' \<notin> set (sanitize s) \<and> CHR ''.'' \<notin> set (sanitize s)"

lemma plainName_old: "oldNamePattern v \<Longrightarrow> plainName v"
  by (simp add: plainName_def oldNamePattern_no_slash)

text \<open>All policy FQNs with a version have this shape.\<close>

lemma versioned_inject:
  assumes "withScope (p @ ''.'' @ r @ ''.v'' @ v) s = withScope (p @ ''.'' @ r' @ ''.v'' @ v') s'"
    and "CHR ''/'' \<notin> set p" and "CHR ''/'' \<notin> set r" and "CHR ''/'' \<notin> set r'"
    and "CHR ''/'' \<notin> set v" and "CHR ''.'' \<notin> set v" and "CHR ''/'' \<notin> set v'" and "CHR ''.'' \<notin> set v'"
  shows "r = r' \<and> v = v' \<and> s = s'"
proof -
  have eq: "p @ ''.'' @ r @ ''.v'' @ v = p @ ''.'' @ r' @ ''.v'' @ v' \<and> s = s'"
    using assms by (intro withScope_inject) auto
  then have "r @ CHR ''.'' # (CHR ''v'' # v) = r' @ CHR ''.'' # (CHR ''v'' # v')" by simp
  then have "r = r' \<and> CHR ''v'' # v = CHR ''v'' # v'"
    using assms(6,8) by (intro append_last_sep_inject) auto
  with eq show ?thesis by simp
qed



text \<open>C35 (round trip).  The scope and the policy key can be read back from an FQN: \<^verbatim>\<open>ScopeFromFQN\<close> inverts the
  scope suffix of resource, principal and role policy FQNs whose name and version have no slash once
  sanitised, and \<^verbatim>\<open>PolicyKeyFromFQN\<close> inverts \<^verbatim>\<open>FQNFromPolicyKey\<close>.\<close>

theorem fqn_roundtrip:
  assumes "plainName n" and "plainVersion v" and "v \<noteq> ''''"
  shows "ScopeFromFQN (ResourcePolicyFQN n v s) = s \<and> ScopeFromFQN (PrincipalPolicyFQN n v s) = s \<and>
    ScopeFromFQN (RolePolicyFQN n v s) = s \<and> PolicyKeyFromFQN (FQNFromPolicyKey k) = k"
  using assms unfolding plainName_def plainVersion_def
  by (simp add: ResourcePolicyFQN_def PrincipalPolicyFQN_def RolePolicyFQN_def Let_def PolicyKey_roundtrip
      withScope_no_slash prefix_defs)

theorem fqn_roundtrip_witness:
  "ScopeFromFQN (RolePolicyFQN ''acme/admin'' ''default'' ''a.b'') = ''a.b''"
proof -
  have "plainName ''acme/admin''" "plainVersion ''default''" by code_simp+
  then show ?thesis using fqn_roundtrip by blast
qed

text \<open>C36 (functional).  \<^verbatim>\<open>ScopeParents\<close> yields the proper ancestors of a dotted scope, nearest first and ending
  with the root scope.\<close>

theorem scope_parents_prefixes:
  assumes "\<forall>x \<in> set segs. x \<noteq> [] \<and> CHR ''.'' \<notin> set x"
  shows "ScopeParents (joinDots segs) = map (\<lambda>n. joinDots (take n segs)) (rev [0..<length segs])"
  using assms by (rule ScopeParents_joinDots)

theorem scope_parents_prefixes_witness: "ScopeParents ''a.b.c'' = [''a.b'', ''a'', '''']"
  using scope_parents_prefixes [of "[''a'', ''b'', ''c'']"] by simp




end
