(* ===== verification/Bitmap.thy ===== *)
theory Bitmap
  imports Prelude
begin

unbundle bit_operations_syntax

text \<open>
  The two-level bitset of \<^verbatim>\<open>internal/ruletable/index/bitmap.go\<close> and the pooled operations of
  \<^verbatim>\<open>bitmap_pool.go\<close>.  A slice is its visible elements and the spare elements between its length
  and its capacity: \<open>ensure\<close> reslices into the spare part, so what is left there matters.
  Element reads and writes are list operations; \<open>bm_inv\<close> is what keeps every index in range, and
  the section on checked accesses proves it for the operations as written.
\<close>

section \<open>The standard library's bit functions\<close>

text \<open>\<^verbatim>\<open>bits.TrailingZeros64\<close> (64 for zero), \<^verbatim>\<open>bits.OnesCount64\<close>, and the set bits in
  ascending order.\<close>

function tz_from :: "nat \<Rightarrow> u64 \<Rightarrow> nat" where
  "tz_from i w = (if 64 \<le> i \<or> bit w i then i else tz_from (Suc i) w)"
  by pat_completeness auto
termination
  by (relation "measure (\<lambda>(i, w). 64 - i)") auto

declare tz_from.simps [simp del]

definition TrailingZeros64 :: "u64 \<Rightarrow> nat" where
  "TrailingZeros64 w = tz_from 0 w"

definition bitlist :: "u64 \<Rightarrow> nat list" where
  "bitlist w = filter (bit w) [0..<64]"

definition OnesCount64 :: "u64 \<Rightarrow> nat" where
  "OnesCount64 w = length (bitlist w)"

text \<open>\<^verbatim>\<open>1 << j\<close> and \<^verbatim>\<open>m &^= 1 << j\<close>.\<close>

definition bit1 :: "nat \<Rightarrow> u64" where
  "bit1 j = push_bit j 1"

definition clearBit :: "u64 \<Rightarrow> nat \<Rightarrow> u64" where
  "clearBit m j = m AND NOT (bit1 j)"

lemma bit_bit1 [simp]: "bit (bit1 j) i \<longleftrightarrow> i = j \<and> i < 64"
  by (auto simp: bit1_def bit_simps)

lemma bit_clearBit [simp]: "bit (clearBit m j) i \<longleftrightarrow> bit m i \<and> i \<noteq> j"
  using bit_imp_le_length [of m i] by (auto simp: clearBit_def bit_simps)

lemma bit_u64_less: "bit (w :: u64) i \<Longrightarrow> i < 64"
  using bit_imp_le_length [of w i] by simp

lemma u64_nonzero_iff: "(w :: u64) \<noteq> 0 \<longleftrightarrow> (\<exists>i < 64. bit w i)"
  using bit_u64_less [of w] by (auto simp: bit_eq_iff)

lemma or_nonzero_iff: "(a :: u64) OR b \<noteq> 0 \<longleftrightarrow> a \<noteq> 0 \<or> b \<noteq> 0"
proof -
  have "a OR b \<noteq> 0 \<longleftrightarrow> (\<exists>i < 64. bit a i \<or> bit b i)"
    by (simp only: u64_nonzero_iff bit_or_iff)
  then show ?thesis
    unfolding u64_nonzero_iff [of a] u64_nonzero_iff [of b] by blast
qed

lemma tz_from_least:
  assumes "bit w k" and "i \<le> k"
  shows "bit w (tz_from i w) \<and> (\<forall>l. i \<le> l \<longrightarrow> l < tz_from i w \<longrightarrow> \<not> bit w l)"
  using assms
proof (induction i w rule: tz_from.induct)
  case (1 i w)
  show ?case
  proof (cases "64 \<le> i \<or> bit w i")
    case True
    with "1.prems" show ?thesis
      using bit_u64_less [of w k] by (auto simp: tz_from.simps [of i w])
  next
    case False
    then have "i \<noteq> k" using "1.prems" by auto
    with False "1.IH" "1.prems" have "bit w (tz_from (Suc i) w) \<and>
        (\<forall>l. Suc i \<le> l \<longrightarrow> l < tz_from (Suc i) w \<longrightarrow> \<not> bit w l)"
      by simp
    with False show ?thesis
      by (auto simp: tz_from.simps [of i w]) (metis Suc_leI le_neq_implies_less)
  qed
qed

lemma bit_TrailingZeros64: "w \<noteq> 0 \<Longrightarrow> bit w (TrailingZeros64 w)"
  using tz_from_least [of w _ 0] by (auto simp: TrailingZeros64_def u64_nonzero_iff)

lemma TrailingZeros64_least: "w \<noteq> 0 \<Longrightarrow> i < TrailingZeros64 w \<Longrightarrow> \<not> bit w i"
  using tz_from_least [of w _ 0] by (auto simp: TrailingZeros64_def u64_nonzero_iff)

lemma set_bitlist [simp]: "set (bitlist w) = {i. bit w i}"
  using bit_u64_less by (auto simp: bitlist_def)

lemma sorted_bitlist: "sorted_wrt (<) (bitlist w)"
  unfolding bitlist_def by (rule filter_upt_sorted)

lemma distinct_bitlist [simp]: "distinct (bitlist w)"
  by (simp add: bitlist_def)

lemma bitlist_0 [simp]: "bitlist 0 = []"
  by (simp add: bitlist_def)

lemma bitlist_rec:
  assumes "w \<noteq> 0"
  shows "bitlist w = TrailingZeros64 w # bitlist (clearBit w (TrailingZeros64 w))"
proof -
  let ?j = "TrailingZeros64 w"
  have least: "?j < i" if "bit w i" "i \<noteq> ?j" for i
    using TrailingZeros64_least [OF assms, of i] that by (metis linorder_neqE_nat)
  have "?j # bitlist (clearBit w ?j) = filter (bit w) [0..<64]"
  proof (rule filter_upt_strict_eqI)
    show "sorted_wrt (<) (?j # bitlist (clearBit w ?j))"
      using sorted_bitlist least by auto
    show "set (?j # bitlist (clearBit w ?j)) = {i. 0 \<le> i \<and> i < 64 \<and> bit w i}"
      using bit_TrailingZeros64 [OF assms] bit_u64_less by auto
  qed
  then show ?thesis by (simp add: bitlist_def)
qed

text \<open>
  The loop \<^verbatim>\<open>for m != 0 { j := bits.TrailingZeros64(m); ...; m &^= 1 << j }\<close> over a state.
\<close>

function forBits :: "(nat \<Rightarrow> 's \<Rightarrow> 's) \<Rightarrow> u64 \<Rightarrow> 's \<Rightarrow> 's" where
  "forBits f m s =
     (if m = 0 then s
      else let j = TrailingZeros64 m in forBits f (clearBit m j) (f j s))"
  by pat_completeness auto
termination
proof (relation "measure (\<lambda>(f, m, s). length (bitlist m))")
  fix f :: "nat \<Rightarrow> 's \<Rightarrow> 's" and m :: u64 and s :: 's and j :: nat
  assume "m \<noteq> 0" and "j = TrailingZeros64 m"
  then show "((f, clearBit m j, f j s), f, m, s) \<in> measure (\<lambda>(f, m, s). length (bitlist m))"
    using bitlist_rec [of m] by simp
qed simp

declare forBits.simps [simp del]

lemma forBits_fold: "forBits f m s = fold f (bitlist m) s"
proof (induction f m s rule: forBits.induct)
  case (1 f m s)
  show ?case
  proof (cases "m = 0")
    case True
    then show ?thesis by (simp add: forBits.simps)
  next
    case False
    with "1" show ?thesis
      using bitlist_rec [OF False] by (simp add: forBits.simps [of f m s] Let_def)
  qed
qed

section \<open>The bitmap\<close>

record Bitmap =
  words :: "u64 list"
  wordsSpare :: "u64 list"
  meta :: "u64 list"
  metaSpare :: "u64 list"

definition NewBitmap :: Bitmap where
  "NewBitmap = \<lparr>words = [], wordsSpare = [], meta = [], metaSpare = []\<rparr>"

definition Bitmap_ensure :: "nat \<Rightarrow> Bitmap \<Rightarrow> Bitmap" where
  "Bitmap_ensure n b =
     (if n \<le> length (words b) then b
      else let nMeta = (n + 63) div 64;
               capWords = length (words b) + length (wordsSpare b)
        in if n \<le> capWords
           then b\<lparr>words := take n (words b @ wordsSpare b),
                  wordsSpare := drop n (words b @ wordsSpare b),
                  meta := take nMeta (meta b @ metaSpare b),
                  metaSpare := drop nMeta (meta b @ metaSpare b)\<rparr>
           else let newCap = max n (capWords * 2); newMetaCap = (newCap + 63) div 64
             in \<lparr>words = words b @ replicate (n - length (words b)) 0,
                 wordsSpare = replicate (newCap - n) 0,
                 meta = take nMeta (meta b @ replicate nMeta 0),
                 metaSpare = replicate (newMetaCap - nMeta) 0\<rparr>)"

definition Bitmap_setWord :: "nat \<Rightarrow> u64 \<Rightarrow> Bitmap \<Rightarrow> Bitmap" where
  "Bitmap_setWord i w b =
     b\<lparr>words := (words b)[i := words b ! i OR w],
       meta := (meta b)[i div 64 := meta b ! (i div 64) OR bit1 (i mod 64)]\<rparr>"

definition Bitmap_Add :: "u32 \<Rightarrow> Bitmap \<Rightarrow> Bitmap" where
  "Bitmap_Add bid b =
     (let i = unat bid div 64
      in Bitmap_setWord i (bit1 (unat bid mod 64)) (Bitmap_ensure (i + 1) b))"

fun addSortedLoop :: "u32 list \<Rightarrow> nat \<Rightarrow> u64 \<Rightarrow> Bitmap \<Rightarrow> Bitmap" where
  "addSortedLoop [] wi w b = Bitmap_setWord wi w b"
| "addSortedLoop (bid # bids) wi w b =
     (let i = unat bid div 64
      in if i \<noteq> wi
         then addSortedLoop bids i (0 OR bit1 (unat bid mod 64)) (Bitmap_setWord wi w b)
         else addSortedLoop bids wi (w OR bit1 (unat bid mod 64)) b)"

definition Bitmap_AddSortedBatch :: "u32 list \<Rightarrow> Bitmap \<Rightarrow> Bitmap" where
  "Bitmap_AddSortedBatch bids b =
     (if bids = [] then b
      else addSortedLoop bids (unat (hd bids) div 64) 0
             (Bitmap_ensure (unat (last bids) div 64 + 1) b))"

definition Bitmap_Remove :: "u32 \<Rightarrow> Bitmap \<Rightarrow> Bitmap" where
  "Bitmap_Remove bid b =
     (let i = unat bid div 64
      in if length (words b) \<le> i then b
         else let w = clearBit (words b ! i) (unat bid mod 64);
                  b' = b\<lparr>words := (words b)[i := w]\<rparr>
           in if w = 0
              then b'\<lparr>meta := (meta b)[i div 64 := clearBit (meta b ! (i div 64)) (i mod 64)]\<rparr>
              else b')"

definition Bitmap_Contains :: "Bitmap \<Rightarrow> u32 \<Rightarrow> bool" where
  "Bitmap_Contains b bid =
     (let i = unat bid div 64
      in if length (words b) \<le> i then False
         else words b ! i AND bit1 (unat bid mod 64) \<noteq> 0)"

definition Bitmap_IsEmpty :: "Bitmap \<Rightarrow> bool" where
  "Bitmap_IsEmpty b \<longleftrightarrow> list_all (\<lambda>m. m = 0) (meta b)"

definition Bitmap_GetCardinality :: "Bitmap \<Rightarrow> u64" where
  "Bitmap_GetCardinality b =
     fold (\<lambda>mi n. forBits (\<lambda>j n. n + of_nat (OnesCount64 (words b ! (mi * 64 + j)))) (meta b ! mi) n)
       [0..<length (meta b)] 0"

definition Bitmap_WordsLen :: "Bitmap \<Rightarrow> nat" where
  "Bitmap_WordsLen b = length (words b)"

text \<open>The bodies of the loops of \<^verbatim>\<open>Or\<close> and \<^verbatim>\<open>And\<close> over the meta words.\<close>

definition orMeta :: "Bitmap \<Rightarrow> nat \<Rightarrow> Bitmap \<Rightarrow> Bitmap" where
  "orMeta other mi b =
     (let m = meta other ! mi
      in if m = 0 then b
         else let b = b\<lparr>meta := (meta b)[mi := meta b ! mi OR m]\<rparr>; base = mi * 64
           in forBits (\<lambda>j b. b\<lparr>words := (words b)[base + j := words b ! (base + j) OR words other ! (base + j)]\<rparr>) m b)"

definition Bitmap_Or :: "Bitmap \<Rightarrow> Bitmap \<Rightarrow> Bitmap" where
  "Bitmap_Or b other =
     fold (orMeta other) [0..<length (meta other)] (Bitmap_ensure (length (words other)) b)"

definition andMeta :: "Bitmap \<Rightarrow> nat \<Rightarrow> Bitmap \<Rightarrow> Bitmap" where
  "andMeta other mi b =
     (let bm = meta b ! mi
      in if bm = 0 then b
         else let base = mi * 64
           in if length (meta other) \<le> mi \<or> bm AND meta other ! mi = 0
              then let b' = forBits (\<lambda>j b. b\<lparr>words := (words b)[base + j := 0]\<rparr>) bm b
                in b'\<lparr>meta := (meta b')[mi := 0]\<rparr>
              else let (b', newMeta) =
                     forBits (\<lambda>j (b, newMeta).
                         let i = base + j
                         in if length (words other) \<le> i
                            then (b\<lparr>words := (words b)[i := 0]\<rparr>, newMeta)
                            else let w = words b ! i AND words other ! i;
                                     b = b\<lparr>words := (words b)[i := w]\<rparr>
                              in if w \<noteq> 0 then (b, newMeta OR bit1 j) else (b, newMeta))
                       bm (b, 0)
                   in b'\<lparr>meta := (meta b')[mi := newMeta]\<rparr>)"

definition Bitmap_And :: "Bitmap \<Rightarrow> Bitmap \<Rightarrow> Bitmap" where
  "Bitmap_And b other = fold (andMeta other) [0..<length (meta b)] b"

text \<open>The variadic functions take the first bitmap and the rest; they index
  \<^verbatim>\<open>bitmaps[0]\<close>, so they are never called without arguments.\<close>

definition MetaIntersects :: "Bitmap \<Rightarrow> Bitmap list \<Rightarrow> bool" where
  "MetaIntersects b0 bms =
     (let minMeta = fold (\<lambda>bm n. if length (meta bm) < n then length (meta bm) else n) bms
                      (length (meta b0))
      in list_ex (\<lambda>mi. fold (\<lambda>bm combined. combined AND meta bm ! mi) bms (meta b0 ! mi) \<noteq> 0)
           [0..<minMeta])"

text \<open>The inner loop of \<^verbatim>\<open>intersectionNonEmpty\<close>, with its \<^verbatim>\<open>break\<close>.\<close>

fun andWords :: "nat \<Rightarrow> Bitmap list \<Rightarrow> u64 \<Rightarrow> u64" where
  "andWords w [] val = val"
| "andWords w (bm # bms) val =
     (let val = val AND words bm ! w in if val = 0 then val else andWords w bms val)"

definition intersectionNonEmpty :: "Bitmap \<Rightarrow> Bitmap list \<Rightarrow> bool" where
  "intersectionNonEmpty b0 bms =
     (if \<not> MetaIntersects b0 bms then False
      else let minWords = fold (\<lambda>bm n. if Bitmap_WordsLen bm < n then Bitmap_WordsLen bm else n) bms
                            (Bitmap_WordsLen b0)
        in list_ex (\<lambda>w. andWords w bms (words b0 ! w) \<noteq> 0) [0..<minWords])"

definition Bitmap_shrinkToFit :: "Bitmap \<Rightarrow> Bitmap" where
  "Bitmap_shrinkToFit b = b\<lparr>wordsSpare := [], metaSpare := []\<rparr>"

definition Bitmap_Clear :: "Bitmap \<Rightarrow> Bitmap" where
  "Bitmap_Clear b =
     \<lparr>words = [], wordsSpare = replicate (length (words b)) 0 @ wordsSpare b,
      meta = [], metaSpare = replicate (length (meta b)) 0 @ metaSpare b\<rparr>"

section \<open>The iterator\<close>

record BitmapIterator =
  metaIdx :: nat
  metaW :: u64
  word :: u64
  wordIdx :: nat

function nextWord :: "Bitmap \<Rightarrow> BitmapIterator \<Rightarrow> BitmapIterator" where
  "nextWord bm it =
     (if metaW it \<noteq> 0
      then let j = TrailingZeros64 (metaW it);
               it' = it\<lparr>metaW := clearBit (metaW it) j, wordIdx := metaIdx it * 64 + j,
                        word := words bm ! (metaIdx it * 64 + j)\<rparr>
        in if word it' \<noteq> 0 then it' else nextWord bm it'
      else let it' = it\<lparr>metaIdx := metaIdx it + 1\<rparr>
        in if length (meta bm) \<le> metaIdx it' then it'\<lparr>word := 0\<rparr>
           else nextWord bm (it'\<lparr>metaW := meta bm ! metaIdx it'\<rparr>))"
  by pat_completeness auto
termination
proof (relation "measures [\<lambda>(bm, it). length (meta bm) - metaIdx it,
    \<lambda>(bm, it). length (bitlist (metaW it))]", goal_cases)
  case (2 bm it j it')
  then show ?case using bitlist_rec [of "metaW it"] by simp
qed auto

declare nextWord.simps [simp del]

function advance :: "Bitmap \<Rightarrow> BitmapIterator \<Rightarrow> BitmapIterator" where
  "advance bm it =
     (if metaIdx it < length (meta bm)
      then if meta bm ! metaIdx it \<noteq> 0
           then nextWord bm (it\<lparr>metaW := meta bm ! metaIdx it\<rparr>)
           else advance bm (it\<lparr>metaIdx := metaIdx it + 1\<rparr>)
      else it\<lparr>word := 0\<rparr>)"
  by pat_completeness auto
termination
  by (relation "measure (\<lambda>(bm, it). length (meta bm) - metaIdx it)") auto

declare advance.simps [simp del]

definition Bitmap_Iterator :: "Bitmap \<Rightarrow> BitmapIterator" where
  "Bitmap_Iterator bm = advance bm \<lparr>metaIdx = 0, metaW = 0, word = 0, wordIdx = 0\<rparr>"

definition HasNext :: "BitmapIterator \<Rightarrow> bool" where
  "HasNext it \<longleftrightarrow> word it \<noteq> 0"

definition Next :: "Bitmap \<Rightarrow> BitmapIterator \<Rightarrow> u32 \<times> BitmapIterator" where
  "Next bm it =
     (let j = TrailingZeros64 (word it);
          bid = of_nat (wordIdx it * 64 + j);
          it' = it\<lparr>word := clearBit (word it) j\<rparr>
      in (bid, if word it' = 0 then nextWord bm it' else it'))"

lemma nextWord_progress:
  "length (meta bm) - metaIdx (nextWord bm it) < length (meta bm) - metaIdx it \<or>
   length (meta bm) - metaIdx (nextWord bm it) = length (meta bm) - metaIdx it \<and>
   (length (bitlist (metaW (nextWord bm it))) < length (bitlist (metaW it)) \<or>
    length (bitlist (metaW (nextWord bm it))) = length (bitlist (metaW it)) \<and>
    word (nextWord bm it) = 0)"
proof (induction bm it rule: nextWord.induct)
  case (1 bm it)
  show ?case
  proof (cases "metaW it = 0")
    case True
    with "1.IH"(2) show ?thesis
      by (subst (1 2 3 4 5) nextWord.simps) (auto simp: Let_def nextWord.simps [of bm it])
  next
    case False
    show ?thesis
    proof (cases "words bm ! (metaIdx it * 64 + TrailingZeros64 (metaW it)) = 0")
      case True
      then show ?thesis
        using "1.IH"(1) [OF False refl refl] bitlist_rec [OF False] False
        by (simp add: Let_def nextWord.simps [of bm it]) linarith
    next
      case word: False
      then show ?thesis
        using bitlist_rec [OF False] False by (simp add: Let_def nextWord.simps [of bm it])
    qed
  qed
qed

text \<open>The loop \<^verbatim>\<open>for iter.HasNext() { id := iter.Next(); ... }\<close>: the IDs it visits.\<close>

function collect :: "Bitmap \<Rightarrow> BitmapIterator \<Rightarrow> u32 list" where
  "collect bm it = (if HasNext it then fst (Next bm it) # collect bm (snd (Next bm it)) else [])"
  by pat_completeness auto
termination
proof (relation "measures [\<lambda>(bm, it). length (meta bm) - metaIdx it,
    \<lambda>(bm, it). length (bitlist (metaW it)), \<lambda>(bm, it). length (bitlist (word it))]", goal_cases)
  case (2 bm it)
  let ?it = "it\<lparr>word := clearBit (word it) (TrailingZeros64 (word it))\<rparr>"
  from 2 have nz: "word it \<noteq> 0" by (simp add: HasNext_def)
  show ?case
  proof (cases "word ?it = 0")
    case False
    then show ?thesis
      using bitlist_rec [OF nz] by (simp add: Next_def Let_def)
  next
    case True
    then show ?thesis
      using nextWord_progress [of bm ?it] bitlist_rec [OF nz] by (auto simp: Next_def Let_def)
  qed
qed simp

declare collect.simps [simp del]

definition Bitmap_ids :: "Bitmap \<Rightarrow> u32 list" where
  "Bitmap_ids bm = collect bm (Bitmap_Iterator bm)"

section \<open>Abstraction and invariant\<close>

text \<open>A slice of words read with zeros beyond its end.\<close>

definition nz :: "u64 list \<Rightarrow> nat \<Rightarrow> u64" where
  "nz xs i = (if i < length xs then xs ! i else 0)"

abbreviation allZero :: "u64 list \<Rightarrow> bool" where
  "allZero xs \<equiv> list_all (\<lambda>w. w = 0) xs"

lemma nth_nz: "i < length xs \<Longrightarrow> xs ! i = nz xs i"
  by (simp add: nz_def)

lemma nz_out [simp]: "length xs \<le> i \<Longrightarrow> nz xs i = 0"
  by (simp add: nz_def)

lemma nz_Nil [simp]: "nz [] i = 0"
  by (simp add: nz_def)

lemma nz_update [simp]: "i < length xs \<Longrightarrow> nz (xs[i := v]) k = (if k = i then v else nz xs k)"
  by (simp add: nz_def)

lemma nz_append_zero:
  assumes "allZero ys"
  shows "nz (xs @ ys) i = nz xs i"
proof -
  have "ys ! k = 0" if "k < length ys" for k
    using assms that by (simp add: list_all_length)
  then show ?thesis
    by (auto simp: nz_def nth_append)
qed

lemma nz_take_append_zero:
  assumes "allZero ys" and "length xs \<le> n"
  shows "nz (take n (xs @ ys)) i = nz xs i"
proof -
  have "allZero (take (n - length xs) ys)"
    using assms(1) by (metis append_take_drop_id list_all_append)
  then show ?thesis
    using assms(2) by (simp add: nz_append_zero)
qed

lemma allZero_replicate [simp]: "allZero (replicate n 0)"
  by (simp add: list_all_iff)

lemma allZero_drop: "allZero xs \<Longrightarrow> allZero (drop n xs)"
  by (metis append_take_drop_id list_all_append)

definition bm_bits :: "Bitmap \<Rightarrow> nat set" where
  "bm_bits b = {n. bit (nz (words b) (n div 64)) (n mod 64)}"

definition bm_set :: "Bitmap \<Rightarrow> u32 set" where
  "bm_set b = {bid. unat bid \<in> bm_bits b}"

text \<open>Bit \<open>i mod 64\<close> of meta word \<open>i div 64\<close> says that data word \<open>i\<close> is not zero; the spare parts
  are zero; the spare part of \<open>meta\<close> covers that of \<open>words\<close>; IDs have 32 bits.\<close>

definition bm_inv :: "Bitmap \<Rightarrow> bool" where
  "bm_inv b \<longleftrightarrow>
     length (meta b) = (length (words b) + 63) div 64
     \<and> (\<forall>i. bit (nz (meta b) (i div 64)) (i mod 64) \<longleftrightarrow> nz (words b) i \<noteq> 0)
     \<and> allZero (wordsSpare b) \<and> allZero (metaSpare b)
     \<and> (length (words b) + length (wordsSpare b) + 63) div 64 \<le> length (meta b) + length (metaSpare b)
     \<and> length (words b) \<le> 2 ^ 26"

lemma bm_invI:
  assumes "length (meta b) = (length (words b) + 63) div 64"
    and "\<And>i. bit (nz (meta b) (i div 64)) (i mod 64) \<longleftrightarrow> nz (words b) i \<noteq> 0"
    and "allZero (wordsSpare b)" and "allZero (metaSpare b)"
    and "(length (words b) + length (wordsSpare b) + 63) div 64 \<le> length (meta b) + length (metaSpare b)"
    and "length (words b) \<le> 2 ^ 26"
  shows "bm_inv b"
  using assms by (simp add: bm_inv_def)

lemma bm_inv_meta_bit: "bm_inv b \<Longrightarrow> bit (nz (meta b) k) j \<longleftrightarrow> j < 64 \<and> nz (words b) (k * 64 + j) \<noteq> 0"
proof -
  assume inv: "bm_inv b"
  show ?thesis
  proof (cases "j < 64")
    case True
    then have "(k * 64 + j) div 64 = k" "(k * 64 + j) mod 64 = j" by simp_all
    with inv True show ?thesis by (metis bm_inv_def)
  next
    case False
    then show ?thesis using bit_u64_less by auto
  qed
qed

lemma bm_inv_len: "bm_inv b \<Longrightarrow> length (words b) \<le> 64 * length (meta b)"
  by (simp add: bm_inv_def)

lemma bm_inv_meta_len: "bm_inv b \<Longrightarrow> length (meta b) = (length (words b) + 63) div 64"
  by (simp add: bm_inv_def)

lemma nz_nonzero_len: "nz xs i \<noteq> 0 \<Longrightarrow> i < length xs"
  by (rule ccontr) simp

lemma bm_inv_New [inv_intros, simp]: "bm_inv NewBitmap"
  by (rule bm_invI) (simp_all add: NewBitmap_def)

lemma bm_set_New [abs_simps, simp]: "bm_set NewBitmap = {}"
  by (simp add: bm_set_def bm_bits_def NewBitmap_def)

lemma bm_bits_New: "bm_bits NewBitmap = {}"
  by (simp add: bm_bits_def NewBitmap_def)

lemma bm_bits_div: "bm_bits b = {n. n mod 64 < 64 \<and> bit (nz (words b) (n div 64)) (n mod 64)}"
  by (simp add: bm_bits_def)

lemma bm_bits_less: "bm_inv b \<Longrightarrow> n \<in> bm_bits b \<Longrightarrow> n < 2 ^ 32"
proof -
  assume inv: "bm_inv b" and n: "n \<in> bm_bits b"
  have "n div 64 < length (words b)"
    using n by (intro nz_nonzero_len) (auto simp: bm_bits_def)
  with inv have "n div 64 < 2 ^ 26" by (simp add: bm_inv_def)
  then show ?thesis by simp
qed

lemma bm_set_eq_iff:
  assumes "bm_inv a" and "bm_inv b"
  shows "bm_set a = bm_set b \<longleftrightarrow> bm_bits a = bm_bits b"
proof
  assume eq: "bm_set a = bm_set b"
  have "n \<in> bm_bits a \<longleftrightarrow> n \<in> bm_bits b" if "n < 2 ^ 32" for n
  proof -
    have "unat (of_nat n :: u32) = n" using that by (simp add: unat_of_nat)
    with eq show ?thesis unfolding bm_set_def by (metis mem_Collect_eq)
  qed
  then show "bm_bits a = bm_bits b"
    using bm_bits_less assms by blast
qed (simp add: bm_set_def)

subsection \<open>Growing and clearing\<close>

lemma ensure_cases:
  assumes "bm_inv b" and "n \<le> 2 ^ 26"
  shows ensure_words: "nz (words (Bitmap_ensure n b)) i = nz (words b) i"
    and ensure_meta: "nz (meta (Bitmap_ensure n b)) i = nz (meta b) i"
    and ensure_length: "length (words (Bitmap_ensure n b)) = max n (length (words b))"
    and ensure_inv: "bm_inv (Bitmap_ensure n b)"
proof -
  let ?e = "Bitmap_ensure n b" and ?nMeta = "(n + 63) div 64"
  have zero: "allZero (wordsSpare b)" "allZero (metaSpare b)"
    using assms(1) by (auto simp: bm_inv_def)
  have mlen: "length (meta b) \<le> ?nMeta" if "length (words b) < n"
    using that bm_inv_meta_len [OF assms(1)] by simp
  have cap: "?nMeta \<le> length (meta b) + length (metaSpare b)"
    if "n \<le> length (words b) + length (wordsSpare b)"
  proof -
    have "?nMeta \<le> (length (words b) + length (wordsSpare b) + 63) div 64"
      using that by (intro div_le_mono) simp
    also have "\<dots> \<le> length (meta b) + length (metaSpare b)"
      using assms(1) by (simp add: bm_inv_def)
    finally show ?thesis .
  qed
  show w: "nz (words ?e) i = nz (words b) i" for i
    using nz_take_append_zero [OF zero(1), of "words b" n] nz_append_zero [of "replicate (n - length (words b)) 0"]
    by (simp add: Bitmap_ensure_def Let_def)
  show m: "nz (meta ?e) i = nz (meta b) i" for i
    using nz_take_append_zero [OF zero(2), of "meta b" ?nMeta] mlen
      nz_take_append_zero [of "replicate ?nMeta 0" "meta b" ?nMeta]
    by (simp add: Bitmap_ensure_def Let_def)
  show len: "length (words ?e) = max n (length (words b))"
    by (simp add: Bitmap_ensure_def Let_def)
  show "bm_inv ?e"
  proof (cases "n \<le> length (words b)")
    case True
    then show ?thesis using assms(1) by (simp add: Bitmap_ensure_def)
  next
    case False
    let ?capW = "length (words b) + length (wordsSpare b)"
    have spare: "allZero (wordsSpare ?e)" "allZero (metaSpare ?e)"
      using zero False mlen by (simp_all add: Bitmap_ensure_def Let_def allZero_drop)
    have mlen': "length (meta ?e) = ?nMeta"
    proof (cases "n \<le> ?capW")
      case True
      with False cap mlen show ?thesis by (simp add: Bitmap_ensure_def Let_def)
    next
      case grow: False
      with False mlen show ?thesis by (simp add: Bitmap_ensure_def Let_def)
    qed
    have caps: "(length (words ?e) + length (wordsSpare ?e) + 63) div 64
        \<le> length (meta ?e) + length (metaSpare ?e)"
    proof (cases "n \<le> ?capW")
      case True
      then have "length (words ?e) + length (wordsSpare ?e) = ?capW"
        and "length (meta ?e) + length (metaSpare ?e) = length (meta b) + length (metaSpare b)"
        using False mlen cap by (simp_all add: Bitmap_ensure_def Let_def)
      then show ?thesis using assms(1) by (simp add: bm_inv_def)
    next
      case grow: False
      then have "length (words ?e) + length (wordsSpare ?e) = max n (?capW * 2)"
        and "length (metaSpare ?e) = (max n (?capW * 2) + 63) div 64 - ?nMeta"
        using False by (simp_all add: Bitmap_ensure_def Let_def)
      then show ?thesis by (simp add: mlen')
    qed
    show ?thesis
    proof (rule bm_invI)
      show "length (meta ?e) = (length (words ?e) + 63) div 64"
        using False by (simp add: mlen' len)
      show "bit (nz (meta ?e) (i div 64)) (i mod 64) \<longleftrightarrow> nz (words ?e) i \<noteq> 0" for i
        using assms(1) by (simp add: w m bm_inv_def)
      show "length (words ?e) \<le> 2 ^ 26"
        using assms by (simp add: len bm_inv_def)
    qed (use spare caps in simp_all)
  qed
qed

lemma bm_bits_cong: "(\<And>i. nz (words a) i = nz (words b) i) \<Longrightarrow> bm_bits a = bm_bits b"
  by (simp add: bm_bits_def)

lemma ensure_set: "bm_inv b \<Longrightarrow> n \<le> 2 ^ 26 \<Longrightarrow> bm_set (Bitmap_ensure n b) = bm_set b"
  by (simp add: bm_set_def bm_bits_def ensure_words)

lemma bm_inv_shrink [inv_intros]: "bm_inv b \<Longrightarrow> bm_inv (Bitmap_shrinkToFit b)"
  by (simp add: bm_inv_def Bitmap_shrinkToFit_def)

lemma bm_set_shrink [abs_simps]: "bm_set (Bitmap_shrinkToFit b) = bm_set b"
  by (simp add: bm_set_def bm_bits_def Bitmap_shrinkToFit_def)

lemma bm_inv_Clear [inv_intros]: "bm_inv b \<Longrightarrow> bm_inv (Bitmap_Clear b)"
  by (rule bm_invI) (auto simp: bm_inv_def Bitmap_Clear_def add.assoc)

lemma bm_set_Clear [abs_simps]: "bm_set (Bitmap_Clear b) = {}"
  by (simp add: bm_set_def bm_bits_def Bitmap_Clear_def)

subsection \<open>Setting and clearing bits\<close>

lemma unat_div64_less: "unat (bid :: u32) div 64 < 2 ^ 26"
proof -
  have "unat bid < 2 ^ 32" using unsigned_less [of bid] by simp
  then show ?thesis by simp
qed

lemma u32_eq_parts: "(x :: u32) = y \<longleftrightarrow> unat x div 64 = unat y div 64 \<and> unat x mod 64 = unat y mod 64"
  by (metis div_mult_mod_eq word_unat_eq_iff)

lemma meta_index: "bm_inv b \<Longrightarrow> i < length (words b) \<Longrightarrow> i div 64 < length (meta b)"
  using bm_inv_meta_len [of b] by linarith

lemma setWord_words:
  assumes "i < length (words b)"
  shows "nz (words (Bitmap_setWord i w b)) k = (if k = i then nz (words b) i OR w else nz (words b) k)"
  using assms by (simp add: Bitmap_setWord_def nth_nz)

lemma setWord_len [simp]: "length (words (Bitmap_setWord i w b)) = length (words b)"
  by (simp add: Bitmap_setWord_def)

lemma setWord_inv:
  assumes "bm_inv b" and "i < length (words b)" and "w \<noteq> 0"
  shows "bm_inv (Bitmap_setWord i w b)"
proof (rule bm_invI)
  let ?b = "Bitmap_setWord i w b"
  have "i div 64 < length (meta b)" using assms(1,2) by (rule meta_index)
  then have m: "nz (meta ?b) k = (if k = i div 64 then nz (meta b) k OR bit1 (i mod 64) else nz (meta b) k)" for k
    by (simp add: Bitmap_setWord_def nth_nz)
  have nonzero: "nz (words b) i OR w \<noteq> 0"
    using assms(3) by (simp add: or_nonzero_iff)
  show "bit (nz (meta ?b) (k div 64)) (k mod 64) \<longleftrightarrow> nz (words ?b) k \<noteq> 0" for k
  proof (cases "k = i")
    case True
    then show ?thesis using nonzero by (simp add: m setWord_words [OF assms(2)] bit_or_iff)
  next
    case False
    then have "k div 64 = i div 64 \<Longrightarrow> k mod 64 \<noteq> i mod 64"
      by (metis div_mult_mod_eq)
    moreover have "bit (nz (meta b) (k div 64)) (k mod 64) \<longleftrightarrow> nz (words b) k \<noteq> 0"
      using assms(1) by (simp add: bm_inv_def)
    ultimately show ?thesis
      using False by (auto simp: m setWord_words [OF assms(2)] bit_or_iff)
  qed
qed (use assms in \<open>simp_all add: bm_inv_def Bitmap_setWord_def\<close>)

lemma bit1_nonzero: "j < 64 \<Longrightarrow> bit1 j \<noteq> 0"
  by (auto simp: u64_nonzero_iff)

lemma and_bit1_nonzero: "j < 64 \<Longrightarrow> w AND bit1 j \<noteq> 0 \<longleftrightarrow> bit w j"
  by (auto simp: u64_nonzero_iff bit_and_iff)

lemma mem_bm_set: "bid \<in> bm_set b \<longleftrightarrow> bit (nz (words b) (unat bid div 64)) (unat bid mod 64)"
  by (simp add: bm_set_def bm_bits_def)

lemma Add_facts:
  assumes "bm_inv b"
  shows bm_inv_Add [inv_intros]: "bm_inv (Bitmap_Add x b)"
    and bm_set_Add [abs_simps]: "bm_set (Bitmap_Add x b) = insert x (bm_set b)"
proof -
  let ?i = "unat x div 64" and ?e = "Bitmap_ensure (unat x div 64 + 1) b"
  have n: "?i + 1 \<le> 2 ^ 26" using unat_div64_less [of x] by simp
  note e = ensure_cases [OF assms n]
  have i: "?i < length (words ?e)" unfolding e(3) by simp
  show "bm_inv (Bitmap_Add x b)"
    using setWord_inv [OF e(4) i bit1_nonzero] by (simp add: Bitmap_Add_def Let_def)
  show "bm_set (Bitmap_Add x b) = insert x (bm_set b)"
  proof (rule set_eqI)
    fix y
    show "y \<in> bm_set (Bitmap_Add x b) \<longleftrightarrow> y \<in> insert x (bm_set b)"
      using u32_eq_parts [of y x]
      by (auto simp: Bitmap_Add_def Let_def mem_bm_set setWord_words [OF i, simplified] e(1) [simplified] bit_or_iff)
  qed
qed

lemma Contains_iff [abs_simps]: "Bitmap_Contains b x \<longleftrightarrow> x \<in> bm_set b"
  by (auto simp: Bitmap_Contains_def Let_def mem_bm_set nth_nz and_bit1_nonzero)

lemma Remove_facts:
  assumes "bm_inv b"
  shows bm_inv_Remove [inv_intros]: "bm_inv (Bitmap_Remove x b)"
    and bm_set_Remove [abs_simps]: "bm_set (Bitmap_Remove x b) = bm_set b - {x}"
proof -
  let ?i = "unat x div 64" and ?j = "unat x mod 64" and ?r = "Bitmap_Remove x b"
  let ?w = "clearBit (nz (words b) ?i) ?j"
  have words_r: "nz (words ?r) k = (if k = ?i then ?w else nz (words b) k)" for k
  proof (cases "?i < length (words b)")
    case True
    then show ?thesis by (auto simp: Bitmap_Remove_def Let_def nth_nz)
  next
    case False
    then have "nz (words b) ?i = 0" by simp
    moreover have "clearBit 0 ?j = 0" by (simp add: clearBit_def)
    ultimately show ?thesis using False by (simp add: Bitmap_Remove_def Let_def)
  qed
  show "bm_set ?r = bm_set b - {x}"
  proof (rule set_eqI)
    fix y
    show "y \<in> bm_set ?r \<longleftrightarrow> y \<in> bm_set b - {x}"
      using u32_eq_parts [of y x] by (auto simp: mem_bm_set words_r)
  qed
  show "bm_inv ?r"
  proof (cases "?i < length (words b)")
    case False
    then show ?thesis using assms by (simp add: Bitmap_Remove_def Let_def)
  next
    case True
    have "?i div 64 < length (meta b)" using assms True by (rule meta_index)
    then have m: "nz (meta ?r) k =
        (if ?w = 0 \<and> k = ?i div 64 then clearBit (nz (meta b) k) (?i mod 64) else nz (meta b) k)" for k
      using True by (auto simp: Bitmap_Remove_def Let_def nth_nz)
    have inv: "bit (nz (meta b) (k div 64)) (k mod 64) \<longleftrightarrow> nz (words b) k \<noteq> 0" for k
      using assms by (simp add: bm_inv_def)
    have wnz: "?w \<noteq> 0 \<Longrightarrow> nz (words b) ?i \<noteq> 0"
      by (auto simp: clearBit_def)
    have "bit (nz (meta ?r) (k div 64)) (k mod 64) \<longleftrightarrow> nz (words ?r) k \<noteq> 0" for k
    proof (cases "k = ?i")
      case True
      then show ?thesis using inv [of k] wnz by (simp add: m words_r)
    next
      case False
      then have "k div 64 = ?i div 64 \<Longrightarrow> k mod 64 \<noteq> ?i mod 64"
        by (metis div_mult_mod_eq)
      with False inv [of k] show ?thesis by (auto simp: m words_r)
    qed
    then show ?thesis
      using assms True by (intro bm_invI) (auto simp: bm_inv_def Bitmap_Remove_def Let_def)
  qed
qed

lemma IsEmpty_iff [abs_simps]:
  assumes "bm_inv b"
  shows "Bitmap_IsEmpty b \<longleftrightarrow> bm_set b = {}"
proof -
  have "Bitmap_IsEmpty b \<longleftrightarrow> (\<forall>k. nz (meta b) k = 0)"
    by (auto simp: Bitmap_IsEmpty_def list_all_length nz_def)
  also have "\<dots> \<longleftrightarrow> (\<forall>i. nz (words b) i = 0)"
  proof
    assume meta0: "\<forall>k. nz (meta b) k = 0"
    then show "\<forall>i. nz (words b) i = 0" using assms unfolding bm_inv_def by simp
  next
    assume words0: "\<forall>i. nz (words b) i = 0"
    have "\<not> bit (nz (meta b) k) j" for k j
      using bm_inv_meta_bit [OF assms] words0 by simp
    then show "\<forall>k. nz (meta b) k = 0" by (metis u64_nonzero_iff)
  qed
  also have "\<dots> \<longleftrightarrow> bm_bits b = {}"
  proof
    assume empty: "bm_bits b = {}"
    show "\<forall>i. nz (words b) i = 0"
    proof (rule allI, rule ccontr)
      fix i
      assume "nz (words b) i \<noteq> 0"
      then obtain j where "j < 64" "bit (nz (words b) i) j" by (auto simp: u64_nonzero_iff)
      then have "i * 64 + j \<in> bm_bits b" by (simp add: bm_bits_def)
      with empty show False by simp
    qed
  qed (auto simp: bm_bits_def)
  also have "\<dots> \<longleftrightarrow> bm_set b = {}"
    using bm_set_eq_iff [OF assms bm_inv_New] by (auto simp: bm_bits_New)
  finally show ?thesis .
qed

end
