(* ===== verification/BitmapOps.thy ===== *)
theory BitmapOps
  imports Bitmap
begin

unbundle bit_operations_syntax

text \<open>
  Correctness of the bulk operations of \<^verbatim>\<open>bitmap.go\<close> (batch insertion, union, intersection,
  intersection test, cardinality) with respect to the set \<open>bm_set\<close> a bitmap stands for.
\<close>

section \<open>Batch insertion\<close>

lemma setWord_set:
  "i < length (words b) \<Longrightarrow>
   bm_set (Bitmap_setWord i w b) = bm_set b \<union> {x. unat x div 64 = i \<and> bit w (unat x mod 64)}"
  by (auto simp: mem_bm_set setWord_words bit_or_iff split: if_splits)

lemma addSortedLoop_facts:
  assumes "bm_inv b" and "wi < length (words b)"
    and "\<forall>x \<in> set bids. unat x div 64 < length (words b)"
    and "w \<noteq> 0 \<or> bids \<noteq> [] \<and> unat (hd bids) div 64 = wi"
  shows "bm_inv (addSortedLoop bids wi w b) \<and>
    bm_set (addSortedLoop bids wi w b) =
      bm_set b \<union> {x. unat x div 64 = wi \<and> bit w (unat x mod 64)} \<union> set bids"
  using assms
proof (induction bids wi w b rule: addSortedLoop.induct)
  case (1 wi w b)
  then show ?case
    by (auto simp: setWord_inv setWord_set)
next
  case (2 bid bids wi w b)
  let ?i = "unat bid div 64" and ?j = "unat bid mod 64"
  have j: "bit1 ?j \<noteq> 0" by (simp add: bit1_nonzero)
  show ?case
  proof (cases "?i = wi")
    case True
    have "w OR bit1 ?j \<noteq> 0"
      using j by (simp add: or_nonzero_iff)
    with True "2.IH"(2) [OF refl] "2.prems" show ?thesis
      by (auto simp: bit_or_iff u32_eq_parts)
  next
    case False
    with "2.prems" have "w \<noteq> 0" by auto
    with False "2.prems" j "2.IH"(1) [OF refl] setWord_inv [of b wi w] show ?thesis
      by (auto simp: u32_eq_parts setWord_set)
  qed
qed

lemma AddSortedBatch_facts:
  assumes "bm_inv b" and "sorted bids"
  shows bm_inv_AddSortedBatch [inv_intros]: "bm_inv (Bitmap_AddSortedBatch bids b)"
    and bm_set_AddSortedBatch [abs_simps]: "bm_set (Bitmap_AddSortedBatch bids b) = bm_set b \<union> set bids"
proof -
  have "bm_inv (Bitmap_AddSortedBatch bids b) \<and> bm_set (Bitmap_AddSortedBatch bids b) = bm_set b \<union> set bids"
  proof (cases "bids = []")
    case True
    then show ?thesis using assms(1) by (simp add: Bitmap_AddSortedBatch_def)
  next
    case False
    let ?n = "unat (last bids) div 64 + 1"
    have n: "?n \<le> 2 ^ 26" using unat_div64_less [of "last bids"] by simp
    have le: "unat x div 64 \<le> unat (last bids) div 64" if "x \<in> set bids" for x
    proof -
      have "x \<le> last bids"
        using assms(2) that False by (metis in_set_conv_decomp last_appendR
            last_in_set list.distinct(1) sorted_append last_ConsL last_ConsR order_refl sorted_wrt.simps(2))
      then show ?thesis by (intro div_le_mono) (simp add: word_le_nat_alt)
    qed
    note e = ensure_cases [OF assms(1) n]
    have lt: "unat x div 64 < length (words (Bitmap_ensure ?n b))" if "x \<in> set bids" for x
      using le [OF that] unfolding e(3) by simp
    have "bm_inv (addSortedLoop bids (unat (hd bids) div 64) 0 (Bitmap_ensure ?n b)) \<and>
      bm_set (addSortedLoop bids (unat (hd bids) div 64) 0 (Bitmap_ensure ?n b)) =
        bm_set (Bitmap_ensure ?n b) \<union> {x. unat x div 64 = unat (hd bids) div 64 \<and> bit (0 :: u64) (unat x mod 64)} \<union> set bids"
      by (rule addSortedLoop_facts [OF e(4)]) (use False lt in auto)
    then show ?thesis
      using False ensure_set [OF assms(1) n] by (simp add: Bitmap_AddSortedBatch_def)
  qed
  then show "bm_inv (Bitmap_AddSortedBatch bids b)"
    and "bm_set (Bitmap_AddSortedBatch bids b) = bm_set b \<union> set bids" by auto
qed

section \<open>Rewriting the words of one meta word\<close>

lemma fold_words_update:
  "fold (\<lambda>j b. b\<lparr>words := (words b)[base + j := g (base + j) (words b ! (base + j))]\<rparr>) js b =
   b\<lparr>words := fold (\<lambda>i xs. xs[i := g i (xs ! i)]) (map ((+) base) js) (words b)\<rparr>"
  by (induction js arbitrary: b) auto

lemma nz_fold_update:
  assumes "distinct is" and "\<forall>i \<in> set is. i < length xs"
  shows "nz (fold (\<lambda>i xs. xs[i := g i (xs ! i)]) is xs) k = (if k \<in> set is then g k (nz xs k) else nz xs k)"
  using assms by (auto simp: nz_def nth_fold_update)

lemma block_index: "bit (m :: u64) (i - mi * 64) \<and> mi * 64 \<le> i \<longleftrightarrow> i div 64 = mi \<and> bit m (i mod 64)"
proof
  assume "bit m (i - mi * 64) \<and> mi * 64 \<le> i"
  moreover from this obtain j where "i = mi * 64 + j" "j < 64"
    using bit_u64_less by (metis le_add_diff_inverse)
  ultimately show "i div 64 = mi \<and> bit m (i mod 64)" by simp
next
  assume "i div 64 = mi \<and> bit m (i mod 64)"
  then show "bit m (i - mi * 64) \<and> mi * 64 \<le> i"
    by (metis minus_div_mult_eq_mod div_times_less_eq_dividend)
qed

lemma mem_block: "i \<in> set (map ((+) (mi * 64)) (bitlist m)) \<longleftrightarrow> i div 64 = mi \<and> bit m (i mod 64)"
proof -
  have "i \<in> set (map ((+) (mi * 64)) (bitlist m)) \<longleftrightarrow> bit m (i - mi * 64) \<and> mi * 64 \<le> i"
    by (auto simp: image_iff)
  then show ?thesis by (simp only: block_index)
qed

lemma forBits_words:
  fixes g mi b m
  defines "b' \<equiv> forBits (\<lambda>j b. b\<lparr>words := (words b)[mi * 64 + j := g (mi * 64 + j) (words b ! (mi * 64 + j))]\<rparr>) m b"
  assumes "\<And>j. bit m j \<Longrightarrow> mi * 64 + j < length (words b)"
  shows "length (words b') = length (words b)"
    and "nz (words b') i = (if i div 64 = mi \<and> bit m (i mod 64) then g i (nz (words b) i) else nz (words b) i)"
    and "meta b' = meta b" and "wordsSpare b' = wordsSpare b" and "metaSpare b' = metaSpare b"
proof -
  let ?is = "map ((+) (mi * 64)) (bitlist m)"
  have b': "b' = b\<lparr>words := fold (\<lambda>i xs. xs[i := g i (xs ! i)]) ?is (words b)\<rparr>"
    by (simp add: b'_def forBits_fold fold_words_update)
  have "distinct ?is" by (simp add: distinct_map)
  moreover have "\<forall>i \<in> set ?is. i < length (words b)" using assms(2) by auto
  ultimately have "nz (fold (\<lambda>i xs. xs[i := g i (xs ! i)]) ?is (words b)) i =
      (if i div 64 = mi \<and> bit m (i mod 64) then g i (nz (words b) i) else nz (words b) i)"
    by (simp only: nz_fold_update mem_block)
  then show "nz (words b') i = (if i div 64 = mi \<and> bit m (i mod 64) then g i (nz (words b) i) else nz (words b) i)"
    by (simp add: b')
  show "length (words b') = length (words b)" "meta b' = meta b"
    "wordsSpare b' = wordsSpare b" "metaSpare b' = metaSpare b"
    by (simp_all add: b')
qed

lemma meta_bit_in_range:
  assumes "bm_inv b" and "mi < length (meta b)" and "bit (meta b ! mi) j"
  shows "mi * 64 + j < length (words b)"
proof -
  have "nz (words b) (mi * 64 + j) \<noteq> 0"
    using bm_inv_meta_bit [OF assms(1), of mi j] assms by (simp add: nz_def)
  then show ?thesis by (rule nz_nonzero_len)
qed

section \<open>Union\<close>

text \<open>The state of the loop after the first \<open>k\<close> meta words.\<close>

definition or_upto :: "Bitmap \<Rightarrow> Bitmap \<Rightarrow> nat \<Rightarrow> Bitmap \<Rightarrow> bool" where
  "or_upto b other k b' \<longleftrightarrow>
     length (words b') = length (words b) \<and> length (meta b') = length (meta b)
     \<and> wordsSpare b' = wordsSpare b \<and> metaSpare b' = metaSpare b
     \<and> (\<forall>i. nz (words b') i = (if i div 64 < k then nz (words b) i OR nz (words other) i else nz (words b) i))
     \<and> (\<forall>mi. nz (meta b') mi = (if mi < k then nz (meta b) mi OR nz (meta other) mi else nz (meta b) mi))"

lemma or_upto_step:
  assumes "or_upto b other k b'" and "bm_inv other" and "k < length (meta other)"
    and "length (words other) \<le> length (words b)" and "length (meta other) \<le> length (meta b)"
  shows "or_upto b other (Suc k) (orMeta other k b')"
proof -
  let ?m = "meta other ! k"
  have m: "?m = nz (meta other) k" using assms(3) by (simp add: nz_def)
  have zero: "nz (words other) i = 0" if "i div 64 = k" "\<not> bit ?m (i mod 64)" for i
    using assms(2) that m by (auto simp: bm_inv_def)
  show ?thesis
  proof (cases "?m = 0")
    case True
    then have "nz (words other) i = 0" if "i div 64 = k" for i
      using zero [OF that] by simp
    with True assms(1) m show ?thesis
      by (auto simp: or_upto_def orMeta_def less_Suc_eq)
  next
    case False
    let ?b = "b'\<lparr>meta := (meta b')[k := meta b' ! k OR ?m]\<rparr>"
    have len: "length (words b') = length (words b)" "length (meta b') = length (meta b)"
      using assms(1) by (auto simp: or_upto_def)
    have range: "k * 64 + j < length (words ?b)" if "bit ?m j" for j
      using meta_bit_in_range [OF assms(2,3) that] assms(4) len by simp
    have word: "nz (words other) i = words other ! i" if "i div 64 = k" "bit ?m (i mod 64)" for i
      using meta_bit_in_range [OF assms(2,3), of "i mod 64"] that by (simp add: nz_def) (metis div_mult_mod_eq)
    note fb = forBits_words [of ?m k ?b "\<lambda>i x. x OR words other ! i", OF range]
    have "k < length (meta b')" using assms(3,5) len by simp
    then show ?thesis
      using False assms(1) fb word zero m len
      by (auto simp: or_upto_def orMeta_def Let_def less_Suc_eq nth_nz)
  qed
qed

lemma or_upto_fold:
  assumes "bm_inv other" and "length (words other) \<le> length (words b)"
    and "length (meta other) \<le> length (meta b)" and "k \<le> length (meta other)"
  shows "or_upto b other k (fold (orMeta other) [0..<k] b)"
  using assms(4)
proof (induction k)
  case 0
  then show ?case by (simp add: or_upto_def)
next
  case (Suc k)
  then show ?case using or_upto_step [OF _ assms(1) _ assms(2,3)] by simp
qed

lemma Or_facts:
  assumes "bm_inv b" and "bm_inv other"
  shows bm_inv_Or [inv_intros]: "bm_inv (Bitmap_Or b other)"
    and bm_set_Or [abs_simps]: "bm_set (Bitmap_Or b other) = bm_set b \<union> bm_set other"
    and Or_words: "nz (words (Bitmap_Or b other)) i = nz (words b) i OR nz (words other) i"
    and Or_length: "length (words (Bitmap_Or b other)) = max (length (words other)) (length (words b))"
proof -
  let ?e = "Bitmap_ensure (length (words other)) b" and ?r = "Bitmap_Or b other"
  have n: "length (words other) \<le> 2 ^ 26" using assms(2) by (simp add: bm_inv_def)
  note e = ensure_cases [OF assms(1) n]
  have mlen: "length (meta other) \<le> length (meta ?e)"
    using bm_inv_meta_len [OF assms(2)] bm_inv_meta_len [OF e(4)] e(3) by (simp add: div_le_mono)
  have wlen: "length (words other) \<le> length (words ?e)" by (simp add: e(3))
  have upto: "or_upto ?e other (length (meta other)) ?r"
    using or_upto_fold [OF assms(2) wlen mlen, of "length (meta other)"] by (simp add: Bitmap_Or_def)
  have w: "nz (words ?r) i = nz (words b) i OR nz (words other) i" for i
  proof (cases "i div 64 < length (meta other)")
    case False
    then have "nz (words other) i = 0"
      using bm_inv_len [OF assms(2)] by (intro nz_out) linarith
    then show ?thesis using upto e(1) False by (simp add: or_upto_def)
  qed (use upto e(1) in \<open>simp add: or_upto_def\<close>)
  then show "nz (words ?r) i = nz (words b) i OR nz (words other) i" for i .
  have m: "nz (meta ?r) k = nz (meta b) k OR nz (meta other) k" for k
    using upto e(2) by (cases "k < length (meta other)") (simp_all add: or_upto_def)
  have len: "length (words ?r) = length (words ?e)" using upto by (simp add: or_upto_def)
  then show "length (words ?r) = max (length (words other)) (length (words b))" by (simp add: e(3))
  show "bm_inv ?r"
  proof (rule bm_invI)
    show "bit (nz (meta ?r) (k div 64)) (k mod 64) \<longleftrightarrow> nz (words ?r) k \<noteq> 0" for k
      using assms by (simp add: w m bit_or_iff or_nonzero_iff bm_inv_def)
  qed (use upto e(4) in \<open>simp_all add: or_upto_def bm_inv_def\<close>)
  show "bm_set ?r = bm_set b \<union> bm_set other"
    by (auto simp: mem_bm_set w bit_or_iff)
qed

section \<open>Intersection\<close>

text \<open>The second inner loop of \<^verbatim>\<open>And\<close>: the words become the conjunctions and \<open>newMeta\<close> records
  the nonzero ones.\<close>

abbreviation andStep :: "Bitmap \<Rightarrow> nat \<Rightarrow> nat \<Rightarrow> Bitmap \<times> u64 \<Rightarrow> Bitmap \<times> u64" where
  "andStep other base \<equiv> \<lambda>j (b, newMeta).
     let i = base + j
     in if length (words other) \<le> i then (b\<lparr>words := (words b)[i := 0]\<rparr>, newMeta)
        else let w = words b ! i AND words other ! i; b = b\<lparr>words := (words b)[i := w]\<rparr>
          in if w \<noteq> 0 then (b, newMeta OR bit1 j) else (b, newMeta)"

lemma andStep_eq:
  assumes "base + j < length (words b)"
  shows "andStep other base j (b, nm) =
    (b\<lparr>words := (words b)[base + j := words b ! (base + j) AND nz (words other) (base + j)]\<rparr>,
     if nz (words b) (base + j) AND nz (words other) (base + j) \<noteq> 0 then nm OR bit1 j else nm)"
  using assms by (simp add: Let_def nth_nz)

lemma fold_andStep:
  assumes "distinct js" and "\<forall>j \<in> set js. base + j < length (words b)"
  shows "fold (andStep other base) js (b, nm) =
    (fold (\<lambda>j b. b\<lparr>words := (words b)[base + j := words b ! (base + j) AND nz (words other) (base + j)]\<rparr>) js b,
     fold (\<lambda>j nm. if nz (words b) (base + j) AND nz (words other) (base + j) \<noteq> 0 then nm OR bit1 j else nm) js nm)"
  using assms
proof (induction js arbitrary: b nm)
  case Nil
  then show ?case by simp
next
  case (Cons j js)
  let ?b = "b\<lparr>words := (words b)[base + j := words b ! (base + j) AND nz (words other) (base + j)]\<rparr>"
  let ?nm = "if nz (words b) (base + j) AND nz (words other) (base + j) \<noteq> 0 then nm OR bit1 j else nm"
  have range: "base + j < length (words b)" using Cons.prems by simp
  have same: "nz (words ?b) (base + k) = nz (words b) (base + k)" if "k \<in> set js" for k
    using Cons.prems that by auto
  have "fold (andStep other base) (j # js) (b, nm) = fold (andStep other base) js (?b, ?nm)"
    by (simp only: fold_simps andStep_eq [OF range])
  also have "\<dots> = (fold (\<lambda>j b. b\<lparr>words := (words b)[base + j := words b ! (base + j) AND nz (words other) (base + j)]\<rparr>) js ?b,
     fold (\<lambda>j nm. if nz (words ?b) (base + j) AND nz (words other) (base + j) \<noteq> 0 then nm OR bit1 j else nm) js ?nm)"
    using Cons.prems by (intro Cons.IH) auto
  also have "fold (\<lambda>j nm. if nz (words ?b) (base + j) AND nz (words other) (base + j) \<noteq> 0 then nm OR bit1 j else nm) js ?nm =
     fold (\<lambda>j nm. if nz (words b) (base + j) AND nz (words other) (base + j) \<noteq> 0 then nm OR bit1 j else nm) js ?nm"
    by (rule fold_cong) (use same in auto)
  finally show ?case by simp
qed

lemma bit_fold_or_bit1:
  "bit (fold (\<lambda>j nm. if P j then nm OR bit1 j else nm) js nm) k \<longleftrightarrow> bit nm k \<or> k \<in> set js \<and> P k \<and> k < 64"
  by (induction js arbitrary: nm) (auto simp: bit_or_iff)

definition and_upto :: "Bitmap \<Rightarrow> Bitmap \<Rightarrow> nat \<Rightarrow> Bitmap \<Rightarrow> bool" where
  "and_upto b other k b' \<longleftrightarrow>
     length (words b') = length (words b) \<and> length (meta b') = length (meta b)
     \<and> wordsSpare b' = wordsSpare b \<and> metaSpare b' = metaSpare b
     \<and> (\<forall>i. nz (words b') i = (if i div 64 < k then nz (words b) i AND nz (words other) i else nz (words b) i))
     \<and> (\<forall>mi j. bit (nz (meta b') mi) j \<longleftrightarrow>
          (if mi < k then j < 64 \<and> nz (words b) (mi * 64 + j) AND nz (words other) (mi * 64 + j) \<noteq> 0
           else bit (nz (meta b) mi) j))"

lemma block_div: "j < 64 \<Longrightarrow> (mi * 64 + j) div 64 = (mi :: nat)" "j < 64 \<Longrightarrow> (mi * 64 + j) mod 64 = j"
  by simp_all

lemma and_uptoI:
  assumes "and_upto b other k b'" and "k < length (meta b)"
    and "length (words b'') = length (words b')" and "length (meta b'') = length (meta b')"
    and "wordsSpare b'' = wordsSpare b'" and "metaSpare b'' = metaSpare b'"
    and "\<And>i. i div 64 \<noteq> k \<Longrightarrow> nz (words b'') i = nz (words b') i"
    and "\<And>i. i div 64 = k \<Longrightarrow> nz (words b'') i = nz (words b) i AND nz (words other) i"
    and "\<And>mi. mi \<noteq> k \<Longrightarrow> nz (meta b'') mi = nz (meta b') mi"
    and "\<And>j. bit (nz (meta b'') k) j \<longleftrightarrow> j < 64 \<and> nz (words b) (k * 64 + j) AND nz (words other) (k * 64 + j) \<noteq> 0"
  shows "and_upto b other (Suc k) b''"
proof -
  have "nz (words b'') i = (if i div 64 < Suc k then nz (words b) i AND nz (words other) i else nz (words b) i)" for i
    using assms(1) assms(7,8) [of i] by (auto simp: and_upto_def less_Suc_eq)
  moreover have "bit (nz (meta b'') mi) j \<longleftrightarrow>
      (if mi < Suc k then j < 64 \<and> nz (words b) (mi * 64 + j) AND nz (words other) (mi * 64 + j) \<noteq> 0
       else bit (nz (meta b) mi) j)" for mi j
    using assms(1) assms(9) [of mi] assms(10) [of j] by (cases "mi = k") (auto simp: and_upto_def less_Suc_eq)
  ultimately show ?thesis
    using assms(1,3-6) by (simp add: and_upto_def)
qed

lemma and_upto_step:
  assumes upto: "and_upto b other k b'" and "bm_inv b" and "bm_inv other" and k: "k < length (meta b)"
  shows "and_upto b other (Suc k) (andMeta other k b')"
proof -
  let ?m = "meta b' ! k"
  have len: "length (words b') = length (words b)" "length (meta b') = length (meta b)"
    using upto by (auto simp: and_upto_def)
  have w: "nz (words b') i = nz (words b) i" if "i div 64 = k" for i
    using upto that by (simp add: and_upto_def)
  have m: "?m = nz (meta b) k"
    using upto k len by (simp add: nth_nz) (auto simp: and_upto_def bit_eq_iff)
  have bitm: "bit ?m j \<longleftrightarrow> j < 64 \<and> nz (words b) (k * 64 + j) \<noteq> 0" for j
    unfolding m by (rule bm_inv_meta_bit [OF assms(2)])
  have range: "k * 64 + j < length (words b')" if "bit ?m j" for j
    using that bitm len nz_nonzero_len by auto
  have zero: "nz (words b) i = 0" if "i div 64 = k" "\<not> bit ?m (i mod 64)" for i
    using that bitm [of "i mod 64"] by (metis div_mult_mod_eq mod_less_divisor zero_less_numeral)
  consider (empty) "?m = 0"
    | (disjoint) "?m \<noteq> 0" "length (meta other) \<le> k \<or> ?m AND meta other ! k = 0"
    | (meet) "?m \<noteq> 0" "\<not> (length (meta other) \<le> k \<or> ?m AND meta other ! k = 0)" by blast
  then show ?thesis
  proof cases
    case empty
    then have "nz (words b) i = 0" if "i div 64 = k" for i using zero [OF that] by simp
    then show ?thesis
      using empty w k len bitm
      by (intro and_uptoI [OF upto k]) (auto simp: andMeta_def nth_nz block_div)
  next
    case disjoint
    note fb = forBits_words [of ?m k b' "\<lambda>i x. 0", OF range]
    have AND: "nz (words b) i AND nz (words other) i = 0" if "i div 64 = k" for i
    proof (cases "bit ?m (i mod 64)")
      case True
      have "\<not> bit (nz (meta other) k) (i mod 64)"
      proof
        assume other: "bit (nz (meta other) k) (i mod 64)"
        then have "nz (meta other) k \<noteq> 0" by auto
        then have "k < length (meta other)" by (rule nz_nonzero_len)
        with disjoint(2) have "?m AND nz (meta other) k = 0" by (simp add: nth_nz)
        with True other show False by (metis bit_and_iff bit_0_eq bot_apply bot_bool_def)
      qed
      then have "nz (words other) i = 0"
        using assms(3) that by (auto simp: bm_inv_def)
      then show ?thesis by simp
    qed (use zero that in simp)
    have "nz (words (andMeta other k b')) i = 0" if "i div 64 = k" for i
      using disjoint fb(2) that w [OF that] zero [OF that] by (simp add: andMeta_def Let_def)
    then show ?thesis
      using disjoint fb k len AND
      by (intro and_uptoI [OF upto k]) (auto simp: andMeta_def Let_def block_div)
  next
    case meet
    let ?P = "\<lambda>j. nz (words b') (k * 64 + j) AND nz (words other) (k * 64 + j) \<noteq> 0"
    let ?nm = "fold (\<lambda>j nm. if ?P j then nm OR bit1 j else nm) (bitlist ?m) 0"
    let ?b = "forBits (\<lambda>j b. b\<lparr>words := (words b)[k * 64 + j := words b ! (k * 64 + j) AND nz (words other) (k * 64 + j)]\<rparr>) ?m b'"
    note fb = forBits_words [of ?m k b' "\<lambda>i x. x AND nz (words other) i", OF range]
    have "forBits (andStep other (k * 64)) ?m (b', 0) = (?b, ?nm)"
      unfolding forBits_fold by (rule fold_andStep) (use range in auto)
    then have eq: "andMeta other k b' = ?b\<lparr>meta := (meta ?b)[k := ?nm]\<rparr>"
      using meet by (simp add: andMeta_def Let_def)
    have "bit ?nm j \<longleftrightarrow> j < 64 \<and> nz (words b) (k * 64 + j) AND nz (words other) (k * 64 + j) \<noteq> 0" for j
      using bitm [of j] w [of "k * 64 + j"] by (auto simp: bit_fold_or_bit1 block_div)
    then show ?thesis
      using fb k len w zero
      by (intro and_uptoI [OF upto k]) (auto simp: eq)
  qed
qed

lemma And_facts:
  assumes "bm_inv b" and "bm_inv other"
  shows bm_inv_And [inv_intros]: "bm_inv (Bitmap_And b other)"
    and bm_set_And [abs_simps]: "bm_set (Bitmap_And b other) = bm_set b \<inter> bm_set other"
    and And_words: "nz (words (Bitmap_And b other)) i = nz (words b) i AND nz (words other) i"
    and And_length: "length (words (Bitmap_And b other)) = length (words b)"
proof -
  let ?r = "Bitmap_And b other" and ?n = "length (meta b)"
  have "and_upto b other k (fold (andMeta other) [0..<k] b)" if "k \<le> ?n" for k
    using that
  proof (induction k)
    case 0
    then show ?case by (simp add: and_upto_def)
  next
    case (Suc k)
    then show ?case using and_upto_step [OF _ assms] by simp
  qed
  from this [of ?n] have upto: "and_upto b other ?n ?r" by (simp add: Bitmap_And_def)
  have w: "nz (words ?r) i = nz (words b) i AND nz (words other) i" for i
  proof (cases "i div 64 < ?n")
    case False
    then have "nz (words b) i = 0"
      using bm_inv_len [OF assms(1)] by (intro nz_out) linarith
    then show ?thesis using upto False by (simp add: and_upto_def)
  qed (use upto in \<open>simp add: and_upto_def\<close>)
  then show "nz (words ?r) i = nz (words b) i AND nz (words other) i" for i .
  show "length (words ?r) = length (words b)" using upto by (simp add: and_upto_def)
  show "bm_inv ?r"
  proof (rule bm_invI)
    show "bit (nz (meta ?r) (i div 64)) (i mod 64) \<longleftrightarrow> nz (words ?r) i \<noteq> 0" for i
    proof (cases "i div 64 < ?n")
      case True
      then show ?thesis using upto by (simp add: and_upto_def)
    next
      case False
      then have "nz (meta ?r) (i div 64) = 0" using upto by (intro nz_out) (simp add: and_upto_def)
      moreover have "nz (words b) i = 0"
        using False bm_inv_len [OF assms(1)] by (intro nz_out) linarith
      ultimately show ?thesis by (simp add: w)
    qed
  qed (use upto assms(1) in \<open>simp_all add: and_upto_def bm_inv_def\<close>)
  show "bm_set ?r = bm_set b \<inter> bm_set other"
    by (auto simp: mem_bm_set w bit_and_iff)
qed

section \<open>Intersection test\<close>

lemma fold_min_less:
  "k < fold (\<lambda>bm n. if f bm < n then f bm else n) bms (n :: nat) \<longleftrightarrow> k < n \<and> (\<forall>bm \<in> set bms. k < f bm)"
  by (induction bms arbitrary: n) auto

lemma bit_fold_and: "bit (fold (\<lambda>bm c. c AND f bm) bms (c :: u64)) j \<longleftrightarrow> bit c j \<and> (\<forall>bm \<in> set bms. bit (f bm) j)"
  by (induction bms arbitrary: c) (auto simp: bit_and_iff)

lemma bit_nz: "bit (nz xs i) j \<longleftrightarrow> i < length xs \<and> bit (xs ! i) j"
  by (simp add: nz_def)

lemma bit_andWords: "bit (andWords w bms val) j \<longleftrightarrow> bit val j \<and> (\<forall>bm \<in> set bms. bit (words bm ! w) j)"
proof (induction w bms val rule: andWords.induct)
  case (2 w bm bms val)
  show ?case
  proof (cases "val AND words bm ! w = 0")
    case True
    then have "\<not> (bit val j \<and> bit (words bm ! w) j)" by (metis bit_and_iff bit_0_eq bot_apply bot_bool_def)
    with True show ?thesis by (auto simp: Let_def)
  next
    case False
    with "2.IH" show ?thesis by (auto simp: Let_def bit_and_iff)
  qed
qed simp

lemma MetaIntersects_iff:
  "MetaIntersects b0 bms \<longleftrightarrow> (\<exists>k j. \<forall>b \<in> insert b0 (set bms). bit (nz (meta b) k) j)"
proof -
  have "MetaIntersects b0 bms \<longleftrightarrow> (\<exists>k. (\<forall>b \<in> insert b0 (set bms). k < length (meta b)) \<and>
      fold (\<lambda>bm c. c AND meta bm ! k) bms (meta b0 ! k) \<noteq> 0)"
    by (auto simp: MetaIntersects_def Let_def list_ex_iff fold_min_less)
  also have "\<dots> \<longleftrightarrow> (\<exists>k j. \<forall>b \<in> insert b0 (set bms). k < length (meta b) \<and> bit (meta b ! k) j)"
    by (simp only: u64_nonzero_iff bit_fold_and) (auto dest: bit_u64_less)
  also have "\<dots> \<longleftrightarrow> (\<exists>k j. \<forall>b \<in> insert b0 (set bms). bit (nz (meta b) k) j)"
    by (simp only: bit_nz)
  finally show ?thesis .
qed

lemma intersectionNonEmpty_iff:
  assumes "\<forall>b \<in> insert b0 (set bms). bm_inv b"
  shows "intersectionNonEmpty b0 bms \<longleftrightarrow> (\<Inter>b \<in> insert b0 (set bms). bm_set b) \<noteq> {}"
proof -
  let ?B = "insert b0 (set bms)"
  let ?words = "\<exists>w j. \<forall>b \<in> ?B. bit (nz (words b) w) j"
  have "list_ex (\<lambda>w. andWords w bms (words b0 ! w) \<noteq> 0)
        [0..<fold (\<lambda>bm n. if Bitmap_WordsLen bm < n then Bitmap_WordsLen bm else n) bms (Bitmap_WordsLen b0)]
      \<longleftrightarrow> (\<exists>w. (\<forall>b \<in> ?B. w < length (words b)) \<and> andWords w bms (words b0 ! w) \<noteq> 0)"
    unfolding Bitmap_WordsLen_def by (auto simp: list_ex_iff fold_min_less)
  also have "\<dots> \<longleftrightarrow> (\<exists>w j. \<forall>b \<in> ?B. w < length (words b) \<and> bit (words b ! w) j)"
    by (simp only: u64_nonzero_iff bit_andWords) (auto dest: bit_u64_less)
  also have "\<dots> \<longleftrightarrow> ?words"
    by (simp only: bit_nz)
  finally have loop: "intersectionNonEmpty b0 bms \<longleftrightarrow> MetaIntersects b0 bms \<and> ?words"
    by (simp add: intersectionNonEmpty_def Let_def)
  have "MetaIntersects b0 bms" if w: ?words
  proof -
    from w obtain w j where bits: "\<forall>b \<in> ?B. bit (nz (words b) w) j" by blast
    have "bit (nz (meta b) (w div 64)) (w mod 64)" if "b \<in> ?B" for b
      using that assms bits unfolding bm_inv_def by fastforce
    then show ?thesis unfolding MetaIntersects_iff by blast
  qed
  with loop have "intersectionNonEmpty b0 bms \<longleftrightarrow> ?words" by blast
  also have "\<dots> \<longleftrightarrow> (\<Inter>b \<in> ?B. bm_bits b) \<noteq> {}"
  proof
    assume ?words
    then obtain w j where "\<forall>b \<in> ?B. bit (nz (words b) w) j" by blast
    moreover from this have "j < 64" using bit_u64_less by blast
    ultimately have "w * 64 + j \<in> (\<Inter>b \<in> ?B. bm_bits b)"
      by (simp add: bm_bits_def block_div)
    then show "(\<Inter>b \<in> ?B. bm_bits b) \<noteq> {}" by blast
  qed (auto simp: bm_bits_def)
  also have "\<dots> \<longleftrightarrow> (\<Inter>b \<in> ?B. bm_set b) \<noteq> {}"
  proof
    assume "(\<Inter>b \<in> ?B. bm_bits b) \<noteq> {}"
    then obtain n where n: "\<forall>b \<in> ?B. n \<in> bm_bits b" by blast
    then have "n < 2 ^ 32" using assms bm_bits_less by blast
    then have "(of_nat n :: u32) \<in> (\<Inter>b \<in> ?B. bm_set b)"
      using n by (simp add: bm_set_def unat_of_nat)
    then show "(\<Inter>b \<in> ?B. bm_set b) \<noteq> {}" by blast
  qed (auto simp: bm_set_def)
  finally show ?thesis .
qed

section \<open>Cardinality\<close>

lemma OnesCount64_card: "OnesCount64 w = card {j. bit w j}"
  unfolding OnesCount64_def by (metis distinct_bitlist distinct_card set_bitlist)

lemma fold_add_of_nat:
  "fold (\<lambda>x n. n + of_nat (f x)) xs (of_nat a) = (of_nat (a + sum_list (map f xs)) :: u64)"
  by (induction xs arbitrary: a) (simp_all flip: of_nat_add add: add.assoc)

lemma card_bm_bits:
  assumes "bm_inv b"
  shows "card (bm_bits b) = (\<Sum>mi < length (meta b). \<Sum>j \<in> {j. bit (meta b ! mi) j}. OnesCount64 (words b ! (mi * 64 + j)))"
proof -
  let ?I = "SIGMA mi : {..<length (meta b)}. {j. bit (meta b ! mi) j}"
  let ?F = "\<lambda>(mi, j). (\<lambda>k. (mi * 64 + j) * 64 + k) ` {k. bit (words b ! (mi * 64 + j)) k}"
  have fin: "finite {j. bit (w :: u64) j}" for w
    using finite_subset [of "{j. bit w j}" "{..<64}"] bit_u64_less by auto
  have range: "mi * 64 + j < length (words b)" if "mi < length (meta b)" "bit (meta b ! mi) j" for mi j
    using meta_bit_in_range [OF assms that] .
  have parts: "n div 64 = mi * 64 + j" "bit (words b ! (mi * 64 + j)) (n mod 64)" if "n \<in> ?F (mi, j)" for n mi j
  proof -
    from that obtain k where "n = (mi * 64 + j) * 64 + k" "bit (words b ! (mi * 64 + j)) k" by auto
    then show "n div 64 = mi * 64 + j" "bit (words b ! (mi * 64 + j)) (n mod 64)"
      using block_div [of k "mi * 64 + j"] bit_u64_less by (simp_all only:)
  qed
  have "bm_bits b = (\<Union>p \<in> ?I. ?F p)"
  proof (rule set_eqI)
    fix n :: nat
    let ?w = "n div 64"
    show "n \<in> bm_bits b \<longleftrightarrow> n \<in> (\<Union>p \<in> ?I. ?F p)"
    proof
      assume n: "n \<in> bm_bits b"
      then have "nz (words b) ?w \<noteq> 0" by (auto simp: bm_bits_def)
      then have w: "?w < length (words b)" and m: "bit (nz (meta b) (?w div 64)) (?w mod 64)"
        using nz_nonzero_len assms by (auto simp: bm_inv_def)
      then have "nz (meta b) (?w div 64) \<noteq> 0" by auto
      then have "?w div 64 < length (meta b)" by (rule nz_nonzero_len)
      then have "(?w div 64, ?w mod 64) \<in> ?I" using m by (simp add: nth_nz)
      moreover have "n \<in> ?F (?w div 64, ?w mod 64)"
        unfolding prod.case
      proof (rule image_eqI)
        show "n = (?w div 64 * 64 + ?w mod 64) * 64 + n mod 64" by simp
        show "n mod 64 \<in> {k. bit (words b ! (?w div 64 * 64 + ?w mod 64)) k}"
          using n w by (simp add: bm_bits_def nth_nz)
      qed
      ultimately show "n \<in> (\<Union>p \<in> ?I. ?F p)" by blast
    next
      assume "n \<in> (\<Union>p \<in> ?I. ?F p)"
      then obtain mi j where "mi < length (meta b)" "bit (meta b ! mi) j" and n: "n \<in> ?F (mi, j)" by blast
      then show "n \<in> bm_bits b"
        using range [of mi j] parts [OF n] by (simp add: bm_bits_def nz_def)
    qed
  qed
  moreover have "card (\<Union>p \<in> ?I. ?F p) = (\<Sum>p \<in> ?I. card (?F p))"
  proof (rule card_UN_disjoint)
    show "finite ?I" using fin by simp
    show "\<forall>p \<in> ?I. finite (?F p)" using fin by auto
    show "\<forall>p \<in> ?I. \<forall>q \<in> ?I. p \<noteq> q \<longrightarrow> ?F p \<inter> ?F q = {}"
    proof (intro ballI impI, rule ccontr)
      fix p q
      assume pq: "p \<in> ?I" "q \<in> ?I" "p \<noteq> q" and "?F p \<inter> ?F q \<noteq> {}"
      then obtain n where n: "n \<in> ?F p" "n \<in> ?F q" by blast
      obtain mi j mi' j' where eqs: "p = (mi, j)" "q = (mi', j')" by (cases p, cases q) blast
      have "n div 64 = mi * 64 + j" "n div 64 = mi' * 64 + j'"
        using n parts(1) [of n mi j] parts(1) [of n mi' j'] unfolding eqs by simp_all
      then have eq: "mi * 64 + j = mi' * 64 + j'" by simp
      have less: "j < 64" "j' < 64" using pq(1,2) bit_u64_less unfolding eqs by blast+
      have "mi = mi'" "j = j'"
        using block_div [OF less(1), of mi] block_div [OF less(2), of mi'] unfolding eq by simp_all
      with pq(3) eqs show False by simp
    qed
  qed
  moreover have "card (?F p) = OnesCount64 (words b ! (fst p * 64 + snd p))" for p
    by (simp add: split_def OnesCount64_card card_image inj_on_def)
  moreover have "(\<Sum>p \<in> ?I. f (fst p) (snd p)) =
      (\<Sum>mi < length (meta b). \<Sum>j \<in> {j. bit (meta b ! mi) j}. f mi j)" for f :: "nat \<Rightarrow> nat \<Rightarrow> nat"
    using sum.Sigma [of "{..<length (meta b)}" "\<lambda>mi. {j. bit (meta b ! mi) j}" f] fin
    by (simp only: split_def) simp
  ultimately show ?thesis
    by (simp only: split_def)
qed

lemma card_bm_set:
  assumes "bm_inv b"
  shows "card (bm_set b) = card (bm_bits b)"
proof -
  have "bm_bits b = unat ` bm_set b"
  proof -
    have "n \<in> unat ` bm_set b" if "n \<in> bm_bits b" for n
      using bm_bits_less [OF assms that] that
      by (intro image_eqI [of _ _ "of_nat n"]) (simp_all add: bm_set_def unat_of_nat)
    then show ?thesis by (auto simp: bm_set_def)
  qed
  moreover have "inj_on unat (bm_set b)" by (rule inj_onI) (simp only: word_unat_eq_iff)
  ultimately show ?thesis by (simp only: card_image)
qed

lemma GetCardinality_card [abs_simps]:
  assumes "bm_inv b"
  shows "Bitmap_GetCardinality b = of_nat (card (bm_set b))"
proof -
  let ?g = "\<lambda>mi. sum_list (map (\<lambda>j. OnesCount64 (words b ! (mi * 64 + j))) (bitlist (meta b ! mi)))"
  have "fold (\<lambda>mi n. forBits (\<lambda>j n. n + of_nat (OnesCount64 (words b ! (mi * 64 + j)))) (meta b ! mi) n) mis (of_nat a) =
      (of_nat (a + sum_list (map ?g mis)) :: u64)" for mis a
  proof (induction mis arbitrary: a)
    case (Cons mi mis)
    show ?case
      by (simp only: fold_simps forBits_fold fold_add_of_nat Cons.IH [unfolded forBits_fold] list.map sum_list.Cons add.assoc)
  qed (simp only: fold_simps list.map sum_list.Nil add_0_right)
  from this [of "[0..<length (meta b)]" 0]
  have "Bitmap_GetCardinality b = of_nat (sum_list (map ?g [0..<length (meta b)]))"
    by (simp only: Bitmap_GetCardinality_def semiring_1_class.of_nat_0 add_0)
  also have "sum_list (map ?g [0..<length (meta b)]) = card (bm_bits b)"
  proof -
    have "sum_list (map ?g [0..<length (meta b)]) = (\<Sum>mi < length (meta b). ?g mi)"
      using sum_list_distinct_conv_sum_set [of "[0..<length (meta b)]" ?g] by (simp add: atLeast0LessThan)
    also have "\<dots> = card (bm_bits b)"
      unfolding card_bm_bits [OF assms]
      by (rule sum.cong [OF refl])
        (use sum_list_distinct_conv_sum_set [OF distinct_bitlist] in \<open>simp only: set_bitlist\<close>)
    finally show ?thesis .
  qed
  finally show ?thesis by (simp only: card_bm_set [OF assms])
qed

end
