(* ===== verification/BitmapIter.thy ===== *)
theory BitmapIter
  imports BitmapOps
begin

unbundle bit_operations_syntax

text \<open>
  The iterator of \<^verbatim>\<open>bitmap.go\<close> visits the members of the bitmap in ascending order, the pooled
  operations of \<^verbatim>\<open>bitmap_pool.go\<close> do not depend on what the recycled bitmap held before, and the
  binary encoding of \<^verbatim>\<open>bitmap.go\<close> can be decoded again.
\<close>

section \<open>The iterator visits the set bits in order\<close>

text \<open>The positions still to be visited: in the current word, in the words of the current meta word,
  and in the later meta words.\<close>

definition wordBits :: "Bitmap \<Rightarrow> nat \<Rightarrow> nat list" where
  "wordBits bm i = map ((+) (i * 64)) (bitlist (words bm ! i))"

definition metaBits :: "Bitmap \<Rightarrow> nat \<Rightarrow> u64 \<Rightarrow> nat list" where
  "metaBits bm mi m = concat (map (wordBits bm) (map ((+) (mi * 64)) (bitlist m)))"

definition metasFrom :: "Bitmap \<Rightarrow> nat \<Rightarrow> nat list" where
  "metasFrom bm k = concat (map (\<lambda>mi. metaBits bm mi (meta bm ! mi)) [k..<length (meta bm)])"

definition pendingBits :: "Bitmap \<Rightarrow> BitmapIterator \<Rightarrow> nat list" where
  "pendingBits bm it = metaBits bm (metaIdx it) (metaW it) @ metasFrom bm (Suc (metaIdx it))"

definition remainingBits :: "Bitmap \<Rightarrow> BitmapIterator \<Rightarrow> nat list" where
  "remainingBits bm it = map ((+) (wordIdx it * 64)) (bitlist (word it)) @ pendingBits bm it"

lemma metaBits_0 [simp]: "metaBits bm mi 0 = []"
  by (simp add: metaBits_def)

lemma metaBits_rec:
  "m \<noteq> 0 \<Longrightarrow> metaBits bm mi m =
     wordBits bm (mi * 64 + TrailingZeros64 m) @ metaBits bm mi (clearBit m (TrailingZeros64 m))"
  by (simp add: metaBits_def bitlist_rec)

lemma metasFrom_rec:
  "k < length (meta bm) \<Longrightarrow> metasFrom bm k = metaBits bm k (meta bm ! k) @ metasFrom bm (Suc k)"
  by (simp add: metasFrom_def upt_conv_Cons)

lemma metasFrom_end [simp]: "length (meta bm) \<le> k \<Longrightarrow> metasFrom bm k = []"
  by (simp add: metasFrom_def)

lemma nextWord_remaining:
  "remainingBits bm (nextWord bm it) = pendingBits bm it \<and>
   (word (nextWord bm it) = 0 \<longrightarrow> pendingBits bm it = [])"
proof (induction bm it rule: nextWord.induct)
  case (1 bm it)
  show ?case
  proof (cases "metaW it = 0")
    case True
    show ?thesis
    proof (cases "length (meta bm) \<le> metaIdx it + 1")
      case fin: True
      with True have "nextWord bm it = it\<lparr>metaIdx := metaIdx it + 1, word := 0\<rparr>"
        by (simp add: nextWord.simps [of bm it] Let_def)
      with True fin show ?thesis by (simp add: remainingBits_def pendingBits_def)
    next
      case False
      let ?it = "it\<lparr>metaIdx := metaIdx it + 1, metaW := meta bm ! (metaIdx it + 1)\<rparr>"
      have "nextWord bm it = nextWord bm ?it"
        using True False by (simp add: nextWord.simps [of bm it] Let_def)
      moreover have "pendingBits bm it = pendingBits bm ?it"
        using True False by (simp add: pendingBits_def metasFrom_rec)
      moreover have "remainingBits bm (nextWord bm ?it) = pendingBits bm ?it \<and>
          (word (nextWord bm ?it) = 0 \<longrightarrow> pendingBits bm ?it = [])"
        using "1.IH"(2) True False by simp
      ultimately show ?thesis by simp
    qed
  next
    case False
    let ?j = "TrailingZeros64 (metaW it)"
    let ?w = "words bm ! (metaIdx it * 64 + ?j)"
    let ?it = "it\<lparr>metaW := clearBit (metaW it) ?j, wordIdx := metaIdx it * 64 + ?j, word := ?w\<rparr>"
    have pending: "pendingBits bm it = map ((+) ((metaIdx it * 64 + ?j) * 64)) (bitlist ?w) @ pendingBits bm ?it"
      using False by (simp add: pendingBits_def metaBits_rec wordBits_def)
    show ?thesis
    proof (cases "?w = 0")
      case True
      have "nextWord bm it = nextWord bm ?it"
        using True False by (simp add: nextWord.simps [of bm it] Let_def)
      moreover have "remainingBits bm (nextWord bm ?it) = pendingBits bm ?it \<and>
          (word (nextWord bm ?it) = 0 \<longrightarrow> pendingBits bm ?it = [])"
        using "1.IH"(1) [OF False refl refl] True by simp
      ultimately show ?thesis using True pending by simp
    next
      case word: False
      then have "nextWord bm it = ?it"
        using False by (simp add: nextWord.simps [of bm it] Let_def)
      with word pending show ?thesis by (simp add: remainingBits_def)
    qed
  qed
qed

lemma advance_remaining:
  "remainingBits bm (advance bm it) = metasFrom bm (metaIdx it) \<and>
   (word (advance bm it) = 0 \<longrightarrow> metasFrom bm (metaIdx it) = [])" if "metaW it = 0"
  using that
proof (induction bm it rule: advance.induct)
  case (1 bm it)
  consider (fin) "length (meta bm) \<le> metaIdx it"
    | (zero) "metaIdx it < length (meta bm)" "meta bm ! metaIdx it = 0"
    | (some) "metaIdx it < length (meta bm)" "meta bm ! metaIdx it \<noteq> 0" by linarith
  then show ?case
  proof cases
    case fin
    then show ?thesis
      using "1.prems" by (simp add: advance.simps [of bm it] remainingBits_def pendingBits_def)
  next
    case zero
    then show ?thesis
      using "1.IH" "1.prems" by (simp add: advance.simps [of bm it] metasFrom_rec)
  next
    case some
    then show ?thesis
      using nextWord_remaining [of bm "it\<lparr>metaW := meta bm ! metaIdx it\<rparr>"]
      by (simp add: advance.simps [of bm it] pendingBits_def metasFrom_rec)
  qed
qed

lemma collect_remaining:
  "(word it = 0 \<longrightarrow> remainingBits bm it = []) \<Longrightarrow> collect bm it = map of_nat (remainingBits bm it)"
proof (induction bm it rule: collect.induct)
  case (1 bm it)
  show ?case
  proof (cases "word it = 0")
    case True
    with "1.prems" show ?thesis by (simp add: collect.simps [of bm it] HasNext_def)
  next
    case False
    let ?j = "TrailingZeros64 (word it)"
    let ?it = "it\<lparr>word := clearBit (word it) ?j\<rparr>"
    have rem: "remainingBits bm it = (wordIdx it * 64 + ?j) # remainingBits bm ?it"
      using False by (simp add: remainingBits_def pendingBits_def bitlist_rec [of "word it"])
    have "remainingBits bm (snd (Next bm it)) = remainingBits bm ?it \<and>
        (word (snd (Next bm it)) = 0 \<longrightarrow> remainingBits bm ?it = [])"
    proof (cases "word ?it = 0")
      case True
      then show ?thesis
        using nextWord_remaining [of bm ?it] by (simp add: Next_def Let_def remainingBits_def)
    qed (simp add: Next_def Let_def)
    with "1.IH" False rem show ?thesis
      by (simp add: collect.simps [of bm it] HasNext_def Next_def Let_def)
  qed
qed

lemma Bitmap_ids_metas: "Bitmap_ids bm = map of_nat (metasFrom bm 0)"
  unfolding Bitmap_ids_def Bitmap_Iterator_def
  using advance_remaining [of "\<lparr>metaIdx = 0, metaW = 0, word = 0, wordIdx = 0\<rparr>" bm]
    collect_remaining [of "advance bm \<lparr>metaIdx = 0, metaW = 0, word = 0, wordIdx = 0\<rparr>" bm]
  by simp

lemma sorted_blocks:
  fixes c :: nat
  assumes "sorted_wrt (<) xs" and "\<And>x. x \<in> set xs \<Longrightarrow> sorted_wrt (<) (f x)"
    and "\<And>x n. x \<in> set xs \<Longrightarrow> n \<in> set (f x) \<Longrightarrow> n div c = x"
  shows "sorted_wrt (<) (concat (map f xs))"
  using assms
proof (induction xs)
  case (Cons x xs)
  have "n < n'" if "n \<in> set (f x)" "x' \<in> set xs" "n' \<in> set (f x')" for n n' x'
  proof -
    have "n div c = x" "n' div c = x'" "x < x'" using Cons.prems that by auto
    then show ?thesis by (metis div_le_mono not_le)
  qed
  moreover have "sorted_wrt (<) (concat (map f xs))" using Cons by auto
  ultimately show ?case using Cons.prems by (auto simp: sorted_wrt_append)
qed simp

lemma sorted_map_plus: "sorted_wrt (<) js \<Longrightarrow> sorted_wrt (<) (map ((+) (k :: nat)) js)"
  by (simp add: sorted_wrt_map)

lemma mem_wordBits: "n \<in> set (wordBits bm i) \<longleftrightarrow> n div 64 = i \<and> bit (words bm ! i) (n mod 64)"
  unfolding wordBits_def by (rule mem_block)

lemma mem_metaBits:
  "n \<in> set (metaBits bm mi m) \<longleftrightarrow>
   n div 64 div 64 = mi \<and> bit m (n div 64 mod 64) \<and> bit (words bm ! (n div 64)) (n mod 64)"
  unfolding metaBits_def set_concat set_map [of "wordBits bm"] Union_iff image_iff bex_simps
  using mem_block [of _ mi m] by (auto simp: mem_wordBits simp del: set_map)

lemma sorted_metasFrom: "sorted_wrt (<) (metasFrom bm k)"
  unfolding metasFrom_def
proof (rule sorted_blocks [where c = "64 * 64"])
  fix mi
  show "sorted_wrt (<) (metaBits bm mi (meta bm ! mi))"
    unfolding metaBits_def
  proof (rule sorted_blocks [where c = 64])
    show "sorted_wrt (<) (wordBits bm i)" for i
      by (simp add: wordBits_def sorted_bitlist sorted_map_plus)
  qed (simp_all add: mem_wordBits sorted_bitlist sorted_map_plus)
  show "n div (64 * 64) = mi" if "n \<in> set (metaBits bm mi (meta bm ! mi))" for n
    using that by (simp only: mem_metaBits div_mult2_eq)
qed simp

lemma set_metasFrom:
  assumes "bm_inv bm"
  shows "set (metasFrom bm 0) = bm_bits bm"
proof (rule set_eqI)
  fix n
  have inv: "bit (nz (meta bm) (n div 64 div 64)) (n div 64 mod 64) \<longleftrightarrow> nz (words bm) (n div 64) \<noteq> 0"
    using assms by (simp add: bm_inv_def)
  have "n \<in> set (metasFrom bm 0) \<longleftrightarrow> bit (nz (meta bm) (n div 64 div 64)) (n div 64 mod 64) \<and>
      bit (words bm ! (n div 64)) (n mod 64)"
    by (auto simp: metasFrom_def mem_metaBits bit_nz)
  also have "\<dots> \<longleftrightarrow> bit (nz (words bm) (n div 64)) (n mod 64)"
    unfolding inv by (auto simp: nz_def)
  finally show "n \<in> set (metasFrom bm 0) \<longleftrightarrow> n \<in> bm_bits bm" by (simp add: bm_bits_def)
qed

lemma Bitmap_ids_facts:
  assumes "bm_inv b"
  shows set_Bitmap_ids [abs_simps]: "set (Bitmap_ids b) = bm_set b"
    and sorted_Bitmap_ids: "sorted_wrt (<) (Bitmap_ids b)"
proof -
  let ?ns = "metasFrom b 0"
  have less: "n < 2 ^ 32" if "n \<in> set ?ns" for n
    using bm_bits_less [OF assms] that set_metasFrom [OF assms] by blast
  have unat: "unat (of_nat n :: u32) = n" if "n \<in> set ?ns" for n
    using less [OF that] by (simp add: unat_of_nat)
  show "sorted_wrt (<) (Bitmap_ids b)"
    unfolding Bitmap_ids_metas sorted_wrt_map
    by (rule sorted_wrt_mono_rel [OF _ sorted_metasFrom]) (simp add: word_less_nat_alt unat)
  have "x \<in> set (Bitmap_ids b) \<longleftrightarrow> unat x \<in> set ?ns" for x
    unfolding Bitmap_ids_metas using unat by (auto simp: image_iff intro: bexI [of _ "unat x"])
  then show "set (Bitmap_ids b) = bm_set b"
    by (auto simp: bm_set_def set_metasFrom [OF assms])
qed

text \<open>Hence the visited list is a function of the set alone.\<close>

lemma Bitmap_ids_eq:
  assumes "bm_inv b"
  shows "Bitmap_ids b = sorted_list_of_set (bm_set b)"
proof (rule sorted_distinct_set_unique)
  show "sorted (Bitmap_ids b)" "distinct (Bitmap_ids b)"
    using sorted_Bitmap_ids [OF assms] by (auto simp: strict_sorted_iff)
qed (simp_all add: set_Bitmap_ids [OF assms])

section \<open>The pool and the arena\<close>

text \<open>
  \<^verbatim>\<open>sync.Pool\<close> hands out some bitmap that was put back, or a new one: \<open>choice\<close> says which.
  \<^verbatim>\<open>arena.get()\<close> is made explicit: the combining functions take the bitmap they got.
\<close>

definition poolNew :: Bitmap where
  "poolNew = \<lparr>words = [], wordsSpare = replicate 4 0, meta = [], metaSpare = replicate 1 0\<rparr>"

definition arena_get :: "nat option \<Rightarrow> Bitmap list \<Rightarrow> Bitmap \<times> Bitmap list" where
  "arena_get choice pool =
     (case choice of
        None \<Rightarrow> (poolNew, pool)
      | Some i \<Rightarrow> if i < length pool then (pool ! i, take i pool @ drop (Suc i) pool) else (poolNew, pool))"

definition arena_release :: "Bitmap list \<Rightarrow> Bitmap list \<Rightarrow> Bitmap list" where
  "arena_release used pool = fold (\<lambda>bm pool. pool @ [Bitmap_Clear bm]) used pool"

definition orMaxIdx :: "Bitmap list \<Rightarrow> nat" where
  "orMaxIdx parts =
     fold (\<lambda>i maxIdx. if Bitmap_WordsLen (parts ! maxIdx) < Bitmap_WordsLen (parts ! i) then i else maxIdx)
       [1..<length parts] 0"

definition orInto :: "Bitmap \<Rightarrow> Bitmap list \<Rightarrow> Bitmap" where
  "orInto bm parts =
     (let maxIdx = orMaxIdx parts; bm = Bitmap_Or bm (parts ! maxIdx)
      in fold (\<lambda>i bm. if i \<noteq> maxIdx then Bitmap_Or bm (parts ! i) else bm) [0..<length parts] bm)"

definition and2 :: "Bitmap \<Rightarrow> Bitmap \<Rightarrow> Bitmap \<Rightarrow> Bitmap" where
  "and2 bm x y =
     (if Bitmap_WordsLen x \<le> Bitmap_WordsLen y then Bitmap_And (Bitmap_Or bm x) y
      else Bitmap_And (Bitmap_Or bm y) x)"

definition andMinIdx :: "Bitmap list \<Rightarrow> nat" where
  "andMinIdx bitmaps =
     fold (\<lambda>i minIdx. if Bitmap_WordsLen (bitmaps ! i) < Bitmap_WordsLen (bitmaps ! minIdx) then i else minIdx)
       [1..<length bitmaps] 0"

definition andInto :: "Bitmap \<Rightarrow> Bitmap list \<Rightarrow> Bitmap" where
  "andInto bm bitmaps =
     (let minIdx = andMinIdx bitmaps; bm = Bitmap_Or bm (bitmaps ! minIdx)
      in fold (\<lambda>i bm. if i \<noteq> minIdx then Bitmap_And bm (bitmaps ! i) else bm) [0..<length bitmaps] bm)"

text \<open>A pooled bitmap: nothing visible, and zeros in the spare capacity.\<close>

definition poolReady :: "Bitmap \<Rightarrow> bool" where
  "poolReady b \<longleftrightarrow> bm_inv b \<and> words b = []"

lemma poolReady_inv: "poolReady b \<Longrightarrow> bm_inv b"
  and poolReady_set: "poolReady b \<Longrightarrow> bm_set b = {}"
  by (simp_all add: poolReady_def bm_set_def bm_bits_def)

lemma poolReady_New: "poolReady poolNew"
  unfolding poolReady_def by (intro conjI bm_invI) (simp_all add: poolNew_def)

lemma poolReady_Clear: "bm_inv b \<Longrightarrow> poolReady (Bitmap_Clear b)"
  using bm_inv_Clear [of b] by (simp add: poolReady_def Bitmap_Clear_def)

lemma poolReady_NewBitmap: "poolReady NewBitmap"
  by (simp add: poolReady_def) (simp add: NewBitmap_def)

lemma arena_get_ready:
  assumes "list_all poolReady pool" and "arena_get choice pool = (bm, pool')"
  shows "poolReady bm \<and> list_all poolReady pool'"
  using assms poolReady_New
  by (fastforce simp: arena_get_def list_all_iff split: option.splits if_splits dest: in_set_takeD in_set_dropD)

lemma arena_release_eq: "arena_release used pool = pool @ map Bitmap_Clear used"
  unfolding arena_release_def by (induction used arbitrary: pool) auto

lemma arena_release_ready:
  "list_all poolReady pool \<Longrightarrow> list_all bm_inv used \<Longrightarrow> list_all poolReady (arena_release used pool)"
  by (auto simp: arena_release_eq list_all_iff poolReady_Clear)

lemma fold_idx_less:
  assumes "k < n" and "\<And>i k. i \<in> set is \<Longrightarrow> f i k = i \<or> f i k = k" and "\<forall>i \<in> set is. i < n"
  shows "fold f is k < (n :: nat)"
  using assms
proof (induction "is" arbitrary: k)
  case (Cons i js)
  then have "f i k < n" by (metis list.set_intros(1))
  with Cons show ?case by simp
qed simp

lemma orMaxIdx_less: "parts \<noteq> [] \<Longrightarrow> orMaxIdx parts < length parts"
  unfolding orMaxIdx_def by (rule fold_idx_less) auto

lemma andMinIdx_less: "bitmaps \<noteq> [] \<Longrightarrow> andMinIdx bitmaps < length bitmaps"
  unfolding andMinIdx_def by (rule fold_idx_less) auto

lemma set_nth_image: "set xs = (!) xs ` {..<length xs}"
  by (auto simp: set_conv_nth)

text \<open>
  \<^verbatim>\<open>orInto\<close> and \<^verbatim>\<open>andInto\<close> are the same loop: start from the part with index \<open>m\<close>, then combine
  every other part in place.  \<open>conn\<close> is what the combination means for membership and \<open>Q\<close> the
  quantifier over the parts it amounts to.
\<close>

locale combine_parts =
  fixes combine :: "'b \<Rightarrow> 'b \<Rightarrow> 'b"
    and inv :: "'b \<Rightarrow> bool"
    and elems :: "'b \<Rightarrow> 'a set"
    and conn :: "bool \<Rightarrow> bool \<Rightarrow> bool"
    and Q :: "nat set \<Rightarrow> (nat \<Rightarrow> bool) \<Rightarrow> bool"
  assumes combine_inv: "inv a \<Longrightarrow> inv b \<Longrightarrow> inv (combine a b)"
    and combine_elems: "inv a \<Longrightarrow> inv b \<Longrightarrow> x \<in> elems (combine a b) \<longleftrightarrow> conn (x \<in> elems a) (x \<in> elems b)"
    and Q_single: "Q {i} P \<longleftrightarrow> P i"
    and Q_insert: "S \<noteq> {} \<Longrightarrow> Q (insert i S) P \<longleftrightarrow> conn (Q S P) (P i)"
begin

lemma combine_upto:
  assumes "inv b" and "elems b = elems (parts ! m)" and "list_all inv parts" and "k \<le> length parts"
  shows "inv (fold (\<lambda>i bm. if i \<noteq> m then combine bm (parts ! i) else bm) [0..<k] b) \<and>
    (\<forall>x. x \<in> elems (fold (\<lambda>i bm. if i \<noteq> m then combine bm (parts ! i) else bm) [0..<k] b) \<longleftrightarrow>
      Q (insert m {..<k}) (\<lambda>i. x \<in> elems (parts ! i)))"
  using assms(4)
proof (induction k)
  case 0
  then show ?case using assms(1,2) by (simp add: Q_single)
next
  case (Suc k)
  have "insert m {..<Suc k} = insert k (insert m {..<k})" by auto
  then have Q: "Q (insert m {..<Suc k}) P \<longleftrightarrow> conn (Q (insert m {..<k}) P) (P k)" for P
    using Q_insert [of "insert m {..<k}" k P] by simp
  have "inv (parts ! k)" using assms(3) Suc.prems by (simp add: list_all_length)
  with Suc show ?case
    by (cases "k = m") (simp add: lessThan_Suc, simp add: Q combine_inv combine_elems)
qed

lemma combine_all:
  assumes "inv b" and "elems b = elems (parts ! m)" and "list_all inv parts" and "m < length parts"
  shows "inv (fold (\<lambda>i bm. if i \<noteq> m then combine bm (parts ! i) else bm) [0..<length parts] b)"
    and "x \<in> elems (fold (\<lambda>i bm. if i \<noteq> m then combine bm (parts ! i) else bm) [0..<length parts] b) \<longleftrightarrow>
      Q {..<length parts} (\<lambda>i. x \<in> elems (parts ! i))"
proof -
  have "insert m {..<length parts} = {..<length parts}" using assms(4) by auto
  then show "inv (fold (\<lambda>i bm. if i \<noteq> m then combine bm (parts ! i) else bm) [0..<length parts] b)"
    and "x \<in> elems (fold (\<lambda>i bm. if i \<noteq> m then combine bm (parts ! i) else bm) [0..<length parts] b) \<longleftrightarrow>
      Q {..<length parts} (\<lambda>i. x \<in> elems (parts ! i))"
    using combine_upto [OF assms(1-3) order_refl] by simp_all
qed

end

interpretation or_parts: combine_parts Bitmap_Or bm_inv bm_set "(\<or>)" Bex
  by unfold_locales (auto simp: bm_inv_Or bm_set_Or)

interpretation and_parts: combine_parts Bitmap_And bm_inv bm_set "(\<and>)" Ball
  by unfold_locales (auto simp: bm_inv_And bm_set_And)

lemma pooled_copy:
  assumes "poolReady bm" and "bm_inv p"
  shows "bm_inv (Bitmap_Or bm p)" and "bm_set (Bitmap_Or bm p) = bm_set p"
  using poolReady_inv [OF assms(1)] poolReady_set [OF assms(1)] assms(2) by (simp_all add: bm_inv_Or bm_set_Or)

lemma orInto_facts:
  assumes "poolReady bm" and "parts \<noteq> []" and "list_all bm_inv parts"
  shows bm_inv_orInto: "bm_inv (orInto bm parts)"
    and bm_set_orInto: "bm_set (orInto bm parts) = (\<Union>b \<in> set parts. bm_set b)"
proof -
  have m: "orMaxIdx parts < length parts" using assms(2) by (rule orMaxIdx_less)
  then have "bm_inv (parts ! orMaxIdx parts)" using assms(3) by (simp add: list_all_length)
  note all = or_parts.combine_all [OF pooled_copy [OF assms(1) this] assms(3) m]
  show "bm_inv (orInto bm parts)" using all(1) by (simp add: orInto_def Let_def)
  show "bm_set (orInto bm parts) = (\<Union>b \<in> set parts. bm_set b)"
    unfolding set_nth_image using all(2) by (auto simp: orInto_def Let_def)
qed

lemma andInto_facts:
  assumes "poolReady bm" and "bitmaps \<noteq> []" and "list_all bm_inv bitmaps"
  shows bm_inv_andInto: "bm_inv (andInto bm bitmaps)"
    and bm_set_andInto: "bm_set (andInto bm bitmaps) = (\<Inter>b \<in> set bitmaps. bm_set b)"
proof -
  have m: "andMinIdx bitmaps < length bitmaps" using assms(2) by (rule andMinIdx_less)
  then have "bm_inv (bitmaps ! andMinIdx bitmaps)" using assms(3) by (simp add: list_all_length)
  note all = and_parts.combine_all [OF pooled_copy [OF assms(1) this] assms(3) m]
  show "bm_inv (andInto bm bitmaps)" using all(1) by (simp add: andInto_def Let_def)
  show "bm_set (andInto bm bitmaps) = (\<Inter>b \<in> set bitmaps. bm_set b)"
    unfolding set_nth_image using all(2) by (auto simp: andInto_def Let_def)
qed

lemma and2_facts:
  assumes "poolReady bm" and "bm_inv x" and "bm_inv y"
  shows bm_inv_and2: "bm_inv (and2 bm x y)" and bm_set_and2: "bm_set (and2 bm x y) = bm_set x \<inter> bm_set y"
  using poolReady_inv [OF assms(1)] poolReady_set [OF assms(1)] assms(2,3)
  by (simp_all add: and2_def bm_inv_And bm_inv_Or bm_set_And bm_set_Or Int_commute)

text \<open>The visible part of the result does not depend on the recycled bitmap.\<close>

lemma visible_eqI:
  assumes "bm_inv a" and "bm_inv b" and "length (words a) = length (words b)"
    and "\<And>i. nz (words a) i = nz (words b) i"
  shows "words a = words b \<and> meta a = meta b"
proof
  show words: "words a = words b"
    using assms(3,4) by (intro nth_equalityI) (auto simp: nth_nz)
  have len: "length (meta a) = length (meta b)"
    using assms(3) by (simp add: bm_inv_meta_len [OF assms(1)] bm_inv_meta_len [OF assms(2)])
  have "nz (meta a) k = nz (meta b) k" for k
    by (rule bit_eqI) (simp add: bm_inv_meta_bit [OF assms(1)] bm_inv_meta_bit [OF assms(2)] words)
  then show "meta a = meta b"
    using len by (intro nth_equalityI) (auto simp: nth_nz)
qed

definition sameBits :: "Bitmap \<Rightarrow> Bitmap \<Rightarrow> bool" where
  "sameBits a b \<longleftrightarrow>
     bm_inv a \<and> bm_inv b \<and> length (words a) = length (words b) \<and> (\<forall>i. nz (words a) i = nz (words b) i)"

lemma sameBits_Or: "sameBits a b \<Longrightarrow> bm_inv p \<Longrightarrow> sameBits (Bitmap_Or a p) (Bitmap_Or b p)"
  by (simp add: sameBits_def bm_inv_Or Or_words Or_length)

lemma sameBits_ready: "poolReady a \<Longrightarrow> poolReady b \<Longrightarrow> sameBits a b"
  by (simp add: sameBits_def poolReady_def)

lemma orInto_visible:
  assumes "poolReady bm" and "poolReady bm'" and "parts \<noteq> []" and "list_all bm_inv parts"
  shows "words (orInto bm parts) = words (orInto bm' parts) \<and> meta (orInto bm parts) = meta (orInto bm' parts)"
proof -
  let ?m = "orMaxIdx parts"
  let ?f = "\<lambda>i bm. if i \<noteq> ?m then Bitmap_Or bm (parts ! i) else bm"
  have part: "bm_inv (parts ! i)" if "i < length parts" for i
    using assms(4) that by (simp add: list_all_length)
  have "sameBits (fold ?f is (Bitmap_Or bm (parts ! ?m))) (fold ?f is (Bitmap_Or bm' (parts ! ?m)))"
    if "\<forall>i \<in> set is. i < length parts" for "is"
    using that
  proof (induction "is" rule: rev_induct)
    case Nil
    show ?case
      using sameBits_Or [OF sameBits_ready [OF assms(1,2)] part [OF orMaxIdx_less [OF assms(3)]]] by simp
  next
    case (snoc i js)
    then show ?case using sameBits_Or part by simp
  qed
  from this [of "[0..<length parts]"] show ?thesis
    unfolding sameBits_def by (intro visible_eqI) (simp_all add: orInto_def Let_def)
qed

lemma and2_visible:
  assumes "poolReady bm" and "poolReady bm'" and "bm_inv x" and "bm_inv y"
  shows "words (and2 bm x y) = words (and2 bm' x y) \<and> meta (and2 bm x y) = meta (and2 bm' x y)"
proof -
  have eq: "words (Bitmap_And (Bitmap_Or bm p) q) = words (Bitmap_And (Bitmap_Or bm' p) q) \<and>
      meta (Bitmap_And (Bitmap_Or bm p) q) = meta (Bitmap_And (Bitmap_Or bm' p) q)"
    if "bm_inv p" "bm_inv q" for p q
    using assms(1,2) that
    by (intro visible_eqI)
      (simp_all add: poolReady_def bm_inv_And bm_inv_Or And_words Or_words And_length Or_length)
  show ?thesis using eq [OF assms(3,4)] eq [OF assms(4,3)] by (simp add: and2_def)
qed

section \<open>Binary encoding\<close>

text \<open>
  \<^verbatim>\<open>encoding/binary\<close>'s little-endian words.  \<^verbatim>\<open>MarshalBinary\<close> writes its fields one after the
  other into a buffer of exactly their total size.
\<close>

definition PutUint32 :: "u32 \<Rightarrow> u8 list" where
  "PutUint32 w = map (\<lambda>k. ucast (drop_bit (8 * k) w)) [0..<4]"

definition PutUint64 :: "u64 \<Rightarrow> u8 list" where
  "PutUint64 w = map (\<lambda>k. ucast (drop_bit (8 * k) w)) [0..<8]"

definition GetUint32 :: "u8 list \<Rightarrow> u32" where
  "GetUint32 buf = fold (\<lambda>k w. w OR push_bit (8 * k) (ucast (buf ! k))) [0..<4] 0"

definition GetUint64 :: "u8 list \<Rightarrow> u64" where
  "GetUint64 buf = fold (\<lambda>k w. w OR push_bit (8 * k) (ucast (buf ! k))) [0..<8] 0"

definition Bitmap_MarshalBinary :: "Bitmap \<Rightarrow> u8 list" where
  "Bitmap_MarshalBinary b =
     PutUint32 (of_nat (length (words b))) @ concat (map PutUint64 (words b)) @ concat (map PutUint64 (meta b))"

datatype bitmap_error = BufferTooShort nat | BufferSize nat nat

definition Bitmap_UnmarshalBinary :: "u8 list \<Rightarrow> bitmap_error + Bitmap \<times> nat" where
  "Bitmap_UnmarshalBinary buf =
     (if length buf < 4 then Inl (BufferTooShort (length buf))
      else let wLen = unat (GetUint32 buf);
               mLen = (wLen + 63) div 64;
               expected = 4 + wLen * 8 + mLen * 8
        in if length buf < expected then Inl (BufferSize (length buf) expected)
           else Inr (\<lparr>words = map (\<lambda>i. GetUint64 (drop (4 + i * 8) buf)) [0..<wLen], wordsSpare = [],
                      meta = map (\<lambda>i. GetUint64 (drop (4 + wLen * 8 + i * 8) buf)) [0..<mLen], metaSpare = []\<rparr>,
                     expected))"

lemma bit_fold_or: "bit (fold (\<lambda>k w. w OR f k) ks (w0 :: 'a :: len word)) n \<longleftrightarrow> bit w0 n \<or> (\<exists>k \<in> set ks. bit (f k) n)"
  by (induction ks arbitrary: w0) (auto simp: bit_or_iff)

lemma le_bytes_roundtrip:
  fixes w :: "'a :: len word"
  assumes "LENGTH('a) = 8 * n"
  shows "fold (\<lambda>k v. v OR push_bit (8 * k) (ucast ((map (\<lambda>k. ucast (drop_bit (8 * k) w) :: u8) [0..<n] @ rest) ! k)))
    [0..<n] 0 = w"
proof (rule bit_word_eqI)
  fix j
  assume j: "j < LENGTH('a)"
  let ?byte = "\<lambda>k. ucast ((map (\<lambda>k. ucast (drop_bit (8 * k) w) :: u8) [0..<n] @ rest) ! k) :: 'a word"
  have byte: "bit (push_bit (8 * k) (?byte k)) j \<longleftrightarrow> 8 * k \<le> j \<and> j - 8 * k < 8 \<and> bit w j" if "k < n" for k
    using that j by (auto simp: nth_append bit_push_bit_iff bit_ucast_iff bit_drop_bit_eq)
  have "j div 8 < n" "8 * (j div 8) \<le> j" "j - 8 * (j div 8) < 8" using j assms by linarith+
  then have "(\<exists>k < n. 8 * k \<le> j \<and> j - 8 * k < 8 \<and> bit w j) \<longleftrightarrow> bit w j" by blast
  moreover have "bit (fold (\<lambda>k v. v OR push_bit (8 * k) (?byte k)) [0..<n] 0) j \<longleftrightarrow>
      (\<exists>k < n. bit (push_bit (8 * k) (?byte k)) j)"
    by (simp only: bit_fold_or) auto
  ultimately show "bit (fold (\<lambda>k v. v OR push_bit (8 * k) (?byte k)) [0..<n] 0) j \<longleftrightarrow> bit w j"
    using byte by blast
qed

lemma GetUint32_Put: "GetUint32 (PutUint32 w @ rest) = w"
  unfolding GetUint32_def PutUint32_def by (rule le_bytes_roundtrip) simp

lemma GetUint64_Put: "GetUint64 (PutUint64 w @ rest) = w"
  unfolding GetUint64_def PutUint64_def by (rule le_bytes_roundtrip) simp

lemma length_Put [simp]: "length (PutUint32 w) = 4" "length (PutUint64 v) = 8"
  by (simp_all add: PutUint32_def PutUint64_def)

lemma length_concat_Put [simp]: "length (concat (map PutUint64 ws)) = length ws * 8"
  by (induction ws) auto

lemma words_roundtrip:
  "map (\<lambda>i. GetUint64 (drop (i * 8) (concat (map PutUint64 ws) @ rest))) [0..<length ws] = ws"
proof (rule nth_equalityI)
  fix i
  assume "i < length (map (\<lambda>i. GetUint64 (drop (i * 8) (concat (map PutUint64 ws) @ rest))) [0..<length ws])"
  then have i: "i < length ws" by simp
  have "ws = take i ws @ ws ! i # drop (Suc i) ws" using i by (rule id_take_nth_drop)
  then have "concat (map PutUint64 ws) =
      concat (map PutUint64 (take i ws)) @ PutUint64 (ws ! i) @ concat (map PutUint64 (drop (Suc i) ws))"
    by (metis concat.simps(2) concat_append list.simps(9) map_append)
  moreover have "length (concat (map PutUint64 (take i ws))) = i * 8" using i by simp
  ultimately show "map (\<lambda>i. GetUint64 (drop (i * 8) (concat (map PutUint64 ws) @ rest))) [0..<length ws] ! i = ws ! i"
    using i by (simp add: GetUint64_Put)
qed simp

lemma Marshal_roundtrip:
  assumes "bm_inv b"
  shows "Bitmap_UnmarshalBinary (Bitmap_MarshalBinary b @ rest) =
    Inr (Bitmap_shrinkToFit b, length (Bitmap_MarshalBinary b))"
proof -
  let ?buf = "Bitmap_MarshalBinary b @ rest" and ?n = "length (words b)"
  have n: "unat (of_nat ?n :: u32) = ?n"
  proof -
    have "?n \<le> 2 ^ 26" using assms by (simp add: bm_inv_def)
    then show ?thesis by (simp add: unat_of_nat)
  qed
  have wLen: "unat (GetUint32 ?buf) = ?n"
    unfolding Bitmap_MarshalBinary_def append_assoc GetUint32_Put by (rule n)
  have len: "length (Bitmap_MarshalBinary b) = 4 + ?n * 8 + length (meta b) * 8"
    by (simp add: Bitmap_MarshalBinary_def)
  have mLen: "(?n + 63) div 64 = length (meta b)" using bm_inv_meta_len [OF assms] by simp
  have w: "drop (4 + i * 8) ?buf = drop (i * 8) (concat (map PutUint64 (words b)) @ concat (map PutUint64 (meta b)) @ rest)" for i
    by (simp add: Bitmap_MarshalBinary_def)
  have m: "drop (4 + ?n * 8 + i * 8) ?buf = drop (i * 8) (concat (map PutUint64 (meta b)) @ rest)" for i
    by (simp add: Bitmap_MarshalBinary_def)
  show ?thesis
    unfolding Bitmap_UnmarshalBinary_def wLen Let_def mLen w m words_roundtrip
    using len by (simp add: Bitmap_shrinkToFit_def)
qed

section \<open>Properties\<close>

text \<open>A concrete bitmap for the witnesses: three IDs in two words.\<close>

definition bmExample :: Bitmap where
  "bmExample = Bitmap_Add 70 (Bitmap_Add 3 (Bitmap_Add 5 NewBitmap))"

lemma bmExample_facts: "bm_inv bmExample" "bm_set bmExample = {3, 5, 70}"
  by (auto simp: bmExample_def bm_inv_Add bm_set_Add)



text \<open>C28 (functional).  The queries of \<^verbatim>\<open>bitmap.go\<close> compute what they say of the represented sets: membership,
  emptiness from the meta level only, cardinality (as \<^verbatim>\<open>uint64\<close>), and the allocation-free intersection test over any
  number of bitmaps, with its meta-level and word-level early exits.\<close>

theorem bitmap_queries:
  assumes "\<forall>b \<in> set (b0 # bms). bm_inv b"
  shows "(Bitmap_Contains b0 x \<longleftrightarrow> x \<in> bm_set b0) \<and>
    (Bitmap_IsEmpty b0 \<longleftrightarrow> bm_set b0 = {}) \<and>
    Bitmap_GetCardinality b0 = of_nat (card (bm_set b0)) \<and>
    (intersectionNonEmpty b0 bms \<longleftrightarrow> (\<Inter>b \<in> set (b0 # bms). bm_set b) \<noteq> {})"
  using assms intersectionNonEmpty_iff [of b0 bms] by (simp add: Contains_iff IsEmpty_iff GetCardinality_card)

theorem bitmap_queries_witness:
  "intersectionNonEmpty bmExample [bmExample] \<and> Bitmap_GetCardinality bmExample = 3"
  using bitmap_queries [of bmExample "[bmExample]" 3] by (simp add: bmExample_facts)

text \<open>C29 (functional, termination).  The iterator visits every member exactly once, in ascending order, and then
  stops: the loop over \<^verbatim>\<open>HasNext\<close>/\<^verbatim>\<open>Next\<close> yields the sorted list of the represented set.\<close>

theorem iterator_ascending:
  assumes "bm_inv b"
  shows "Bitmap_ids b = sorted_list_of_set (bm_set b) \<and> sorted_wrt (<) (Bitmap_ids b)"
  using Bitmap_ids_eq [OF assms] sorted_Bitmap_ids [OF assms] by simp

theorem iterator_ascending_witness: "Bitmap_ids bmExample = [3, 5, 70]"
  using iterator_ascending [OF bmExample_facts(1)] by (simp add: bmExample_facts(2))

text \<open>C31 (round trip).  \<^verbatim>\<open>UnmarshalBinary\<close> recovers a bitmap from the front of a buffer written by
  \<^verbatim>\<open>MarshalBinary\<close>, whatever follows, and reports the bytes it consumed.\<close>

theorem bitmap_encoding_roundtrip:
  assumes "bm_inv b"
  shows "Bitmap_UnmarshalBinary (Bitmap_MarshalBinary b @ rest) =
    Inr (Bitmap_shrinkToFit b, length (Bitmap_MarshalBinary b))"
  using assms by (rule Marshal_roundtrip)

theorem bitmap_encoding_roundtrip_witness:
  "Bitmap_UnmarshalBinary (Bitmap_MarshalBinary bmExample @ [1, 2]) =
    Inr (Bitmap_shrinkToFit bmExample, length (Bitmap_MarshalBinary bmExample))"
  using bitmap_encoding_roundtrip [OF bmExample_facts(1)] by simp

text \<open>C30 (safety).  Recycling bitmaps through the pool is safe: releasing any bitmap used by a query makes it
  ready for reuse, what the pool hands out is always ready, and the union and intersection computed into a
  recycled bitmap have the same visible words as those computed into any other.\<close>

theorem pool_reuse_safe:
  assumes "list_all poolReady pool" and "list_all bm_inv used"
    and "arena_get choice (arena_release used pool) = (bm, pool')"
    and "list_all bm_inv (p # parts)"
  shows "poolReady bm \<and> list_all poolReady pool' \<and>
    words (orInto bm (p # parts)) = words (orInto poolNew (p # parts)) \<and>
    bm_set (orInto bm (p # parts)) = (\<Union>b \<in> set (p # parts). bm_set b) \<and>
    bm_set (andInto bm (p # parts)) = (\<Inter>b \<in> set (p # parts). bm_set b)"
proof -
  have "poolReady bm \<and> list_all poolReady pool'"
    using arena_get_ready [OF arena_release_ready [OF assms(1,2)] assms(3)] .
  then show ?thesis
    using orInto_visible [of bm poolNew "p # parts"] poolReady_New bm_set_orInto [of bm "p # parts"]
      bm_set_andInto [of bm "p # parts"] assms(4) by simp
qed

theorem pool_reuse_safe_witness:
  "bm_set (orInto (Bitmap_Clear bmExample) [bmExample, bmExample]) = {3, 5, 70}"
proof -
  have "arena_get (Some 0) (arena_release [bmExample] []) = (Bitmap_Clear bmExample, [])"
    by (simp add: arena_get_def arena_release_def)
  from pool_reuse_safe [OF _ _ this, of bmExample "[bmExample]"] show ?thesis
    by (simp add: bmExample_facts)
qed

end
