(* ===== verification/Dimension.thy ===== *)
theory Dimension
  imports BitmapIter
begin

text \<open>
  The dimensions of the bitmap index: the exact-match \<^verbatim>\<open>dimension[T]\<close> and \<^verbatim>\<open>fqnDimension\<close> of
  \<^verbatim>\<open>bitmap_index.go\<close>, the \<^verbatim>\<open>lazyDimension\<close> of \<^verbatim>\<open>lazy_dimension.go\<close>, the \<^verbatim>\<open>globDimension\<close> of
  \<^verbatim>\<open>glob_dimension.go\<close>, and the glob helpers of \<^verbatim>\<open>internal/util/globs_common.go\<close>.  The locale
  \<open>id_dimension\<close> is the contract the index relies on; each kind of dimension is an instance.
  Pooled bitmaps are taken as \<open>poolNew\<close>: by \<open>orInto_visible\<close> and \<open>and2_visible\<close> the results do not
  depend on which recycled bitmap the pool hands out.
\<close>

section \<open>Globs\<close>

text \<open>
  \<^verbatim>\<open>glob.Compile(expr, ':')\<close> belongs to a third-party package: \<open>compile\<close> stands for it, a compiled
  pattern being what its \<^verbatim>\<open>Match\<close> method does, and \<open>None\<close> a compilation error.
\<close>

type_synonym pattern = "string \<Rightarrow> bool"
type_synonym compiler = "string \<Rightarrow> pattern option"

definition IsGlob :: "string \<Rightarrow> bool" where
  "IsGlob s \<longleftrightarrow> CHR ''*'' \<in> set s"

definition fixGlob :: "string \<Rightarrow> string" where
  "fixGlob g = (if g = ''*'' then ''**'' else g)"

text \<open>The cache of compiled patterns, as a map from which entries may have been evicted.\<close>

definition getOrCompile :: "compiler \<Rightarrow> (string, pattern) gomap \<Rightarrow> string \<Rightarrow> pattern option \<times> (string, pattern) gomap" where
  "getOrCompile compile cache globExpr =
     (case map_of cache globExpr of
        Some cachedGlob \<Rightarrow> (Some cachedGlob, cache)
      | None \<Rightarrow> (case compile globExpr of
          None \<Rightarrow> (None, cache)
        | Some g \<Rightarrow> (Some g, AList.update globExpr g cache)))"

definition globCache_matches :: "compiler \<Rightarrow> (string, pattern) gomap \<Rightarrow> string \<Rightarrow> string \<Rightarrow> bool" where
  "globCache_matches compile cache globExpr val =
     (case fst (getOrCompile compile cache globExpr) of None \<Rightarrow> False | Some g \<Rightarrow> g val)"

definition globCache_ok :: "compiler \<Rightarrow> (string, pattern) gomap \<Rightarrow> bool" where
  "globCache_ok compile cache \<longleftrightarrow> (\<forall>e g. map_of cache e = Some g \<longrightarrow> compile e = Some g)"

lemma getOrCompile_facts:
  assumes "globCache_ok compile cache"
  shows "fst (getOrCompile compile cache e) = compile e"
    and "globCache_ok compile (snd (getOrCompile compile cache e))"
  using assms by (auto simp: getOrCompile_def globCache_ok_def gomap_simps split: option.splits)

text \<open>With a coherent cache the cached functions are the following.\<close>

definition GetOrCompileGlob :: "compiler \<Rightarrow> string \<Rightarrow> pattern option" where
  "GetOrCompileGlob compile globExpr = compile (fixGlob globExpr)"

definition MatchesGlob :: "compiler \<Rightarrow> string \<Rightarrow> string \<Rightarrow> bool" where
  "MatchesGlob compile g val = (case compile (fixGlob g) of None \<Rightarrow> False | Some p \<Rightarrow> p val)"

definition FilterGlob :: "compiler \<Rightarrow> string \<Rightarrow> string list \<Rightarrow> string list" where
  "FilterGlob compile g vals = filter (MatchesGlob compile g) vals"

definition FilterGlobNotMatches :: "compiler \<Rightarrow> string \<Rightarrow> string list \<Rightarrow> string list" where
  "FilterGlobNotMatches compile g vals = filter (\<lambda>v. \<not> MatchesGlob compile g v) vals"

lemma globCache_matches_eq:
  "globCache_ok compile cache \<Longrightarrow> globCache_matches compile cache (fixGlob g) val = MatchesGlob compile g val"
  by (simp add: globCache_matches_def MatchesGlob_def getOrCompile_facts)

section \<open>Definitions\<close>

subsection \<open>Exact-match dimensions\<close>

text \<open>The \<^verbatim>\<open>switch len(parts)\<close> that ends every query over several parts.\<close>

definition orParts :: "Bitmap list \<Rightarrow> Bitmap" where
  "orParts parts = (case parts of [] \<Rightarrow> NewBitmap | [p] \<Rightarrow> p | _ \<Rightarrow> orInto poolNew parts)"

definition dim_Add :: "'k \<Rightarrow> u32 \<Rightarrow> ('k, Bitmap) gomap \<Rightarrow> ('k, Bitmap) gomap" where
  "dim_Add key bid d =
     (let bm = (case map_of d key of None \<Rightarrow> NewBitmap | Some bm \<Rightarrow> bm)
      in AList.update key (Bitmap_Add bid bm) d)"

definition dim_Remove :: "'k \<Rightarrow> u32 \<Rightarrow> ('k, Bitmap) gomap \<Rightarrow> ('k, Bitmap) gomap" where
  "dim_Remove key bid d =
     (case map_of d key of
        None \<Rightarrow> d
      | Some bm \<Rightarrow> let bm = Bitmap_Remove bid bm
          in if Bitmap_IsEmpty bm then AList.delete key d else AList.update key bm d)"

definition dim_Get :: "('k, Bitmap) gomap \<Rightarrow> 'k \<Rightarrow> Bitmap option" where
  "dim_Get d key = map_of d key"

definition dim_Delete :: "'k \<Rightarrow> ('k, Bitmap) gomap \<Rightarrow> ('k, Bitmap) gomap" where
  "dim_Delete key d = AList.delete key d"

definition dim_Keys :: "('k, Bitmap) gomap \<Rightarrow> 'k list" where
  "dim_Keys d = map fst d"

definition dim_intersectingKeys :: "Bitmap \<Rightarrow> ('k, Bitmap) gomap \<Rightarrow> 'k list" where
  "dim_intersectingKeys filterBM d = map fst (filter (\<lambda>(k, bm). intersectionNonEmpty bm [filterBM]) d)"

definition dim_QueryMultiple :: "'k list \<Rightarrow> ('k, Bitmap) gomap \<Rightarrow> Bitmap" where
  "dim_QueryMultiple keys d = orParts (List.map_filter (dim_Get d) keys)"

subsection \<open>The origin index\<close>

definition fqn_Add :: "string \<Rightarrow> u32 \<Rightarrow> (string, u32 list) gomap \<Rightarrow> (string, u32 list) gomap" where
  "fqn_Add fqn bid d = (case map_of d fqn of
      None \<Rightarrow> AList.update fqn [bid] d | Some bids \<Rightarrow> AList.update fqn (bids @ [bid]) d)"

definition fqn_Get :: "(string, u32 list) gomap \<Rightarrow> string \<Rightarrow> u32 list option" where
  "fqn_Get d fqn = map_of d fqn"

definition fqn_Delete :: "string \<Rightarrow> (string, u32 list) gomap \<Rightarrow> (string, u32 list) gomap" where
  "fqn_Delete fqn d = AList.delete fqn d"

subsection \<open>Lazy dimensions\<close>

text \<open>\<^verbatim>\<open>slices.BinarySearch\<close>: the position of the target, or where it would be inserted.\<close>

function binSearchLoop :: "u32 list \<Rightarrow> u32 \<Rightarrow> nat \<Rightarrow> nat \<Rightarrow> nat" where
  "binSearchLoop x target i j =
     (if i < j
      then let h = (i + j) div 2
        in if x ! h < target then binSearchLoop x target (h + 1) j else binSearchLoop x target i h
      else i)"
  by pat_completeness auto
termination
  by (relation "measure (\<lambda>(x, target, i, j). j - i)") (auto simp: Let_def)

declare binSearchLoop.simps [simp del]

definition BinarySearch :: "u32 list \<Rightarrow> u32 \<Rightarrow> nat \<times> bool" where
  "BinarySearch x target =
     (let i = binSearchLoop x target 0 (length x) in (i, i < length x \<and> x ! i = target))"

definition insertSortedUnique :: "u32 list \<Rightarrow> u32 \<Rightarrow> u32 list" where
  "insertSortedUnique bids bid =
     (if bids = [] \<or> last bids < bid then bids @ [bid]
      else let (i, found) = BinarySearch bids bid
        in if found then bids else take i bids @ bid # drop i bids)"

definition newBitmapFromIDs :: "u32 list \<Rightarrow> Bitmap" where
  "newBitmapFromIDs bids = Bitmap_AddSortedBatch bids NewBitmap"

record lazyState =
  ls_bm :: "Bitmap option"
  ls_ids :: "u32 list"

type_synonym lazyDimension = "(string, lazyState) gomap"

definition lazy_Add :: "string \<Rightarrow> u32 \<Rightarrow> lazyDimension \<Rightarrow> lazyDimension" where
  "lazy_Add key bid d =
     (case map_of d key of
        None \<Rightarrow> AList.update key \<lparr>ls_bm = None, ls_ids = [bid]\<rparr> d
      | Some st \<Rightarrow> (case ls_bm st of
          Some bm \<Rightarrow> AList.update key (st\<lparr>ls_bm := Some (Bitmap_Add bid bm)\<rparr>) d
        | None \<Rightarrow> AList.update key (st\<lparr>ls_ids := insertSortedUnique (ls_ids st) bid\<rparr>) d))"

definition lazy_Remove :: "string \<Rightarrow> u32 \<Rightarrow> lazyDimension \<Rightarrow> lazyDimension" where
  "lazy_Remove key bid d =
     (case map_of d key of
        None \<Rightarrow> d
      | Some st \<Rightarrow> (case ls_bm st of
          Some bm \<Rightarrow>
            let bm = Bitmap_Remove bid bm
            in if Bitmap_IsEmpty bm then AList.delete key d
               else AList.update key (st\<lparr>ls_bm := Some bm\<rparr>) d
        | None \<Rightarrow>
            let (i, found) = BinarySearch (ls_ids st) bid
            in if \<not> found then d
               else let bids = take i (ls_ids st) @ drop (i + 1) (ls_ids st)
                 in if length bids = 0 then AList.delete key d
                    else AList.update key (st\<lparr>ls_ids := bids\<rparr>) d))"

text \<open>\<^verbatim>\<open>Bitmap\<close> returns the bitmap of a key and caches it: its result, and the dimension it leaves behind.
  A lost race leaves the same state, installed by the other query.\<close>

definition lazy_Bitmap :: "lazyDimension \<Rightarrow> string \<Rightarrow> Bitmap option" where
  "lazy_Bitmap d key =
     (case map_of d key of
        None \<Rightarrow> None
      | Some st \<Rightarrow> (case ls_bm st of Some bm \<Rightarrow> Some bm | None \<Rightarrow> Some (newBitmapFromIDs (ls_ids st))))"

definition lazy_touch :: "string \<Rightarrow> lazyDimension \<Rightarrow> lazyDimension" where
  "lazy_touch key d =
     (case map_of d key of
        None \<Rightarrow> d
      | Some st \<Rightarrow> (case ls_bm st of
          Some bm \<Rightarrow> d
        | None \<Rightarrow> AList.update key \<lparr>ls_bm = Some (newBitmapFromIDs (ls_ids st)), ls_ids = []\<rparr> d))"

definition lazy_Keys :: "lazyDimension \<Rightarrow> string list" where
  "lazy_Keys d = map fst d"

definition lazy_len :: "lazyDimension \<Rightarrow> nat" where
  "lazy_len d = length d"

definition lazy_has :: "lazyDimension \<Rightarrow> string \<Rightarrow> bool" where
  "lazy_has d key \<longleftrightarrow> map_of d key \<noteq> None"

definition preferBitmap :: "nat \<Rightarrow> nat \<Rightarrow> nat \<Rightarrow> bool" where
  "preferBitmap nWords metaWords cardinality \<longleftrightarrow> (nWords + metaWords) * 8 \<le> cardinality * 4"

definition lazy_compactEntry :: "lazyState \<Rightarrow> lazyState" where
  "lazy_compactEntry st =
     (if ls_bm st \<noteq> None \<or> length (ls_ids st) = 0 then st
      else let nWords = unat (last (ls_ids st)) div 64 + 1;
               metaWords = (nWords + 64 - 1) div 64
        in if preferBitmap nWords metaWords (length (ls_ids st))
           then \<lparr>ls_bm = Some (newBitmapFromIDs (ls_ids st)), ls_ids = []\<rparr>
           else st)"

definition lazy_compact :: "lazyDimension \<Rightarrow> lazyDimension" where
  "lazy_compact d = map (\<lambda>(k, st). (k, lazy_compactEntry st)) d"

definition lazy_setFromBitmap :: "string \<Rightarrow> Bitmap \<Rightarrow> lazyDimension \<Rightarrow> lazyDimension" where
  "lazy_setFromBitmap key bm d =
     (let card = unat (Bitmap_GetCardinality bm);
          st = (if preferBitmap (length (words bm)) (length (meta bm)) card
                then \<lparr>ls_bm = Some bm, ls_ids = []\<rparr>
                else \<lparr>ls_bm = None, ls_ids = Bitmap_ids bm\<rparr>)
      in AList.update key st d)"

definition ls_bitmap :: "lazyState \<Rightarrow> Bitmap" where
  "ls_bitmap st = (case ls_bm st of Some bm \<Rightarrow> bm | None \<Rightarrow> newBitmapFromIDs (ls_ids st))"

fun lazy_forEachBitmap :: "(string \<Rightarrow> Bitmap \<Rightarrow> 's \<Rightarrow> 'e + 's) \<Rightarrow> lazyDimension \<Rightarrow> 's \<Rightarrow> 'e + 's" where
  "lazy_forEachBitmap fn [] s = Inr s"
| "lazy_forEachBitmap fn ((k, st) # d) s =
     (case fn k (ls_bitmap st) s of Inl err \<Rightarrow> Inl err | Inr s \<Rightarrow> lazy_forEachBitmap fn d s)"

definition lazy_intersectingKeys :: "Bitmap \<Rightarrow> lazyDimension \<Rightarrow> string list" where
  "lazy_intersectingKeys filterBM d =
     map fst (filter (\<lambda>(k, st). case ls_bm st of
         Some bm \<Rightarrow> intersectionNonEmpty bm [filterBM]
       | None \<Rightarrow> list_ex (Bitmap_Contains filterBM) (ls_ids st)) d)"

subsection \<open>Glob dimensions\<close>

record globDimension =
  literals :: lazyDimension
  globs :: lazyDimension
  compiled :: "(string, pattern) gomap"

definition newGlobDimension :: globDimension where
  "newGlobDimension = \<lparr>literals = [], globs = [], compiled = []\<rparr>"

definition glob_Set :: "compiler \<Rightarrow> string \<Rightarrow> u32 \<Rightarrow> globDimension \<Rightarrow> globDimension" where
  "glob_Set compile key bid gd =
     (if IsGlob key
      then (case map_of (compiled gd) key of
          Some _ \<Rightarrow> gd\<lparr>globs := lazy_Add key bid (globs gd)\<rparr>
        | None \<Rightarrow> (case GetOrCompileGlob compile key of
            None \<Rightarrow> gd
          | Some g \<Rightarrow> gd\<lparr>compiled := AList.update key g (compiled gd), globs := lazy_Add key bid (globs gd)\<rparr>))
      else gd\<lparr>literals := lazy_Add key bid (literals gd)\<rparr>)"

definition glob_Remove :: "string \<Rightarrow> u32 \<Rightarrow> globDimension \<Rightarrow> globDimension" where
  "glob_Remove key bid gd =
     (if IsGlob key
      then let gd = gd\<lparr>globs := lazy_Remove key bid (globs gd)\<rparr>
        in if \<not> lazy_has (globs gd) key then gd\<lparr>compiled := AList.delete key (compiled gd)\<rparr> else gd
      else gd\<lparr>literals := lazy_Remove key bid (literals gd)\<rparr>)"

definition globParts :: "globDimension \<Rightarrow> string \<Rightarrow> Bitmap list" where
  "globParts gd val =
     List.map_filter (\<lambda>(pat, match). if match val then lazy_Bitmap (globs gd) pat else None) (compiled gd)"

definition valueParts :: "globDimension \<Rightarrow> string \<Rightarrow> Bitmap list" where
  "valueParts gd val =
     (case lazy_Bitmap (literals gd) val of Some bm \<Rightarrow> [bm] | None \<Rightarrow> []) @ globParts gd val"

definition glob_Query :: "globDimension \<Rightarrow> string \<Rightarrow> Bitmap" where
  "glob_Query gd val =
     (if compiled gd = []
      then (case lazy_Bitmap (literals gd) val of Some bm \<Rightarrow> bm | None \<Rightarrow> NewBitmap)
      else orParts (valueParts gd val))"

definition glob_QueryMultiple :: "globDimension \<Rightarrow> string list \<Rightarrow> Bitmap" where
  "glob_QueryMultiple gd vals =
     orParts (concat (map (valueParts gd) vals))"

definition glob_GetAllKeys :: "globDimension \<Rightarrow> string list" where
  "glob_GetAllKeys gd = lazy_Keys (literals gd) @ lazy_Keys (globs gd)"

definition glob_intersectingKeys :: "Bitmap \<Rightarrow> globDimension \<Rightarrow> string list" where
  "glob_intersectingKeys filterBM gd =
     lazy_intersectingKeys filterBM (literals gd) @ lazy_intersectingKeys filterBM (globs gd)"

definition glob_compact :: "globDimension \<Rightarrow> globDimension" where
  "glob_compact gd = gd\<lparr>literals := lazy_compact (literals gd), globs := lazy_compact (globs gd)\<rparr>"

section \<open>The contract of a dimension\<close>

text \<open>
  A dimension maps keys to sets of binding IDs.  \<open>ok\<close> says which keys it can index (a glob that does
  not compile cannot be).  A dimension tracks a table of bindings when each key has exactly the IDs
  of the bindings that have this key.
\<close>

definition tracks :: "('k \<Rightarrow> u32 set) \<Rightarrow> (u32 \<Rightarrow> 'b option) \<Rightarrow> ('b \<Rightarrow> 'k option) \<Rightarrow> bool" where
  "tracks ids B f \<longleftrightarrow> (\<forall>k. ids k = {i. \<exists>b. B i = Some b \<and> f b = Some k})"

lemma tracksD: "tracks ids B f \<Longrightarrow> i \<in> ids k \<longleftrightarrow> (\<exists>b. B i = Some b \<and> f b = Some k)"
  by (simp add: tracks_def)

lemma tracks_forget:
  assumes "tracks ids B f" and "B i = Some b" and "f b = None"
  shows "tracks ids (B(i := None)) f"
  unfolding tracks_def
proof (intro allI set_eqI)
  fix k j
  show "j \<in> ids k \<longleftrightarrow> j \<in> {j. \<exists>b. (B(i := None)) j = Some b \<and> f b = Some k}"
    using assms tracksD [OF assms(1), of j k] by (cases "j = i") simp_all
qed

locale id_dimension =
  fixes add :: "'k \<Rightarrow> u32 \<Rightarrow> 'd \<Rightarrow> 'd"
    and remove :: "'k \<Rightarrow> u32 \<Rightarrow> 'd \<Rightarrow> 'd"
    and ids :: "'d \<Rightarrow> 'k \<Rightarrow> u32 set"
    and inv :: "'d \<Rightarrow> bool"
    and ok :: "'k \<Rightarrow> bool"
  assumes inv_add: "inv d \<Longrightarrow> inv (add k i d)"
    and inv_remove: "inv d \<Longrightarrow> inv (remove k i d)"
    and ids_add: "inv d \<Longrightarrow> ids (add k i d) k' = (if k' = k \<and> ok k then insert i (ids d k') else ids d k')"
    and ids_remove: "inv d \<Longrightarrow> ids (remove k i d) k' = (if k' = k then ids d k' - {i} else ids d k')"
begin

lemma add_many:
  assumes "inv d"
  shows "inv (fold (\<lambda>(k, i). add k i) kis d) \<and>
    ids (fold (\<lambda>(k, i). add k i) kis d) k = ids d k \<union> {i. (k, i) \<in> set kis \<and> ok k}"
  using assms by (induction kis arbitrary: d) (auto simp: inv_add ids_add split: if_splits)

lemma remove_add: "inv d \<Longrightarrow> i \<notin> ids d k \<Longrightarrow> ids (remove k i (add k i d)) = ids d"
  by (rule ext) (auto simp: ids_remove ids_add inv_add)

lemma tracks_add:
  assumes "inv d" and "tracks (ids d) B f" and "B i = None" and "f b = (if c \<and> ok k then Some k else None)"
  shows "tracks (ids (if c then add k i d else d)) (B(i \<mapsto> b)) f"
  unfolding tracks_def
proof
  fix k'
  have "i \<notin> ids d k'" using assms(2,3) by (simp add: tracksD)
  then show "ids (if c then add k i d else d) k' = {j. \<exists>b'. (B(i \<mapsto> b)) j = Some b' \<and> f b' = Some k'}"
    using assms by (auto simp: tracksD ids_add split: if_splits)
qed

lemma tracks_remove:
  assumes "inv d" and "tracks (ids d) B f" and "B i = Some b" and "f b = None \<or> f b = Some k"
  shows "tracks (ids (remove k i d)) (B(i := None)) f"
  using assms unfolding tracks_def by (auto simp: ids_remove)

end

section \<open>Exact-match dimensions\<close>

definition dim_ids :: "('k, Bitmap) gomap \<Rightarrow> 'k \<Rightarrow> u32 set" where
  "dim_ids d key = (case map_of d key of None \<Rightarrow> {} | Some bm \<Rightarrow> bm_set bm)"

definition dim_inv :: "('k, Bitmap) gomap \<Rightarrow> bool" where
  "dim_inv d \<longleftrightarrow> gowf d \<and> (\<forall>k bm. map_of d k = Some bm \<longrightarrow> bm_inv bm \<and> bm_set bm \<noteq> {})"

lemma mem_dim_ids: "i \<in> dim_ids d k \<longleftrightarrow> (\<exists>bm. map_of d k = Some bm \<and> i \<in> bm_set bm)"
  by (simp add: dim_ids_def split: option.splits)

lemma dim_inv_Nil [simp]: "dim_inv []"
  by (simp add: dim_inv_def)

lemma dim_Add_facts:
  assumes "dim_inv d"
  shows "dim_inv (dim_Add key i d)"
    and "dim_ids (dim_Add key i d) k = (if k = key then insert i (dim_ids d k) else dim_ids d k)"
  using assms
  by (auto simp: dim_Add_def dim_inv_def dim_ids_def Let_def gomap_simps bm_inv_Add bm_set_Add split: option.splits if_splits)

lemma dim_Remove_facts:
  assumes "dim_inv d"
  shows "dim_inv (dim_Remove key i d)"
    and "dim_ids (dim_Remove key i d) k = (if k = key then dim_ids d k - {i} else dim_ids d k)"
  using assms
  by (auto simp: dim_Remove_def dim_inv_def dim_ids_def Let_def gomap_simps bm_inv_Remove bm_set_Remove IsEmpty_iff
      split: option.splits if_splits)

interpretation exact: id_dimension dim_Add dim_Remove dim_ids dim_inv "\<lambda>_. True"
  by unfold_locales (simp_all add: dim_Add_facts dim_Remove_facts)

lemma dim_ids_empty_iff: "dim_inv d \<Longrightarrow> dim_ids d k = {} \<longleftrightarrow> map_of d k = None"
  by (auto simp: dim_ids_def dim_inv_def split: option.splits)

lemma dim_Keys_iff: "dim_inv d \<Longrightarrow> k \<in> set (dim_Keys d) \<longleftrightarrow> dim_ids d k \<noteq> {}"
  using gokeys_dom [of k d] by (simp add: dim_ids_empty_iff dim_Keys_def)

lemma orParts_facts:
  assumes "list_all bm_inv parts"
  shows bm_inv_orParts: "bm_inv (orParts parts)"
    and bm_set_orParts: "bm_set (orParts parts) = (\<Union>b \<in> set parts. bm_set b)"
  using assms orInto_facts [OF poolReady_New, of parts]
  by (auto simp: orParts_def split: list.splits)

lemma list_all_map_filter: "(\<And>x y. x \<in> set xs \<Longrightarrow> f x = Some y \<Longrightarrow> P y) \<Longrightarrow> list_all P (List.map_filter f xs)"
  by (auto simp: List.map_filter_def list_all_iff)

lemma set_map_filter_iff: "y \<in> set (List.map_filter f xs) \<longleftrightarrow> (\<exists>x \<in> set xs. f x = Some y)"
  by (force simp: List.map_filter_def image_iff)

lemma dim_QueryMultiple_facts:
  assumes "dim_inv d"
  shows "bm_inv (dim_QueryMultiple keys d)"
    and "bm_set (dim_QueryMultiple keys d) = (\<Union>k \<in> set keys. dim_ids d k)"
proof -
  have all: "list_all bm_inv (List.map_filter (dim_Get d) keys)"
    using assms by (intro list_all_map_filter) (auto simp: dim_Get_def dim_inv_def)
  then show "bm_inv (dim_QueryMultiple keys d)"
    unfolding dim_QueryMultiple_def by (rule bm_inv_orParts)
  show "bm_set (dim_QueryMultiple keys d) = (\<Union>k \<in> set keys. dim_ids d k)"
    unfolding dim_QueryMultiple_def bm_set_orParts [OF all]
  proof (rule set_eqI)
    fix x
    have "x \<in> (\<Union>b \<in> set (List.map_filter (dim_Get d) keys). bm_set b) \<longleftrightarrow>
        (\<exists>k \<in> set keys. \<exists>bm. dim_Get d k = Some bm \<and> x \<in> bm_set bm)"
      by (simp only: UN_iff Bex_def set_map_filter_iff) blast
    then show "x \<in> (\<Union>b \<in> set (List.map_filter (dim_Get d) keys). bm_set b) \<longleftrightarrow> x \<in> (\<Union>k \<in> set keys. dim_ids d k)"
      by (simp only: UN_iff mem_dim_ids dim_Get_def)
  qed
qed

lemma intersection2_iff:
  "bm_inv a \<Longrightarrow> bm_inv b \<Longrightarrow> intersectionNonEmpty a [b] \<longleftrightarrow> bm_set a \<inter> bm_set b \<noteq> {}"
  using intersectionNonEmpty_iff [of a "[b]"] by simp

lemma dim_intersectingKeys_iff:
  assumes "dim_inv d" and "bm_inv filterBM"
  shows "k \<in> set (dim_intersectingKeys filterBM d) \<longleftrightarrow> dim_ids d k \<inter> bm_set filterBM \<noteq> {}"
proof -
  have "k \<in> set (dim_intersectingKeys filterBM d) \<longleftrightarrow> (\<exists>bm. map_of d k = Some bm \<and> intersectionNonEmpty bm [filterBM])"
    using assms(1) by (force simp: dim_intersectingKeys_def dim_inv_def simp flip: gowf_in_set_iff)
  also have "\<dots> \<longleftrightarrow> dim_ids d k \<inter> bm_set filterBM \<noteq> {}"
    using assms by (auto simp: dim_inv_def dim_ids_def intersection2_iff split: option.splits)
  finally show ?thesis .
qed

section \<open>The origin index\<close>

definition fqn_ids :: "(string, u32 list) gomap \<Rightarrow> string \<Rightarrow> u32 list" where
  "fqn_ids d fqn = (case map_of d fqn of None \<Rightarrow> [] | Some bids \<Rightarrow> bids)"

lemma fqn_Add_ids: "fqn_ids (fqn_Add fqn i d) f = (if f = fqn then fqn_ids d f @ [i] else fqn_ids d f)"
  by (simp add: fqn_Add_def fqn_ids_def gomap_simps split: option.splits)

lemma fqn_Delete_ids: "fqn_ids (fqn_Delete fqn d) f = (if f = fqn then [] else fqn_ids d f)"
  by (simp add: fqn_Delete_def fqn_ids_def gomap_simps)

section \<open>Lazy dimensions\<close>

subsection \<open>Sorted ID slices\<close>

text \<open>Binary search finds the first position whose element is not below the target.\<close>

lemma binSearchLoop_spec:
  assumes "sorted x" and "i \<le> j" and "j \<le> length x"
    and "\<forall>k < i. x ! k < target" and "\<forall>k. j \<le> k \<longrightarrow> k < length x \<longrightarrow> target \<le> x ! k"
  shows "binSearchLoop x target i j \<le> length x \<and>
    (\<forall>k < binSearchLoop x target i j. x ! k < target) \<and>
    (\<forall>k. binSearchLoop x target i j \<le> k \<longrightarrow> k < length x \<longrightarrow> target \<le> x ! k)"
  using assms
proof (induction x target i j rule: binSearchLoop.induct)
  case (1 x target i j)
  show ?case
  proof (cases "i < j")
    case False
    have eq: "binSearchLoop x target i j = i" using False by (simp add: binSearchLoop.simps [of x target i j])
    show ?thesis unfolding eq using False "1.prems" by auto
  next
    case True
    let ?h = "(i + j) div 2"
    have h: "i \<le> ?h" "?h < j" using True by auto
    show ?thesis
    proof (cases "x ! ?h < target")
      case less: True
      have "\<forall>k < ?h + 1. x ! k < target"
      proof (intro allI impI)
        fix k
        assume "k < ?h + 1"
        then have "x ! k \<le> x ! ?h" using h "1.prems"(1,3) by (intro sorted_nth_mono) auto
        then show "x ! k < target" using less by (rule order.strict_trans1)
      qed
      note lower = this
      have eq: "binSearchLoop x target i j = binSearchLoop x target (?h + 1) j"
        using True less by (simp add: binSearchLoop.simps [of x target i j] Let_def)
      show ?thesis
        unfolding eq using "1.prems"(1) _ "1.prems"(3) lower "1.prems"(5)
        by (rule "1.IH"(1) [OF True refl less]) (use h in simp)
    next
      case geq: False
      have "\<forall>k. ?h \<le> k \<longrightarrow> k < length x \<longrightarrow> target \<le> x ! k"
      proof (intro allI impI)
        fix k
        assume "?h \<le> k" "k < length x"
        then have "x ! ?h \<le> x ! k" using "1.prems"(1) by (intro sorted_nth_mono) auto
        then show "target \<le> x ! k" using geq by simp
      qed
      note upper = this
      have eq: "binSearchLoop x target i j = binSearchLoop x target i ?h"
        using True geq by (simp add: binSearchLoop.simps [of x target i j] Let_def)
      show ?thesis
        unfolding eq using "1.prems"(1) h(1) _ "1.prems"(4) upper
        by (rule "1.IH"(2) [OF True refl geq]) (use h "1.prems"(3) in simp)
    qed
  qed
qed

lemma BinarySearch_spec:
  assumes "sorted_wrt (<) x" and "BinarySearch x target = (i, found)"
  shows "i \<le> length x" and "set (take i x) = {y \<in> set x. y < target}"
    and "found \<longleftrightarrow> target \<in> set x" and "found \<longrightarrow> i < length x \<and> x ! i = target"
    and "set (drop i x) = {y \<in> set x. target \<le> y}"
proof -
  have sorted: "sorted x" using assms(1) by (rule strict_sorted_imp_sorted)
  have i: "i = binSearchLoop x target 0 (length x)" and f: "found \<longleftrightarrow> i < length x \<and> x ! i = target"
    using assms(2) by (auto simp: BinarySearch_def Let_def)
  have spec: "i \<le> length x" "\<forall>k < i. x ! k < target" "\<forall>k. i \<le> k \<longrightarrow> k < length x \<longrightarrow> target \<le> x ! k"
    using binSearchLoop_spec [OF sorted, of 0 "length x" target] unfolding i by auto
  show "i \<le> length x" by (rule spec(1))
  have lt: "y < target" if "y \<in> set (take i x)" for y
    using that spec by (auto simp: in_set_conv_nth)
  have ge: "target \<le> y" if "y \<in> set (drop i x)" for y
  proof -
    from that obtain k where "k < length x - i" "y = x ! (i + k)" by (auto simp: in_set_conv_nth)
    then show ?thesis using spec(3) by simp
  qed
  have x: "set x = set (take i x) \<union> set (drop i x)" by (metis append_take_drop_id set_append)
  show "set (take i x) = {y \<in> set x. y < target}" using lt ge x by fastforce
  show dr: "set (drop i x) = {y \<in> set x. target \<le> y}" using lt ge x by fastforce
  show "found \<longrightarrow> i < length x \<and> x ! i = target" by (simp add: f)
  show "found \<longleftrightarrow> target \<in> set x"
  proof
    assume "target \<in> set x"
    then have mem: "target \<in> set (drop i x)" by (simp add: dr)
    then have len: "i < length x" by (metis drop_all empty_iff empty_set not_le)
    then have "drop i x = x ! i # drop (Suc i) x" by (rule Cons_nth_drop_Suc [symmetric])
    moreover have "sorted (drop i x)" using sorted by (rule sorted_wrt_drop)
    ultimately have "x ! i \<le> target" using mem by (metis set_ConsD sorted_simps(2) order_refl)
    moreover have "target \<le> x ! i" using spec(3) len by simp
    ultimately show found using len f by simp
  qed (use f in auto)
qed

lemma sorted_le_last: "x \<in> set xs \<Longrightarrow> sorted xs \<Longrightarrow> x \<le> last xs"
  by (induction xs) auto

lemma insertSortedUnique_facts:
  assumes "sorted_wrt (<) bids"
  shows "sorted_wrt (<) (insertSortedUnique bids bid)"
    and "set (insertSortedUnique bids bid) = insert bid (set bids)"
proof -
  obtain i found where bs: "BinarySearch bids bid = (i, found)" by force
  note spec = BinarySearch_spec [OF assms bs]
  have parts: "bids = take i bids @ drop i bids" by simp
  have sorted: "sorted_wrt (<) (take i bids)" "sorted_wrt (<) (drop i bids)"
    using assms by simp_all
  have last: "x \<le> last bids" if "x \<in> set bids" for x
    using that strict_sorted_imp_sorted [OF assms] by (rule sorted_le_last)
  consider (app) "bids = [] \<or> last bids < bid" | (dup) "\<not> (bids = [] \<or> last bids < bid)" found
    | (ins) "\<not> (bids = [] \<or> last bids < bid)" "\<not> found" by blast
  then show "sorted_wrt (<) (insertSortedUnique bids bid)"
  proof cases
    case app
    then have "\<forall>x \<in> set bids. x < bid" using last by (auto intro: order.strict_trans1)
    with app assms show ?thesis by (simp add: insertSortedUnique_def sorted_wrt_append)
  next
    case dup
    with assms bs show ?thesis by (simp add: insertSortedUnique_def)
  next
    case ins
    have "\<forall>x \<in> set (take i bids). x < bid" using spec(2) by simp
    moreover have "\<forall>x \<in> set (drop i bids). bid < x" using spec(3,5) ins by (auto simp: order_le_less)
    moreover have "sorted_wrt (<) (take i bids @ drop i bids)" using assms by simp
    ultimately show ?thesis
      using ins bs unfolding sorted_wrt_append by (simp add: insertSortedUnique_def sorted_wrt_append)
  qed
  have "set (take i bids) \<union> set (drop i bids) = set bids" by (metis append_take_drop_id set_append)
  then show "set (insertSortedUnique bids bid) = insert bid (set bids)"
    using spec(3) bs by (auto simp: insertSortedUnique_def)
qed

lemma delete_found_facts:
  assumes "sorted_wrt (<) bids" and "BinarySearch bids bid = (i, True)"
  shows "sorted_wrt (<) (take i bids @ drop (i + 1) bids)"
    and "set (take i bids @ drop (i + 1) bids) = set bids - {bid}"
proof -
  note spec = BinarySearch_spec [OF assms]
  have i: "i < length bids" "bids ! i = bid" using spec(4) by simp_all
  then have eq: "bids = take i bids @ bid # drop (i + 1) bids"
    using id_take_nth_drop [of i bids] by simp
  have "sorted_wrt (<) (take i bids @ bid # drop (i + 1) bids)" using assms(1) eq by simp
  then show "sorted_wrt (<) (take i bids @ drop (i + 1) bids)" by (auto simp: sorted_wrt_append)
  have "distinct (take i bids @ bid # drop (i + 1) bids)"
    using assms(1) eq by (metis strict_sorted_iff)
  then have "bid \<notin> set (take i bids @ drop (i + 1) bids)" by auto
  moreover have "set bids = insert bid (set (take i bids @ drop (i + 1) bids))"
    by (subst eq) auto
  ultimately show "set (take i bids @ drop (i + 1) bids) = set bids - {bid}" by auto
qed

lemma newBitmapFromIDs_facts:
  assumes "sorted_wrt (<) bids"
  shows "bm_inv (newBitmapFromIDs bids)" and "bm_set (newBitmapFromIDs bids) = set bids"
  using AddSortedBatch_facts [OF bm_inv_New strict_sorted_imp_sorted [OF assms]]
  by (simp_all add: newBitmapFromIDs_def)

subsection \<open>The dimension\<close>

definition ls_inv :: "lazyState \<Rightarrow> bool" where
  "ls_inv st \<longleftrightarrow>
     (case ls_bm st of
        Some bm \<Rightarrow> bm_inv bm \<and> bm_set bm \<noteq> {}
      | None \<Rightarrow> sorted_wrt (<) (ls_ids st) \<and> ls_ids st \<noteq> [])"

definition ls_set :: "lazyState \<Rightarrow> u32 set" where
  "ls_set st = (case ls_bm st of Some bm \<Rightarrow> bm_set bm | None \<Rightarrow> set (ls_ids st))"

definition lazy_inv :: "lazyDimension \<Rightarrow> bool" where
  "lazy_inv d \<longleftrightarrow> gowf d \<and> (\<forall>k st. map_of d k = Some st \<longrightarrow> ls_inv st)"

definition lazy_ids :: "lazyDimension \<Rightarrow> string \<Rightarrow> u32 set" where
  "lazy_ids d key = (case map_of d key of None \<Rightarrow> {} | Some st \<Rightarrow> ls_set st)"

lemma lazy_inv_Nil [simp]: "lazy_inv []"
  by (simp add: lazy_inv_def)

lemma lazy_ids_Nil [simp]: "lazy_ids [] k = {}"
  by (simp add: lazy_ids_def)

lemma mem_lazy_ids: "i \<in> lazy_ids d k \<longleftrightarrow> (\<exists>st. map_of d k = Some st \<and> i \<in> ls_set st)"
  by (simp add: lazy_ids_def split: option.splits)

lemma ls_set_nonempty: "ls_inv st \<Longrightarrow> ls_set st \<noteq> {}"
  by (auto simp: ls_inv_def ls_set_def split: option.splits)

lemma lazy_update_facts:
  assumes "lazy_inv d" and "ls_inv st"
  shows "lazy_inv (AList.update key st d)"
    and "lazy_ids (AList.update key st d) k = (if k = key then ls_set st else lazy_ids d k)"
  using assms by (auto simp: lazy_inv_def lazy_ids_def gomap_simps)

lemma lazy_delete_facts:
  assumes "lazy_inv d"
  shows "lazy_inv (AList.delete key d)"
    and "lazy_ids (AList.delete key d) k = (if k = key then {} else lazy_ids d k)"
  using assms by (auto simp: lazy_inv_def lazy_ids_def gomap_simps)

lemma lazy_Add_facts:
  assumes "lazy_inv d"
  shows "lazy_inv (lazy_Add key i d)"
    and "lazy_ids (lazy_Add key i d) k = (if k = key then insert i (lazy_ids d k) else lazy_ids d k)"
proof -
  let ?fresh = "\<lparr>ls_bm = None, ls_ids = [i]\<rparr>"
  have fresh: "ls_inv ?fresh" "ls_set ?fresh = {i}" by (simp_all add: ls_inv_def ls_set_def)
  have hot: "ls_inv (st\<lparr>ls_bm := Some (Bitmap_Add i bm)\<rparr>)" "ls_set (st\<lparr>ls_bm := Some (Bitmap_Add i bm)\<rparr>) = insert i (ls_set st)"
    if "ls_inv st" "ls_bm st = Some bm" for st bm
    using that by (simp_all add: ls_inv_def ls_set_def bm_inv_Add bm_set_Add)
  have cold: "ls_inv (st\<lparr>ls_ids := insertSortedUnique (ls_ids st) i\<rparr>)"
      "ls_set (st\<lparr>ls_ids := insertSortedUnique (ls_ids st) i\<rparr>) = insert i (ls_set st)"
    if "ls_inv st" "ls_bm st = None" for st
    using that insertSortedUnique_facts [of "ls_ids st" i] by (auto simp: ls_inv_def ls_set_def)
  have inv: "ls_inv st" if "map_of d key = Some st" for st using assms that by (simp add: lazy_inv_def)
  show "lazy_inv (lazy_Add key i d)"
    using assms inv fresh hot cold
    by (auto simp: lazy_Add_def lazy_update_facts split: option.splits)
  show "lazy_ids (lazy_Add key i d) k = (if k = key then insert i (lazy_ids d k) else lazy_ids d k)"
    using assms inv fresh hot cold
    by (simp add: lazy_Add_def lazy_update_facts split: option.splits) (auto simp: lazy_ids_def)
qed

lemma lazy_Remove_facts:
  assumes "lazy_inv d"
  shows "lazy_inv (lazy_Remove key i d)"
    and "lazy_ids (lazy_Remove key i d) k = (if k = key then lazy_ids d k - {i} else lazy_ids d k)"
proof -
  have "lazy_inv (lazy_Remove key i d) \<and>
    lazy_ids (lazy_Remove key i d) k = (if k = key then lazy_ids d k - {i} else lazy_ids d k)"
  proof (cases "map_of d key")
    case None
    then show ?thesis using assms by (simp add: lazy_Remove_def lazy_ids_def)
  next
    case (Some st)
    then have inv: "ls_inv st" and ids: "lazy_ids d key = ls_set st"
      using assms by (auto simp: lazy_inv_def lazy_ids_def)
    show ?thesis
    proof (cases "ls_bm st")
      case hot: (Some bm)
      let ?bm = "Bitmap_Remove i bm"
      have bm: "bm_inv ?bm" "bm_set ?bm = bm_set bm - {i}" "Bitmap_IsEmpty ?bm \<longleftrightarrow> bm_set bm - {i} = {}"
        using inv hot by (simp_all add: ls_inv_def bm_inv_Remove bm_set_Remove IsEmpty_iff)
      show ?thesis
      proof (cases "Bitmap_IsEmpty ?bm")
        case True
        then show ?thesis
          using assms Some hot bm ids by (simp add: lazy_Remove_def lazy_delete_facts ls_set_def)
      next
        case False
        then have "ls_inv (st\<lparr>ls_bm := Some ?bm\<rparr>)" using bm by (simp add: ls_inv_def)
        then show ?thesis
          using assms Some hot bm ids False by (simp add: lazy_Remove_def lazy_update_facts ls_set_def)
      qed
    next
      case cold: None
      have sorted: "sorted_wrt (<) (ls_ids st)" using inv cold by (simp add: ls_inv_def)
      obtain n found where bs: "BinarySearch (ls_ids st) i = (n, found)" by force
      note spec = BinarySearch_spec [OF sorted bs]
      let ?bids = "take n (ls_ids st) @ drop (n + 1) (ls_ids st)"
      consider (absent) "\<not> found" | (emptied) "found" "?bids = []" | (kept) "found" "?bids \<noteq> []" by blast
      then show ?thesis
      proof cases
        case absent
        then show ?thesis
          using assms Some cold bs spec(3) ids by (auto simp: lazy_Remove_def ls_set_def)
      next
        case emptied
        then have "ls_set st - {i} = {}"
          using delete_found_facts(2) [OF sorted, of i n] bs cold unfolding emptied(2) by (simp add: ls_set_def)
        then show ?thesis
          using assms Some cold bs emptied ids by (simp add: lazy_Remove_def lazy_delete_facts)
      next
        case kept
        have facts: "sorted_wrt (<) ?bids" "set ?bids = ls_set st - {i}"
          using delete_found_facts [OF sorted, of i n] bs kept cold by (simp_all add: ls_set_def)
        then have "ls_inv (st\<lparr>ls_ids := ?bids\<rparr>)" "ls_set (st\<lparr>ls_ids := ?bids\<rparr>) = ls_set st - {i}"
          using kept cold by (simp_all only: ls_inv_def ls_set_def lazyState.select_convs lazyState.update_convs option.case) simp_all
        moreover have "lazy_Remove key i d = AList.update key (st\<lparr>ls_ids := ?bids\<rparr>) d"
        proof -
          have "(length ?bids = 0) = False" using kept(2) by (simp only: length_0_conv)
          then show ?thesis
            by (simp only: lazy_Remove_def Some cold bs kept(1) option.case prod.case Let_def simp_thms if_False)
        qed
        ultimately show ?thesis
          using assms ids by (simp only: lazy_update_facts) simp
      qed
    qed
  qed
  then show "lazy_inv (lazy_Remove key i d)"
    and "lazy_ids (lazy_Remove key i d) k = (if k = key then lazy_ids d k - {i} else lazy_ids d k)" by auto
qed

interpretation lazy: id_dimension lazy_Add lazy_Remove lazy_ids lazy_inv "\<lambda>_. True"
  by unfold_locales (simp_all add: lazy_Add_facts lazy_Remove_facts)

lemma ls_bitmap_facts:
  assumes "ls_inv st"
  shows "bm_inv (ls_bitmap st)" and "bm_set (ls_bitmap st) = ls_set st"
  using assms newBitmapFromIDs_facts [of "ls_ids st"]
  by (auto simp: ls_inv_def ls_bitmap_def ls_set_def split: option.splits)

lemma lazy_Bitmap_eq: "lazy_Bitmap d key = map_option ls_bitmap (map_of d key)"
  by (simp add: lazy_Bitmap_def ls_bitmap_def split: option.splits)

lemma lazy_Bitmap_facts:
  assumes "lazy_inv d"
  shows "lazy_Bitmap d key = Some bm \<Longrightarrow> bm_inv bm \<and> bm_set bm = lazy_ids d key"
    and "lazy_Bitmap d key = None \<longleftrightarrow> lazy_ids d key = {}"
  using assms ls_bitmap_facts ls_set_nonempty
  by (auto simp: lazy_Bitmap_eq lazy_inv_def lazy_ids_def split: option.splits)

text \<open>Materialising a key changes no lookup.\<close>

definition ls_hot :: "lazyState \<Rightarrow> lazyState" where
  "ls_hot st = \<lparr>ls_bm = Some (newBitmapFromIDs (ls_ids st)), ls_ids = []\<rparr>"

lemma ls_hot_facts:
  assumes "ls_inv st" and "ls_bm st = None"
  shows "ls_inv (ls_hot st)" and "ls_set (ls_hot st) = ls_set st" and "ls_bitmap (ls_hot st) = ls_bitmap st"
  using assms newBitmapFromIDs_facts [of "ls_ids st"]
  by (auto simp: ls_hot_def ls_inv_def ls_set_def ls_bitmap_def)

lemma lazy_touch_facts:
  assumes "lazy_inv d"
  shows "lazy_inv (lazy_touch key d)" and "lazy_ids (lazy_touch key d) k = lazy_ids d k"
    and "lazy_Bitmap (lazy_touch key d) k = lazy_Bitmap d k"
proof -
  have "lazy_inv (lazy_touch key d) \<and> lazy_ids (lazy_touch key d) k = lazy_ids d k \<and>
    lazy_Bitmap (lazy_touch key d) k = lazy_Bitmap d k"
  proof (cases "\<exists>st. map_of d key = Some st \<and> ls_bm st = None")
    case True
    then obtain st where st: "map_of d key = Some st" "ls_bm st = None" by blast
    then have "ls_inv st" using assms by (simp add: lazy_inv_def)
    note hot = ls_hot_facts [OF this st(2)]
    have "lazy_touch key d = AList.update key (ls_hot st) d"
      using st by (simp add: lazy_touch_def ls_hot_def)
    then show ?thesis
      using assms hot st lazy_update_facts [OF assms hot(1)]
      by (auto simp: lazy_Bitmap_eq lazy_ids_def gomap_simps)
  next
    case False
    then have "lazy_touch key d = d" by (auto simp: lazy_touch_def split: option.splits)
    then show ?thesis using assms by simp
  qed
  then show "lazy_inv (lazy_touch key d)" and "lazy_ids (lazy_touch key d) k = lazy_ids d k"
    and "lazy_Bitmap (lazy_touch key d) k = lazy_Bitmap d k" by auto
qed

lemma lazy_compactEntry_facts:
  assumes "ls_inv st"
  shows "ls_inv (lazy_compactEntry st)" and "ls_set (lazy_compactEntry st) = ls_set st"
  using assms newBitmapFromIDs_facts [of "ls_ids st"]
  by (auto simp: lazy_compactEntry_def ls_inv_def ls_set_def Let_def split: option.splits)

lemma lazy_compact_facts:
  assumes "lazy_inv d"
  shows "lazy_inv (lazy_compact d)" and "lazy_ids (lazy_compact d) k = lazy_ids d k"
proof -
  have keys: "map fst (lazy_compact d) = map fst d" by (simp add: lazy_compact_def case_prod_beta comp_def)
  have get: "map_of (lazy_compact d) k = map_option lazy_compactEntry (map_of d k)" for k
    by (simp add: lazy_compact_def map_of_map)
  show "lazy_inv (lazy_compact d)"
    using assms keys by (auto simp: lazy_inv_def gowf_def get lazy_compactEntry_facts)
  show "lazy_ids (lazy_compact d) k = lazy_ids d k"
    using assms by (auto simp: lazy_ids_def get lazy_inv_def lazy_compactEntry_facts split: option.splits)
qed

lemma lazy_setFromBitmap_facts:
  assumes "lazy_inv d" and "bm_inv bm" and "bm_set bm \<noteq> {}"
  shows "lazy_inv (lazy_setFromBitmap key bm d)"
    and "lazy_ids (lazy_setFromBitmap key bm d) k = (if k = key then bm_set bm else lazy_ids d k)"
proof -
  let ?hot = "\<lparr>ls_bm = Some bm, ls_ids = []\<rparr>" and ?cold = "\<lparr>ls_bm = None, ls_ids = Bitmap_ids bm\<rparr>"
  have "ls_inv ?hot" "ls_set ?hot = bm_set bm" using assms by (simp_all add: ls_inv_def ls_set_def)
  moreover have "ls_inv ?cold" "ls_set ?cold = bm_set bm"
    using Bitmap_ids_facts [OF assms(2)] assms(3) by (auto simp: ls_inv_def ls_set_def)
  ultimately show "lazy_inv (lazy_setFromBitmap key bm d)"
    and "lazy_ids (lazy_setFromBitmap key bm d) k = (if k = key then bm_set bm else lazy_ids d k)"
    using assms(1) by (simp_all add: lazy_setFromBitmap_def Let_def lazy_update_facts)
qed

lemma lazy_intersectingKeys_iff:
  assumes "lazy_inv d" and "bm_inv filterBM"
  shows "k \<in> set (lazy_intersectingKeys filterBM d) \<longleftrightarrow> lazy_ids d k \<inter> bm_set filterBM \<noteq> {}"
proof -
  let ?hit = "\<lambda>st. case ls_bm st of Some bm \<Rightarrow> intersectionNonEmpty bm [filterBM]
    | None \<Rightarrow> list_ex (Bitmap_Contains filterBM) (ls_ids st)"
  have "k \<in> set (lazy_intersectingKeys filterBM d) \<longleftrightarrow> (\<exists>st. map_of d k = Some st \<and> ?hit st)"
    using assms(1) by (force simp: lazy_intersectingKeys_def lazy_inv_def simp flip: gowf_in_set_iff)
  also have "\<dots> \<longleftrightarrow> (\<exists>st. map_of d k = Some st \<and> ls_set st \<inter> bm_set filterBM \<noteq> {})"
  proof -
    have "?hit st \<longleftrightarrow> ls_set st \<inter> bm_set filterBM \<noteq> {}" if "ls_inv st" for st
      using that assms(2) by (cases "ls_bm st") (auto simp: ls_inv_def ls_set_def intersection2_iff list_ex_iff Contains_iff)
    then show ?thesis using assms(1) unfolding lazy_inv_def by blast
  qed
  also have "\<dots> \<longleftrightarrow> lazy_ids d k \<inter> bm_set filterBM \<noteq> {}"
    by (auto simp: lazy_ids_def split: option.splits)
  finally show ?thesis .
qed

lemma lazy_has_iff: "lazy_inv d \<Longrightarrow> lazy_has d key \<longleftrightarrow> lazy_ids d key \<noteq> {}"
  using ls_set_nonempty by (auto simp: lazy_has_def lazy_ids_def lazy_inv_def split: option.splits)

lemma lazy_Keys_iff: "lazy_inv d \<Longrightarrow> k \<in> set (lazy_Keys d) \<longleftrightarrow> lazy_ids d k \<noteq> {}"
  using gokeys_dom [of k d] lazy_has_iff [of d k] by (simp add: lazy_Keys_def lazy_has_def)

text \<open>Every entry is visited with a bitmap of its set, unless the callback fails.\<close>

lemma lazy_forEachBitmap_collect:
  "lazy_forEachBitmap (\<lambda>k bm s. Inr (s @ [(k, bm)])) d s = Inr (s @ map (\<lambda>(k, st). (k, ls_bitmap st)) d)"
  by (induction d arbitrary: s) auto

section \<open>Glob dimensions\<close>

text \<open>The IDs of a key, and which keys a value selects.\<close>

definition glob_ids :: "globDimension \<Rightarrow> string \<Rightarrow> u32 set" where
  "glob_ids gd key = (if IsGlob key then lazy_ids (globs gd) key else lazy_ids (literals gd) key)"

definition keyMatches :: "compiler \<Rightarrow> string \<Rightarrow> string \<Rightarrow> bool" where
  "keyMatches compile key val \<longleftrightarrow> (if IsGlob key then MatchesGlob compile key val else key = val)"

definition indexable :: "compiler \<Rightarrow> string \<Rightarrow> bool" where
  "indexable compile key \<longleftrightarrow> \<not> IsGlob key \<or> GetOrCompileGlob compile key \<noteq> None"

definition glob_inv :: "compiler \<Rightarrow> globDimension \<Rightarrow> bool" where
  "glob_inv compile gd \<longleftrightarrow>
     lazy_inv (literals gd) \<and> lazy_inv (globs gd) \<and> gowf (compiled gd)
     \<and> (\<forall>k. lazy_ids (literals gd) k \<noteq> {} \<longrightarrow> \<not> IsGlob k)
     \<and> (\<forall>k. lazy_ids (globs gd) k \<noteq> {} \<longleftrightarrow> map_of (compiled gd) k \<noteq> None)
     \<and> (\<forall>k p. map_of (compiled gd) k = Some p \<longrightarrow> IsGlob k \<and> GetOrCompileGlob compile k = Some p)"

lemma glob_inv_New [simp]: "glob_inv compile newGlobDimension"
  by (simp add: glob_inv_def newGlobDimension_def)

lemma glob_ids_New [simp]: "glob_ids newGlobDimension k = {}"
  by (simp add: glob_ids_def newGlobDimension_def)

lemma glob_Set_facts:
  assumes "glob_inv compile gd"
  shows "glob_inv compile (glob_Set compile key i gd)"
    and "glob_ids (glob_Set compile key i gd) k =
      (if k = key \<and> indexable compile key then insert i (glob_ids gd k) else glob_ids gd k)"
  using assms
  by (auto simp: glob_Set_def glob_inv_def glob_ids_def indexable_def lazy_Add_facts gomap_simps
      split: option.splits if_splits)

lemma glob_Remove_facts:
  assumes "glob_inv compile gd"
  shows "glob_inv compile (glob_Remove key i gd)"
    and "glob_ids (glob_Remove key i gd) k = (if k = key then glob_ids gd k - {i} else glob_ids gd k)"
  using assms
  by (auto simp: glob_Remove_def glob_inv_def glob_ids_def Let_def lazy_Remove_facts lazy_has_iff gomap_simps
      split: option.splits if_splits)

interpretation glob: id_dimension "glob_Set compile" glob_Remove glob_ids "glob_inv compile" "indexable compile"
  for compile
  by unfold_locales (simp_all add: glob_Set_facts glob_Remove_facts)

definition glob_sel :: "compiler \<Rightarrow> globDimension \<Rightarrow> string \<Rightarrow> u32 set" where
  "glob_sel compile gd val = {i. \<exists>k. keyMatches compile k val \<and> i \<in> glob_ids gd k}"

lemma if_None_eq_Some: "(if c then x else None) = Some b \<longleftrightarrow> c \<and> x = Some b"
  by simp

lemma globParts_facts:
  assumes "glob_inv compile gd"
  shows "list_all bm_inv (globParts gd val)"
    and "i \<in> (\<Union>b \<in> set (globParts gd val). bm_set b) \<longleftrightarrow>
      (\<exists>k. IsGlob k \<and> MatchesGlob compile k val \<and> i \<in> lazy_ids (globs gd) k)"
proof -
  have inv: "lazy_inv (globs gd)" "gowf (compiled gd)" using assms by (auto simp: glob_inv_def)
  show "list_all bm_inv (globParts gd val)"
    unfolding globParts_def
    by (rule list_all_map_filter) (use lazy_Bitmap_facts(1) [OF inv(1)] in \<open>auto split: if_splits\<close>)
  have mem: "b \<in> set (globParts gd val) \<longleftrightarrow>
      (\<exists>k p. map_of (compiled gd) k = Some p \<and> p val \<and> lazy_Bitmap (globs gd) k = Some b)" for b
  proof -
    have "b \<in> set (globParts gd val) \<longleftrightarrow>
        (\<exists>k p. (k, p) \<in> set (compiled gd) \<and> (if p val then lazy_Bitmap (globs gd) k else None) = Some b)"
      unfolding globParts_def set_map_filter_iff by (simp only: split_paired_Ex split_paired_Bex_Sigma Bex_def prod.case)
    then show ?thesis by (simp only: gowf_in_set_iff [OF inv(2)] if_None_eq_Some)
  qed
  have pat: "map_of (compiled gd) k = Some p \<and> p val \<and> lazy_Bitmap (globs gd) k = Some b \<longrightarrow>
      IsGlob k \<and> MatchesGlob compile k val" for k p b
    using assms by (auto simp: glob_inv_def MatchesGlob_def GetOrCompileGlob_def)
  show "i \<in> (\<Union>b \<in> set (globParts gd val). bm_set b) \<longleftrightarrow>
      (\<exists>k. IsGlob k \<and> MatchesGlob compile k val \<and> i \<in> lazy_ids (globs gd) k)"
  proof
    assume "i \<in> (\<Union>b \<in> set (globParts gd val). bm_set b)"
    then obtain k p b where b: "map_of (compiled gd) k = Some p \<and> p val \<and> lazy_Bitmap (globs gd) k = Some b" "i \<in> bm_set b"
      by (auto simp: mem)
    then have "i \<in> lazy_ids (globs gd) k" using lazy_Bitmap_facts(1) [OF inv(1)] by blast
    with pat b show "\<exists>k. IsGlob k \<and> MatchesGlob compile k val \<and> i \<in> lazy_ids (globs gd) k" by blast
  next
    assume "\<exists>k. IsGlob k \<and> MatchesGlob compile k val \<and> i \<in> lazy_ids (globs gd) k"
    then obtain k where k: "MatchesGlob compile k val" "i \<in> lazy_ids (globs gd) k" by blast
    have "lazy_ids (globs gd) k \<noteq> {}" using k(2) by blast
    then obtain p where p: "map_of (compiled gd) k = Some p" "GetOrCompileGlob compile k = Some p"
      using assms unfolding glob_inv_def by blast
    then have "p val" using k(1) by (simp add: MatchesGlob_def GetOrCompileGlob_def)
    obtain b where "lazy_Bitmap (globs gd) k = Some b" "bm_set b = lazy_ids (globs gd) k"
      using lazy_Bitmap_facts [OF inv(1), of k] k(2) by (cases "lazy_Bitmap (globs gd) k") auto
    then have "b \<in> set (globParts gd val)" "i \<in> bm_set b" using p \<open>p val\<close> k(2) mem by auto
    then show "i \<in> (\<Union>b \<in> set (globParts gd val). bm_set b)" by blast
  qed
qed

text \<open>What one value contributes to a query.\<close>

lemma queryParts_facts:
  assumes "glob_inv compile gd"
  shows "list_all bm_inv (valueParts gd val)"
    and "(\<Union>b \<in> set (valueParts gd val). bm_set b) = glob_sel compile gd val"
proof -
  have inv: "lazy_inv (literals gd)" using assms by (simp add: glob_inv_def)
  show "list_all bm_inv (valueParts gd val)"
    using globParts_facts(1) [OF assms(1)] lazy_Bitmap_facts(1) [OF inv]
    by (auto simp: valueParts_def split: option.splits)
  have lit: "(\<Union>b \<in> set (case lazy_Bitmap (literals gd) val of Some bm \<Rightarrow> [bm] | None \<Rightarrow> []). bm_set b) =
      lazy_ids (literals gd) val"
    using lazy_Bitmap_facts [OF inv, of val] by (auto split: option.splits)
  have noglob: "i \<in> lazy_ids (literals gd) val \<Longrightarrow> \<not> IsGlob val" for i
    using assms(1) by (auto simp: glob_inv_def)
  show "(\<Union>b \<in> set (valueParts gd val). bm_set b) = glob_sel compile gd val"
  proof (rule set_eqI)
    fix i
    have "i \<in> (\<Union>b \<in> set (valueParts gd val). bm_set b) \<longleftrightarrow> i \<in> lazy_ids (literals gd) val \<or>
        (\<exists>k. IsGlob k \<and> MatchesGlob compile k val \<and> i \<in> lazy_ids (globs gd) k)"
      unfolding valueParts_def set_append UN_Un lit Un_iff globParts_facts(2) [OF assms(1)] ..
    also have "\<dots> \<longleftrightarrow> i \<in> glob_sel compile gd val"
      using noglob by (auto simp: glob_sel_def keyMatches_def glob_ids_def)
    finally show "i \<in> (\<Union>b \<in> set (valueParts gd val). bm_set b) \<longleftrightarrow> i \<in> glob_sel compile gd val" .
  qed
qed

lemma glob_Query_facts:
  assumes "glob_inv compile gd"
  shows "bm_inv (glob_Query gd val)" and "bm_set (glob_Query gd val) = glob_sel compile gd val"
proof -
  note parts = queryParts_facts [OF assms, of val]
  have eq: "glob_Query gd val = orParts (valueParts gd val)"
    by (simp add: glob_Query_def orParts_def valueParts_def globParts_def List.map_filter_def split: option.splits)
  show "bm_inv (glob_Query gd val)" unfolding eq using parts(1) by (rule bm_inv_orParts)
  show "bm_set (glob_Query gd val) = glob_sel compile gd val"
    unfolding eq bm_set_orParts [OF parts(1)] by (rule parts(2))
qed

lemma glob_QueryMultiple_facts:
  assumes "glob_inv compile gd"
  shows "bm_inv (glob_QueryMultiple gd vals)"
    and "bm_set (glob_QueryMultiple gd vals) = (\<Union>v \<in> set vals. glob_sel compile gd v)"
proof -
  have all: "list_all bm_inv (concat (map (valueParts gd) vals))"
    using queryParts_facts(1) [OF assms] by (induction vals) auto
  then show "bm_inv (glob_QueryMultiple gd vals)"
    unfolding glob_QueryMultiple_def by (rule bm_inv_orParts)
  have "(\<Union>b \<in> set (concat (map (valueParts gd) vals)). bm_set b) = (\<Union>v \<in> set vals. \<Union>b \<in> set (valueParts gd v). bm_set b)"
    by auto
  then show "bm_set (glob_QueryMultiple gd vals) = (\<Union>v \<in> set vals. glob_sel compile gd v)"
    unfolding glob_QueryMultiple_def bm_set_orParts [OF all] queryParts_facts(2) [OF assms] .
qed

lemma glob_Keys_iff:
  assumes "glob_inv compile gd"
  shows "k \<in> set (glob_GetAllKeys gd) \<longleftrightarrow> glob_ids gd k \<noteq> {}"
    and "bm_inv filterBM \<Longrightarrow> k \<in> set (glob_intersectingKeys filterBM gd) \<longleftrightarrow> glob_ids gd k \<inter> bm_set filterBM \<noteq> {}"
proof -
  have inv: "lazy_inv (literals gd)" "lazy_inv (globs gd)"
    and kinds: "lazy_ids (literals gd) k \<noteq> {} \<longrightarrow> \<not> IsGlob k" "lazy_ids (globs gd) k \<noteq> {} \<longrightarrow> IsGlob k"
    using assms by (auto simp: glob_inv_def)
  show "k \<in> set (glob_GetAllKeys gd) \<longleftrightarrow> glob_ids gd k \<noteq> {}"
    using kinds by (auto simp: glob_GetAllKeys_def glob_ids_def lazy_Keys_iff inv)
  show "k \<in> set (glob_intersectingKeys filterBM gd) \<longleftrightarrow> glob_ids gd k \<inter> bm_set filterBM \<noteq> {}" if "bm_inv filterBM"
    using kinds by (auto simp: glob_intersectingKeys_def glob_ids_def lazy_intersectingKeys_iff [OF _ that] inv)
qed

lemma glob_compact_facts:
  assumes "glob_inv compile gd"
  shows "glob_inv compile (glob_compact gd)" and "glob_ids (glob_compact gd) k = glob_ids gd k"
  using assms by (auto simp: glob_compact_def glob_inv_def glob_ids_def lazy_compact_facts)

end
