(* ===== verification/PolicyTypes.thy ===== *)
theory PolicyTypes
  imports Prelude
begin

text \<open>
  The messages of \<^verbatim>\<open>api/private/cerbos/runtime/v1/runtime.proto\<close> and of the public API that the rule table
  works on.  A message pointer that may be nil is an option, a \<^verbatim>\<open>oneof\<close> is a datatype, and a field that no
  code of the rule table looks into (a CEL value that is not a boolean) is kept as an opaque byte string.  The
  checked tree of a CEL expression is not represented: programs are compiled from the source text, so releasing
  or migrating the tree changes no modelled state.
\<close>

section \<open>Enumerations\<close>

datatype Effect = EFFECT_UNSPECIFIED | EFFECT_ALLOW | EFFECT_DENY | EFFECT_NO_MATCH

datatype Kind = KIND_UNSPECIFIED | KIND_DERIVED_ROLES | KIND_EXPORT_VARIABLES | KIND_PRINCIPAL
  | KIND_RESOURCE | KIND_ROLE_POLICY | KIND_EXPORT_CONSTANTS

datatype ScopePermissions = SCOPE_PERMISSIONS_UNSPECIFIED | SCOPE_PERMISSIONS_OVERRIDE_PARENT
  | SCOPE_PERMISSIONS_REQUIRE_PARENTAL_CONSENT_FOR_ALLOWS

section \<open>Expressions, conditions, outputs\<close>

text \<open>A value of a CEL expression; \<open>NilVal\<close> is the Go value nil.\<close>

datatype Val = NilVal | BoolVal bool | OtherVal string

type_synonym vars = "(string, Val) gomap"

record Expr =
  ex_Original :: string

text \<open>\<open>Cond_Unset\<close> is a condition whose \<^verbatim>\<open>op\<close> is not set.\<close>

datatype Condition = Cond_All "Condition list" | Cond_Any "Condition list" | Cond_None "Condition list"
  | Cond_Expr Expr | Cond_Unset

record Output_When =
  RuleActivated :: "Expr option"
  ConditionNotMet :: "Expr option"

record Output =
  out_When :: "Output_When option"

record Variable =
  var_Name :: string
  var_Expr :: Expr

section \<open>Rule rows\<close>

record Params =
  OrderedVariables :: "Variable list"
  Constants :: vars

datatype ActionSet = NoActionSet | ActionSet_Action string | ActionSet_AllowActions "string list"

text \<open>The proto tuple; \<^verbatim>\<open>index.EvaluationKeyTuple\<close> has the same components, interned.\<close>

record EvaluationKeyTuple =
  ek_Prefix :: string
  ek_Resource :: string
  ek_Principal :: string
  ek_Role :: string
  ek_DerivedRole :: string
  ek_Version :: string
  ek_Scope :: string
  ek_RuleName :: string
  ek_RuleID :: u32

record RuleRow =
  rr_OriginFqn :: string
  rr_Resource :: string
  rr_Role :: string
  rr_ActionSet :: ActionSet
  rr_Condition :: "Condition option"
  rr_DerivedRoleCondition :: "Condition option"
  rr_Effect :: Effect
  rr_Scope :: string
  rr_ScopePermissions :: ScopePermissions
  rr_Version :: string
  rr_OriginDerivedRole :: string
  rr_EmitOutput :: "Output option"
  rr_Name :: string
  rr_Principal :: string
  rr_Params :: "Params option"
  rr_DerivedRoleParams :: "Params option"
  rr_EvaluationKey :: string
  rr_PolicyKind :: Kind
  rr_FromRolePolicy :: bool
  rr_EvaluationKeyTuple :: "EvaluationKeyTuple option"

text \<open>Parent roles: for each scope, the direct parents of each role (\<^verbatim>\<open>RoleParentRoles\<close>; \<open>None\<close> is a nil
  message).\<close>

type_synonym RoleParentRoles = "(string, string list) gomap"
type_synonym ScopeParentRoles = "(string, RoleParentRoles option) gomap"

end
