(* ===== verification/RuleIndex.thy ===== *)
theory RuleIndex
  imports Dimension PolicyTypes Namer
begin

text \<open>
  The rule index: \<^verbatim>\<open>core.go\<close>, \<^verbatim>\<open>bitmap_index.go\<close> and \<^verbatim>\<open>index.go\<close> of \<^verbatim>\<open>internal/ruletable/index\<close>.
  Binding handles and cores are values, except for what the code mutates through shared pointers: the
  \<^verbatim>\<open>origins\<close> set of a core and the \<^verbatim>\<open>refcount\<close> of row parameters live in stores of the index, and a
  core or a parameter set holds the address of its cell.
\<close>

section \<open>Interned strings\<close>

text \<open>
  A \<^verbatim>\<open>unique.Handle\<close> of a nonempty string, or the zero handle.  Two handles are equal exactly when
  their strings are, so the records below hold the strings themselves, the empty string being
  \<^verbatim>\<open>EmptyHandle\<close>.
\<close>

definition mkStringHandle :: "string \<Rightarrow> string option" where
  "mkStringHandle s = (if s = '''' then None else Some s)"

definition HandleStr :: "string option \<Rightarrow> string" where
  "HandleStr h = (case h of None \<Rightarrow> '''' | Some s \<Rightarrow> s)"

lemma HandleStr_mk: "HandleStr (mkStringHandle s) = s"
  and mkStringHandle_eq: "mkStringHandle s = mkStringHandle t \<longleftrightarrow> s = t"
  and mkStringHandle_empty: "mkStringHandle s = None \<longleftrightarrow> s = ''''"
  by (auto simp: HandleStr_def mkStringHandle_def)

section \<open>Cores, bindings, parameters (core.go)\<close>

record CelProgram =
  cp_Prog :: string
  cp_Name :: string
  cp_Expr :: string

record RowParams =
  rp_Constants :: vars
  rp_CelPrograms :: "CelProgram list"
  rp_Variables :: "Variable list"
  rp_Key :: u64
  rp_refcount :: nat

record FunctionalCore =
  fc_Condition :: "Condition option"
  fc_DerivedRoleCondition :: "Condition option"
  fc_EmitOutput :: "Output option"
  fc_Params :: "RowParams option"
  fc_DerivedRoleParams :: "RowParams option"
  fc_origins :: "nat option"
  fc_sum :: u64
  fc_Effect :: Effect
  fc_ScopePermissions :: ScopePermissions
  fc_PolicyKind :: Kind
  fc_FromRolePolicy :: bool

record BindingHandle =
  b_Resource :: string
  b_OriginDerivedRole :: string
  b_Action :: string
  b_Role :: string
  b_Scope :: string
  b_Version :: string
  b_Principal :: string
  b_Name :: string
  b_AllowActions :: "string list option"
  b_OriginFqn :: string
  b_Core :: FunctionalCore
  b_AllowActionGlobs :: "string list"
  b_ID :: u32
  b_NoMatchForScopePermissions :: bool

record Binding =
  bd_Core :: FunctionalCore
  bd_AllowActions :: "string list option"
  bd_Role :: string
  bd_Scope :: string
  bd_Version :: string
  bd_Resource :: string
  bd_Action :: string
  bd_Principal :: string
  bd_OriginFqn :: string
  bd_OriginDerivedRole :: string
  bd_Name :: string
  bd_EvaluationKey :: EvaluationKeyTuple
  bd_ID :: u32
  bd_NoMatchForScopePermissions :: bool

text \<open>The zero value a composite literal leaves in the fields it does not name.\<close>

definition zeroCore :: FunctionalCore where
  "zeroCore = \<lparr>fc_Condition = None, fc_DerivedRoleCondition = None, fc_EmitOutput = None, fc_Params = None,
     fc_DerivedRoleParams = None, fc_origins = None, fc_sum = 0, fc_Effect = EFFECT_UNSPECIFIED,
     fc_ScopePermissions = SCOPE_PERMISSIONS_UNSPECIFIED, fc_PolicyKind = KIND_UNSPECIFIED, fc_FromRolePolicy = False\<rparr>"

definition zeroBinding :: BindingHandle where
  "zeroBinding = \<lparr>b_Resource = '''', b_OriginDerivedRole = '''', b_Action = '''', b_Role = '''', b_Scope = '''',
     b_Version = '''', b_Principal = '''', b_Name = '''', b_AllowActions = None, b_OriginFqn = '''', b_Core = zeroCore,
     b_AllowActionGlobs = [], b_ID = 0, b_NoMatchForScopePermissions = False\<rparr>"

definition zeroEvaluationKey :: EvaluationKeyTuple where
  "zeroEvaluationKey = \<lparr>ek_Prefix = '''', ek_Resource = '''', ek_Principal = '''', ek_Role = '''', ek_DerivedRole = '''',
     ek_Version = '''', ek_Scope = '''', ek_RuleName = '''', ek_RuleID = 0\<rparr>"

definition EvaluationKeyTuple_IsZero :: "EvaluationKeyTuple \<Rightarrow> bool" where
  "EvaluationKeyTuple_IsZero t \<longleftrightarrow> t = zeroEvaluationKey"

definition makeEvaluationKeyTuple :: "EvaluationKeyTuple option \<Rightarrow> string \<Rightarrow> EvaluationKeyTuple" where
  "makeEvaluationKeyTuple pb fallbackKey =
     (case pb of None \<Rightarrow> zeroEvaluationKey\<lparr>ek_RuleName := fallbackKey\<rparr> | Some t \<Rightarrow> t)"

definition setAllowActions :: "string list \<Rightarrow> BindingHandle \<Rightarrow> BindingHandle" where
  "setAllowActions actions b =
     fold (\<lambda>a b. b\<lparr>b_AllowActions := map_option (set_add a) (b_AllowActions b),
                  b_AllowActionGlobs := (if IsGlob a then b_AllowActionGlobs b @ [a] else b_AllowActionGlobs b)\<rparr>)
       actions (b\<lparr>b_AllowActions := Some [], b_AllowActionGlobs := []\<rparr>)"

definition allowsAction :: "compiler \<Rightarrow> BindingHandle \<Rightarrow> string \<Rightarrow> bool" where
  "allowsAction compile b action \<longleftrightarrow>
     (case b_AllowActions b of None \<Rightarrow> False | Some as \<Rightarrow> action \<in> set as)
     \<or> list_ex (\<lambda>g. MatchesGlob compile g action) (b_AllowActionGlobs b)"

definition toBinding :: "BindingHandle \<Rightarrow> EvaluationKeyTuple \<Rightarrow> Binding" where
  "toBinding b evalKey =
     \<lparr>bd_Core = b_Core b, bd_AllowActions = b_AllowActions b, bd_Role = b_Role b, bd_Scope = b_Scope b,
      bd_Version = b_Version b, bd_Resource = b_Resource b, bd_Action = b_Action b, bd_Principal = b_Principal b,
      bd_OriginFqn = b_OriginFqn b, bd_OriginDerivedRole = b_OriginDerivedRole b, bd_Name = b_Name b,
      bd_EvaluationKey = evalKey, bd_ID = b_ID b, bd_NoMatchForScopePermissions = b_NoMatchForScopePermissions b\<rparr>"

text \<open>\<^verbatim>\<open>addRef\<close> and \<^verbatim>\<open>removeRef\<close>, on the store of reference counts.\<close>

definition addRef :: "RowParams option \<Rightarrow> int list \<Rightarrow> int list" where
  "addRef p refs = (case p of None \<Rightarrow> refs | Some p \<Rightarrow> refs[rp_refcount p := refs ! rp_refcount p + 1])"

definition removeRef :: "RowParams option \<Rightarrow> (u64, RowParams) gomap \<Rightarrow> int list \<Rightarrow> (u64, RowParams) gomap \<times> int list" where
  "removeRef p m refs =
     (case p of
        None \<Rightarrow> (m, refs)
      | Some p \<Rightarrow>
          let refs = refs[rp_refcount p := refs ! rp_refcount p - 1]
          in (if refs ! rp_refcount p \<le> 0 then AList.delete (rp_Key p) m else m, refs))"

section \<open>The bitmap index (bitmap_index.go)\<close>

record bitmapIndex =
  bi_action :: globDimension
  bi_coresBySum :: "(u64, FunctionalCore) gomap"
  bi_version :: "(string, Bitmap) gomap"
  bi_scope :: "(string, Bitmap) gomap"
  bi_role :: globDimension
  bi_policyKind :: "(Kind, Bitmap) gomap"
  bi_resource :: globDimension
  bi_fqnBindings :: "(string, u32 list) gomap"
  bi_principal :: lazyDimension
  bi_universe :: Bitmap
  bi_allowActionsBitmap :: Bitmap
  bi_freeIDs :: "u32 list"
  bi_bindings :: "BindingHandle option list"
  bi_evalKeys :: "EvaluationKeyTuple list"

definition noEvalKey :: u32 where
  "noEvalKey = - 1"

definition newBitmapIndex :: bitmapIndex where
  "newBitmapIndex = \<lparr>bi_action = newGlobDimension, bi_coresBySum = [], bi_version = [], bi_scope = [],
     bi_role = newGlobDimension, bi_policyKind = [], bi_resource = newGlobDimension, bi_fqnBindings = [],
     bi_principal = [], bi_universe = NewBitmap, bi_allowActionsBitmap = NewBitmap, bi_freeIDs = [],
     bi_bindings = [], bi_evalKeys = []\<rparr>"

definition allocID :: "bitmapIndex \<Rightarrow> u32 \<times> bitmapIndex" where
  "allocID idx =
     (if bi_freeIDs idx \<noteq> [] then (last (bi_freeIDs idx), idx\<lparr>bi_freeIDs := butlast (bi_freeIDs idx)\<rparr>)
      else (of_nat (length (bi_bindings idx)), idx))"

definition freeID :: "u32 \<Rightarrow> bitmapIndex \<Rightarrow> bitmapIndex" where
  "freeID bid idx =
     idx\<lparr>bi_bindings := (bi_bindings idx)[unat bid := None],
         bi_evalKeys := (bi_evalKeys idx)[unat bid := zeroEvaluationKey],
         bi_freeIDs := bi_freeIDs idx @ [bid]\<rparr>"

definition bi_evalKey :: "bitmapIndex \<Rightarrow> u32 \<Rightarrow> EvaluationKeyTuple" where
  "bi_evalKey idx bid = (if bid = noEvalKey then zeroEvaluationKey else bi_evalKeys idx ! unat bid)"

definition bi_compact :: "bitmapIndex \<Rightarrow> bitmapIndex" where
  "bi_compact idx =
     idx\<lparr>bi_version := map (\<lambda>(k, bm). (k, Bitmap_shrinkToFit bm)) (bi_version idx),
         bi_scope := map (\<lambda>(k, bm). (k, Bitmap_shrinkToFit bm)) (bi_scope idx),
         bi_policyKind := map (\<lambda>(k, bm). (k, Bitmap_shrinkToFit bm)) (bi_policyKind idx),
         bi_principal := lazy_compact (bi_principal idx),
         bi_role := glob_compact (bi_role idx),
         bi_action := glob_compact (bi_action idx),
         bi_resource := glob_compact (bi_resource idx),
         bi_universe := Bitmap_shrinkToFit (bi_universe idx),
         bi_allowActionsBitmap := Bitmap_shrinkToFit (bi_allowActionsBitmap idx)\<rparr>"

definition addBinding :: "compiler \<Rightarrow> BindingHandle \<Rightarrow> EvaluationKeyTuple \<Rightarrow> bitmapIndex \<Rightarrow> bitmapIndex" where
  "addBinding compile b evalKey idx =
     (let (bid, idx) = allocID idx;
          b = b\<lparr>b_ID := bid\<rparr>;
          reuse = unat bid < length (bi_bindings idx);
          idx = idx\<lparr>bi_bindings := (if reuse then (bi_bindings idx)[unat bid := Some b] else bi_bindings idx @ [Some b]),
                    bi_evalKeys := (if reuse then (bi_evalKeys idx)[unat bid := evalKey] else bi_evalKeys idx @ [evalKey])\<rparr>;
          idx = idx\<lparr>bi_universe := Bitmap_Add bid (bi_universe idx)\<rparr>;
          idx = idx\<lparr>bi_scope := dim_Add (b_Scope b) bid (bi_scope idx)\<rparr>;
          idx = idx\<lparr>bi_version := (if b_Version b \<noteq> '''' then dim_Add (b_Version b) bid (bi_version idx) else bi_version idx)\<rparr>;
          idx = idx\<lparr>bi_role := (if b_Role b \<noteq> '''' then glob_Set compile (b_Role b) bid (bi_role idx) else bi_role idx)\<rparr>;
          idx = idx\<lparr>bi_resource := (if b_Resource b \<noteq> '''' then glob_Set compile (b_Resource b) bid (bi_resource idx) else bi_resource idx)\<rparr>;
          idx = idx\<lparr>bi_allowActionsBitmap := (if b_AllowActions b \<noteq> None then Bitmap_Add bid (bi_allowActionsBitmap idx)
                      else bi_allowActionsBitmap idx),
                    bi_action := (if b_AllowActions b \<noteq> None then bi_action idx
                      else if b_Action b \<noteq> '''' then glob_Set compile (b_Action b) bid (bi_action idx)
                      else bi_action idx)\<rparr>;
          idx = idx\<lparr>bi_policyKind := dim_Add (fc_PolicyKind (b_Core b)) bid (bi_policyKind idx)\<rparr>;
          idx = idx\<lparr>bi_principal := (if b_Principal b \<noteq> '''' then lazy_Add (b_Principal b) bid (bi_principal idx) else bi_principal idx)\<rparr>
      in idx\<lparr>bi_fqnBindings := fqn_Add (b_OriginFqn b) bid (bi_fqnBindings idx)\<rparr>)"

definition removeBinding :: "BindingHandle \<Rightarrow> bitmapIndex \<Rightarrow> bitmapIndex" where
  "removeBinding b idx =
     (let bid = b_ID b;
          idx = idx\<lparr>bi_universe := Bitmap_Remove bid (bi_universe idx)\<rparr>;
          idx = idx\<lparr>bi_version := dim_Remove (b_Version b) bid (bi_version idx)\<rparr>;
          idx = idx\<lparr>bi_scope := dim_Remove (b_Scope b) bid (bi_scope idx)\<rparr>;
          idx = idx\<lparr>bi_role := glob_Remove (b_Role b) bid (bi_role idx)\<rparr>;
          idx = idx\<lparr>bi_resource := glob_Remove (b_Resource b) bid (bi_resource idx)\<rparr>;
          idx = idx\<lparr>bi_allowActionsBitmap := (if b_AllowActions b \<noteq> None then Bitmap_Remove bid (bi_allowActionsBitmap idx)
                      else bi_allowActionsBitmap idx),
                    bi_action := (if b_AllowActions b \<noteq> None then bi_action idx
                      else if b_Action b \<noteq> '''' then glob_Remove (b_Action b) bid (bi_action idx)
                      else bi_action idx)\<rparr>;
          idx = idx\<lparr>bi_policyKind := dim_Remove (fc_PolicyKind (b_Core b)) bid (bi_policyKind idx)\<rparr>;
          idx = idx\<lparr>bi_principal := lazy_Remove (b_Principal b) bid (bi_principal idx)\<rparr>
      in freeID bid idx)"

text \<open>\<^verbatim>\<open>bindings[id]\<close>; the IDs of the index are always in range (\<open>bi_inv\<close>).\<close>

definition getBinding :: "bitmapIndex \<Rightarrow> u32 \<Rightarrow> BindingHandle option" where
  "getBinding idx bid = (if unat bid < length (bi_bindings idx) then bi_bindings idx ! unat bid else None)"

section \<open>Invariant of the bitmap index\<close>

text \<open>
  Which key a binding has in each dimension, as \<^verbatim>\<open>addBinding\<close> decides it: the empty string is not
  indexed (except as a scope), and neither is a glob that does not compile.
\<close>

definition plainKey :: "string \<Rightarrow> string option" where
  "plainKey s = (if s \<noteq> '''' then Some s else None)"

definition globKey :: "compiler \<Rightarrow> string \<Rightarrow> string option" where
  "globKey compile s = (if s \<noteq> '''' \<and> indexable compile s then Some s else None)"

definition actionKey :: "compiler \<Rightarrow> BindingHandle \<Rightarrow> string option" where
  "actionKey compile b = (if b_AllowActions b = None then globKey compile (b_Action b) else None)"

text \<open>The ID slots: live bindings know their ID, the others are exactly the free IDs.\<close>

definition slots_inv :: "bitmapIndex \<Rightarrow> bool" where
  "slots_inv idx \<longleftrightarrow>
     length (bi_evalKeys idx) = length (bi_bindings idx) \<and> length (bi_bindings idx) < 2 ^ 32
     \<and> (\<forall>i b. getBinding idx i = Some b \<longrightarrow> b_ID b = i)
     \<and> distinct (bi_freeIDs idx)
     \<and> set (bi_freeIDs idx) = {i. unat i < length (bi_bindings idx) \<and> getBinding idx i = None}"

text \<open>Every dimension tracks the binding table.\<close>

definition dims_inv :: "compiler \<Rightarrow> bitmapIndex \<Rightarrow> bool" where
  "dims_inv compile idx \<longleftrightarrow>
     (bm_inv (bi_universe idx) \<and> bm_set (bi_universe idx) = {i. getBinding idx i \<noteq> None})
     \<and> (bm_inv (bi_allowActionsBitmap idx)
         \<and> bm_set (bi_allowActionsBitmap idx) = {i. \<exists>b. getBinding idx i = Some b \<and> b_AllowActions b \<noteq> None})
     \<and> (dim_inv (bi_scope idx) \<and> tracks (dim_ids (bi_scope idx)) (getBinding idx) (\<lambda>b. Some (b_Scope b)))
     \<and> (dim_inv (bi_version idx) \<and> tracks (dim_ids (bi_version idx)) (getBinding idx) (\<lambda>b. plainKey (b_Version b)))
     \<and> (dim_inv (bi_policyKind idx)
         \<and> tracks (dim_ids (bi_policyKind idx)) (getBinding idx) (\<lambda>b. Some (fc_PolicyKind (b_Core b))))
     \<and> (lazy_inv (bi_principal idx) \<and> tracks (lazy_ids (bi_principal idx)) (getBinding idx) (\<lambda>b. plainKey (b_Principal b)))
     \<and> (glob_inv compile (bi_role idx)
         \<and> tracks (glob_ids (bi_role idx)) (getBinding idx) (\<lambda>b. globKey compile (b_Role b)))
     \<and> (glob_inv compile (bi_resource idx)
         \<and> tracks (glob_ids (bi_resource idx)) (getBinding idx) (\<lambda>b. globKey compile (b_Resource b)))
     \<and> (glob_inv compile (bi_action idx) \<and> tracks (glob_ids (bi_action idx)) (getBinding idx) (actionKey compile))"

text \<open>Every binding is listed, once, under the policy it comes from.\<close>

definition origin_inv :: "bitmapIndex \<Rightarrow> bool" where
  "origin_inv idx \<longleftrightarrow>
     gowf (bi_fqnBindings idx)
     \<and> (\<forall>f. distinct (fqn_ids (bi_fqnBindings idx) f)
           \<and> set (fqn_ids (bi_fqnBindings idx) f) = {i. \<exists>b. getBinding idx i = Some b \<and> b_OriginFqn b = f})"

definition bi_inv :: "compiler \<Rightarrow> bitmapIndex \<Rightarrow> bool" where
  "bi_inv compile idx \<longleftrightarrow> slots_inv idx \<and> dims_inv compile idx \<and> origin_inv idx"

lemma tracks_Nil [simp]: "tracks (\<lambda>k. {}) (\<lambda>i. None) f"
  by (simp add: tracks_def)

lemma bi_inv_new: "bi_inv compile newBitmapIndex"
  by (auto simp: bi_inv_def slots_inv_def dims_inv_def origin_inv_def newBitmapIndex_def getBinding_def
      tracks_def dim_ids_def fqn_ids_def)

subsection \<open>Adding a binding\<close>

text \<open>\<^verbatim>\<open>addBinding\<close>, field by field, once the ID is known.\<close>

lemma addBinding_fields:
  fixes compile :: compiler and b :: BindingHandle and ek :: EvaluationKeyTuple
  assumes "allocID idx = (bid, idx0)"
  defines "b' \<equiv> b\<lparr>b_ID := bid\<rparr>" and "r \<equiv> addBinding compile b ek idx"
  shows "bi_bindings r = (if unat bid < length (bi_bindings idx0) then (bi_bindings idx0)[unat bid := Some b'] else bi_bindings idx0 @ [Some b'])"
    and "bi_evalKeys r = (if unat bid < length (bi_bindings idx0) then (bi_evalKeys idx0)[unat bid := ek] else bi_evalKeys idx0 @ [ek])"
    and "bi_freeIDs r = bi_freeIDs idx0"
    and "bi_universe r = Bitmap_Add bid (bi_universe idx0)"
    and "bi_allowActionsBitmap r = (if b_AllowActions b \<noteq> None then Bitmap_Add bid (bi_allowActionsBitmap idx0) else bi_allowActionsBitmap idx0)"
    and "bi_scope r = dim_Add (b_Scope b) bid (bi_scope idx0)"
    and "bi_version r = (if b_Version b \<noteq> '''' then dim_Add (b_Version b) bid (bi_version idx0) else bi_version idx0)"
    and "bi_policyKind r = dim_Add (fc_PolicyKind (b_Core b)) bid (bi_policyKind idx0)"
    and "bi_principal r = (if b_Principal b \<noteq> '''' then lazy_Add (b_Principal b) bid (bi_principal idx0) else bi_principal idx0)"
    and "bi_role r = (if b_Role b \<noteq> '''' then glob_Set compile (b_Role b) bid (bi_role idx0) else bi_role idx0)"
    and "bi_resource r = (if b_Resource b \<noteq> '''' then glob_Set compile (b_Resource b) bid (bi_resource idx0) else bi_resource idx0)"
    and "bi_action r = (if b_AllowActions b = None \<and> b_Action b \<noteq> '''' then glob_Set compile (b_Action b) bid (bi_action idx0) else bi_action idx0)"
    and "bi_fqnBindings r = fqn_Add (b_OriginFqn b) bid (bi_fqnBindings idx0)"
    and "bi_coresBySum r = bi_coresBySum idx0"
  by (simp_all add: r_def b'_def addBinding_def assms(1) Let_def)

text \<open>There is room for one more binding: an ID was freed, or the ID space is not used up.\<close>

definition hasRoom :: "bitmapIndex \<Rightarrow> bool" where
  "hasRoom idx \<longleftrightarrow> bi_freeIDs idx \<noteq> [] \<or> length (bi_bindings idx) + 1 < 2 ^ 32"

lemma allocID_facts:
  assumes "slots_inv idx" and "hasRoom idx" and "allocID idx = (bid, idx0)"
  shows "idx0 = idx\<lparr>bi_freeIDs := butlast (bi_freeIDs idx)\<rparr>" and "getBinding idx bid = None"
    and "unat bid < length (bi_bindings idx) \<longleftrightarrow> bi_freeIDs idx \<noteq> []"
    and "bi_freeIDs idx = [] \<Longrightarrow> unat bid = length (bi_bindings idx)"
    and "bi_freeIDs idx \<noteq> [] \<Longrightarrow> bi_freeIDs idx = butlast (bi_freeIDs idx) @ [bid]"
proof -
  have "idx0 = idx\<lparr>bi_freeIDs := butlast (bi_freeIDs idx)\<rparr> \<and> getBinding idx bid = None \<and>
    (unat bid < length (bi_bindings idx) \<longleftrightarrow> bi_freeIDs idx \<noteq> []) \<and>
    (bi_freeIDs idx = [] \<longrightarrow> unat bid = length (bi_bindings idx)) \<and>
    (bi_freeIDs idx \<noteq> [] \<longrightarrow> bi_freeIDs idx = butlast (bi_freeIDs idx) @ [bid])"
  proof (cases "bi_freeIDs idx = []")
    case True
    then have "bid = of_nat (length (bi_bindings idx))" "idx0 = idx" "length (bi_bindings idx) < 2 ^ 32"
      using assms by (auto simp: allocID_def hasRoom_def)
    then have "unat bid = length (bi_bindings idx)" by (simp add: unat_of_nat)
    with True \<open>idx0 = idx\<close> show ?thesis by (simp add: getBinding_def)
  next
    case False
    then have "bid = last (bi_freeIDs idx)" "idx0 = idx\<lparr>bi_freeIDs := butlast (bi_freeIDs idx)\<rparr>"
      using assms(3) by (auto simp: allocID_def)
    moreover from False have "last (bi_freeIDs idx) \<in> set (bi_freeIDs idx)" by simp
    ultimately show ?thesis using assms(1) False by (auto simp: slots_inv_def)
  qed
  then show "idx0 = idx\<lparr>bi_freeIDs := butlast (bi_freeIDs idx)\<rparr>" and "getBinding idx bid = None"
    and "unat bid < length (bi_bindings idx) \<longleftrightarrow> bi_freeIDs idx \<noteq> []"
    and "bi_freeIDs idx = [] \<Longrightarrow> unat bid = length (bi_bindings idx)"
    and "bi_freeIDs idx \<noteq> [] \<Longrightarrow> bi_freeIDs idx = butlast (bi_freeIDs idx) @ [bid]" by auto
qed

lemma getBinding_addBinding:
  assumes "slots_inv idx" and "hasRoom idx" and "allocID idx = (bid, idx0)"
  shows "getBinding (addBinding compile b ek idx) = (getBinding idx)(bid \<mapsto> b\<lparr>b_ID := bid\<rparr>)"
proof (rule ext)
  fix i
  note alloc = allocID_facts [OF assms]
  have eq: "i = bid \<longleftrightarrow> unat i = unat bid" by (simp only: word_unat_eq_iff)
  show "getBinding (addBinding compile b ek idx) i = ((getBinding idx)(bid \<mapsto> b\<lparr>b_ID := bid\<rparr>)) i"
  proof (cases "bi_freeIDs idx = []")
    case True
    then have "unat bid = length (bi_bindings idx)" by (rule alloc(4))
    then show ?thesis
      using alloc(1) eq by (auto simp: getBinding_def addBinding_fields(1) [OF assms(3)] nth_append)
  next
    case False
    then have "unat bid < length (bi_bindings idx)" using alloc(3) by simp
    then show ?thesis
      using alloc(1) eq by (auto simp: getBinding_def addBinding_fields(1) [OF assms(3)])
  qed
qed

lemma slots_inv_addBinding:
  assumes "slots_inv idx" and "hasRoom idx"
  shows "slots_inv (addBinding compile b ek idx)"
proof -
  obtain bid idx0 where alloc_eq: "allocID idx = (bid, idx0)" by fastforce
  note alloc = allocID_facts [OF assms alloc_eq]
  note fields = addBinding_fields [OF alloc_eq]
  have get: "getBinding (addBinding compile b ek idx) = (getBinding idx)(bid \<mapsto> b\<lparr>b_ID := bid\<rparr>)"
    by (rule getBinding_addBinding [OF assms alloc_eq])
  show ?thesis
  proof (cases "bi_freeIDs idx = []")
    case True
    then have len: "unat bid = length (bi_bindings idx)" by (rule alloc(4))
    have range: "unat i < Suc (length (bi_bindings idx)) \<longleftrightarrow> unat i < length (bi_bindings idx) \<or> i = bid" for i :: u32
      unfolding len [symmetric] by (simp only: less_Suc_eq word_unat_eq_iff)
    have "{i. unat i < length (bi_bindings idx) \<and> getBinding idx i = None} = {}"
      using assms(1) True by (simp add: slots_inv_def)
    moreover have "\<forall>i b. getBinding idx i = Some b \<longrightarrow> b_ID b = i" using assms(1) by (simp add: slots_inv_def)
    ultimately show ?thesis
      using assms True len alloc(1) unfolding slots_inv_def get
      by (simp add: fields(1-3) hasRoom_def range)
  next
    case False
    then have lt: "unat bid < length (bi_bindings idx)" and "bi_freeIDs idx = butlast (bi_freeIDs idx) @ [bid]"
      using alloc(3,5) by auto
    then obtain fs where free: "bi_freeIDs idx = fs @ [bid]" by blast
    have old: "distinct (fs @ [bid])" "set (fs @ [bid]) = {i. unat i < length (bi_bindings idx) \<and> getBinding idx i = None}"
      "\<forall>i b. getBinding idx i = Some b \<longrightarrow> b_ID b = i"
      "length (bi_evalKeys idx) = length (bi_bindings idx)" "length (bi_bindings idx) < 2 ^ 32"
      using assms(1) free by (auto simp only: slots_inv_def)
    have "set fs = {i. unat i < length (bi_bindings idx) \<and> ((getBinding idx)(bid \<mapsto> b\<lparr>b_ID := bid\<rparr>)) i = None}"
      using old(1,2) by auto
    then show ?thesis
      using lt alloc(1) free old unfolding slots_inv_def get by (simp add: fields(1-3))
  qed
qed

lemma bi_freeIDs_sel:
  "bi_bindings (idx\<lparr>bi_freeIDs := x\<rparr>) = bi_bindings idx" "bi_universe (idx\<lparr>bi_freeIDs := x\<rparr>) = bi_universe idx"
  "bi_allowActionsBitmap (idx\<lparr>bi_freeIDs := x\<rparr>) = bi_allowActionsBitmap idx" "bi_scope (idx\<lparr>bi_freeIDs := x\<rparr>) = bi_scope idx"
  "bi_version (idx\<lparr>bi_freeIDs := x\<rparr>) = bi_version idx" "bi_policyKind (idx\<lparr>bi_freeIDs := x\<rparr>) = bi_policyKind idx"
  "bi_principal (idx\<lparr>bi_freeIDs := x\<rparr>) = bi_principal idx" "bi_role (idx\<lparr>bi_freeIDs := x\<rparr>) = bi_role idx"
  "bi_resource (idx\<lparr>bi_freeIDs := x\<rparr>) = bi_resource idx" "bi_action (idx\<lparr>bi_freeIDs := x\<rparr>) = bi_action idx"
  "bi_fqnBindings (idx\<lparr>bi_freeIDs := x\<rparr>) = bi_fqnBindings idx" "bi_evalKeys (idx\<lparr>bi_freeIDs := x\<rparr>) = bi_evalKeys idx"
  by simp_all

lemma dims_invD:
  assumes "dims_inv compile idx"
  shows "bm_inv (bi_universe idx)" and "bm_set (bi_universe idx) = {i. getBinding idx i \<noteq> None}"
    and "bm_inv (bi_allowActionsBitmap idx)"
    and "bm_set (bi_allowActionsBitmap idx) = {i. \<exists>b. getBinding idx i = Some b \<and> b_AllowActions b \<noteq> None}"
    and "dim_inv (bi_scope idx)" and "tracks (dim_ids (bi_scope idx)) (getBinding idx) (\<lambda>b. Some (b_Scope b))"
    and "dim_inv (bi_version idx)" and "tracks (dim_ids (bi_version idx)) (getBinding idx) (\<lambda>b. plainKey (b_Version b))"
    and "dim_inv (bi_policyKind idx)"
    and "tracks (dim_ids (bi_policyKind idx)) (getBinding idx) (\<lambda>b. Some (fc_PolicyKind (b_Core b)))"
    and "lazy_inv (bi_principal idx)"
    and "tracks (lazy_ids (bi_principal idx)) (getBinding idx) (\<lambda>b. plainKey (b_Principal b))"
    and "glob_inv compile (bi_role idx)"
    and "tracks (glob_ids (bi_role idx)) (getBinding idx) (\<lambda>b. globKey compile (b_Role b))"
    and "glob_inv compile (bi_resource idx)"
    and "tracks (glob_ids (bi_resource idx)) (getBinding idx) (\<lambda>b. globKey compile (b_Resource b))"
    and "glob_inv compile (bi_action idx)" and "tracks (glob_ids (bi_action idx)) (getBinding idx) (actionKey compile)"
  using assms unfolding dims_inv_def by blast+

lemma dims_inv_addBinding:
  assumes "slots_inv idx" and "hasRoom idx" and "dims_inv compile idx"
  shows "dims_inv compile (addBinding compile b ek idx)"
proof -
  obtain bid idx0 where alloc_eq: "allocID idx = (bid, idx0)" by fastforce
  note alloc = allocID_facts [OF assms(1,2) alloc_eq]
  note fields = addBinding_fields [OF alloc_eq, unfolded alloc(1) bi_freeIDs_sel]
  let ?B = "getBinding idx" and ?b = "b\<lparr>b_ID := bid\<rparr>" and ?r = "addBinding compile b ek idx"
  have get: "getBinding ?r = ?B(bid \<mapsto> ?b)" by (rule getBinding_addBinding [OF assms(1,2) alloc_eq])
  note D = dims_invD [OF assms(3)] and none = alloc(2)
  have "bm_set (bi_universe ?r) = {i. getBinding ?r i \<noteq> None}"
    unfolding get fields by (auto simp: bm_set_Add D(1,2))
  moreover have "bm_inv (bi_universe ?r)" unfolding fields by (simp add: bm_inv_Add D(1))
  moreover have "bm_inv (bi_allowActionsBitmap ?r)" unfolding fields by (simp add: bm_inv_Add D(3))
  moreover have "bm_set (bi_allowActionsBitmap ?r) = {i. \<exists>b. getBinding ?r i = Some b \<and> b_AllowActions b \<noteq> None}"
    unfolding get fields using none by (auto simp: bm_set_Add D(3,4))
  moreover have "dim_inv (bi_scope ?r)" "dim_inv (bi_version ?r)" "dim_inv (bi_policyKind ?r)" "lazy_inv (bi_principal ?r)"
    unfolding fields by (simp_all add: exact.inv_add lazy.inv_add D)
  moreover have "glob_inv compile (bi_role ?r)" "glob_inv compile (bi_resource ?r)" "glob_inv compile (bi_action ?r)"
    unfolding fields by (simp_all add: glob.inv_add D)
  moreover have "tracks (dim_ids (bi_scope ?r)) (getBinding ?r) (\<lambda>b. Some (b_Scope b))"
    using exact.tracks_add [OF D(5,6) none, of ?b True "b_Scope b"] unfolding get fields by simp
  moreover have "tracks (dim_ids (bi_version ?r)) (getBinding ?r) (\<lambda>b. plainKey (b_Version b))"
    unfolding get fields using D(7,8) none by (rule exact.tracks_add) (simp add: plainKey_def)
  moreover have "tracks (dim_ids (bi_policyKind ?r)) (getBinding ?r) (\<lambda>b. Some (fc_PolicyKind (b_Core b)))"
    using exact.tracks_add [OF D(9,10) none, of ?b True "fc_PolicyKind (b_Core b)"] unfolding get fields by simp
  moreover have "tracks (lazy_ids (bi_principal ?r)) (getBinding ?r) (\<lambda>b. plainKey (b_Principal b))"
    unfolding get fields using D(11,12) none by (rule lazy.tracks_add) (simp add: plainKey_def)
  moreover have "tracks (glob_ids (bi_role ?r)) (getBinding ?r) (\<lambda>b. globKey compile (b_Role b))"
    unfolding get fields using D(13,14) none by (rule glob.tracks_add) (simp add: globKey_def)
  moreover have "tracks (glob_ids (bi_resource ?r)) (getBinding ?r) (\<lambda>b. globKey compile (b_Resource b))"
    unfolding get fields using D(15,16) none by (rule glob.tracks_add) (simp add: globKey_def)
  moreover have "tracks (glob_ids (bi_action ?r)) (getBinding ?r) (actionKey compile)"
    unfolding get fields using D(17,18) none by (rule glob.tracks_add) (simp add: globKey_def actionKey_def)
  ultimately show ?thesis unfolding dims_inv_def by blast
qed

lemma bi_inv_addBinding [inv_intros]:
  assumes "bi_inv compile idx" and "hasRoom idx"
  shows "bi_inv compile (addBinding compile b ek idx)"
proof -
  have inv: "slots_inv idx" "dims_inv compile idx" "origin_inv idx" using assms(1) by (auto simp: bi_inv_def)
  obtain bid idx0 where alloc_eq: "allocID idx = (bid, idx0)" by fastforce
  note alloc = allocID_facts [OF inv(1) assms(2) alloc_eq]
  have get: "getBinding (addBinding compile b ek idx) = (getBinding idx)(bid \<mapsto> b\<lparr>b_ID := bid\<rparr>)"
    by (rule getBinding_addBinding [OF inv(1) assms(2) alloc_eq])
  have fqn: "bi_fqnBindings (addBinding compile b ek idx) = fqn_Add (b_OriginFqn b) bid (bi_fqnBindings idx)"
    using addBinding_fields(13) [OF alloc_eq] alloc(1) by simp
  have wf: "gowf (fqn_Add (b_OriginFqn b) bid (bi_fqnBindings idx))"
    using inv(3) by (simp add: origin_inv_def fqn_Add_def split: option.splits)
  have "origin_inv (addBinding compile b ek idx)"
    unfolding origin_inv_def fqn fqn_Add_ids get
  proof (intro conjI allI wf)
    fix f
    have old: "distinct (fqn_ids (bi_fqnBindings idx) f)"
      "set (fqn_ids (bi_fqnBindings idx) f) = {i. \<exists>b. getBinding idx i = Some b \<and> b_OriginFqn b = f}"
      using inv(3) by (auto simp: origin_inv_def)
    have "bid \<notin> set (fqn_ids (bi_fqnBindings idx) f)" using alloc(2) old(2) by simp
    then show "distinct (if f = b_OriginFqn b then fqn_ids (bi_fqnBindings idx) f @ [bid] else fqn_ids (bi_fqnBindings idx) f)"
      using old(1) by (cases "f = b_OriginFqn b") auto
    show "set (if f = b_OriginFqn b then fqn_ids (bi_fqnBindings idx) f @ [bid] else fqn_ids (bi_fqnBindings idx) f) =
        {i. \<exists>b'. ((getBinding idx)(bid \<mapsto> b\<lparr>b_ID := bid\<rparr>)) i = Some b' \<and> b_OriginFqn b' = f}"
      using alloc(2) old(2) by (cases "f = b_OriginFqn b") auto
  qed
  then show ?thesis
    using slots_inv_addBinding [OF inv(1) assms(2)] dims_inv_addBinding [OF inv(1) assms(2) inv(2)]
    by (simp add: bi_inv_def)
qed

subsection \<open>Removing a binding\<close>

lemma removeBinding_fields:
  fixes b :: BindingHandle and idx :: bitmapIndex
  defines "bid \<equiv> b_ID b" and "r \<equiv> removeBinding b idx"
  shows "bi_bindings r = (bi_bindings idx)[unat bid := None]"
    and "bi_evalKeys r = (bi_evalKeys idx)[unat bid := zeroEvaluationKey]"
    and "bi_freeIDs r = bi_freeIDs idx @ [bid]"
    and "bi_universe r = Bitmap_Remove bid (bi_universe idx)"
    and "bi_allowActionsBitmap r = (if b_AllowActions b \<noteq> None then Bitmap_Remove bid (bi_allowActionsBitmap idx) else bi_allowActionsBitmap idx)"
    and "bi_scope r = dim_Remove (b_Scope b) bid (bi_scope idx)"
    and "bi_version r = dim_Remove (b_Version b) bid (bi_version idx)"
    and "bi_policyKind r = dim_Remove (fc_PolicyKind (b_Core b)) bid (bi_policyKind idx)"
    and "bi_principal r = lazy_Remove (b_Principal b) bid (bi_principal idx)"
    and "bi_role r = glob_Remove (b_Role b) bid (bi_role idx)"
    and "bi_resource r = glob_Remove (b_Resource b) bid (bi_resource idx)"
    and "bi_action r = (if b_AllowActions b = None \<and> b_Action b \<noteq> '''' then glob_Remove (b_Action b) bid (bi_action idx) else bi_action idx)"
    and "bi_fqnBindings r = bi_fqnBindings idx"
    and "bi_coresBySum r = bi_coresBySum idx"
  by (simp_all add: r_def bid_def removeBinding_def freeID_def Let_def)

lemma getBinding_in_range: "getBinding idx i = Some b \<Longrightarrow> unat i < length (bi_bindings idx)"
  by (simp add: getBinding_def split: if_splits)

lemma getBinding_removeBinding:
  assumes "getBinding idx (b_ID b) = Some b"
  shows "getBinding (removeBinding b idx) = (getBinding idx)(b_ID b := None)"
proof (rule ext)
  fix i
  have "i = b_ID b \<longleftrightarrow> unat i = unat (b_ID b)" by (simp only: word_unat_eq_iff)
  then show "getBinding (removeBinding b idx) i = ((getBinding idx)(b_ID b := None)) i"
    by (auto simp: getBinding_def removeBinding_fields nth_list_update)
qed

lemma slots_inv_removeBinding:
  assumes "slots_inv idx" and "getBinding idx (b_ID b) = Some b"
  shows "slots_inv (removeBinding b idx)"
proof -
  let ?i = "b_ID b"
  have old: "length (bi_evalKeys idx) = length (bi_bindings idx)" "length (bi_bindings idx) < 2 ^ 32"
    "\<forall>i b. getBinding idx i = Some b \<longrightarrow> b_ID b = i" "distinct (bi_freeIDs idx)"
    "set (bi_freeIDs idx) = {i. unat i < length (bi_bindings idx) \<and> getBinding idx i = None}"
    using assms(1) unfolding slots_inv_def by blast+
  have new: "?i \<notin> set (bi_freeIDs idx)" using assms(2) old(5) by simp
  have set: "insert ?i (set (bi_freeIDs idx)) =
      {i. unat i < length (bi_bindings idx) \<and> ((getBinding idx)(?i := None)) i = None}"
  proof (rule set_eqI)
    fix i
    show "i \<in> insert ?i (set (bi_freeIDs idx)) \<longleftrightarrow>
        i \<in> {i. unat i < length (bi_bindings idx) \<and> ((getBinding idx)(?i := None)) i = None}"
      using getBinding_in_range [OF assms(2)] old(5) by (cases "i = ?i") simp_all
  qed
  have ids: "\<forall>i b'. ((getBinding idx)(?i := None)) i = Some b' \<longrightarrow> b_ID b' = i"
  proof (intro allI impI)
    fix i b'
    assume "((getBinding idx)(?i := None)) i = Some b'"
    then have "getBinding idx i = Some b'" by (simp split: if_splits)
    with old(3) show "b_ID b' = i" by blast
  qed
  show ?thesis
    unfolding slots_inv_def getBinding_removeBinding [OF assms(2)] removeBinding_fields
  proof (intro conjI)
    show "length ((bi_evalKeys idx)[unat ?i := zeroEvaluationKey]) = length ((bi_bindings idx)[unat ?i := None])"
      "length ((bi_bindings idx)[unat ?i := None]) < 2 ^ 32"
      using old(1,2) by simp_all
    show "distinct (bi_freeIDs idx @ [?i])" using old(4) new by simp
    show "set (bi_freeIDs idx @ [?i]) =
        {i. unat i < length ((bi_bindings idx)[unat ?i := None]) \<and> ((getBinding idx)(?i := None)) i = None}"
      using set by simp
  qed (rule ids)
qed

lemma dims_inv_removeBinding:
  assumes "dims_inv compile idx" and some: "getBinding idx (b_ID b) = Some b"
  shows "dims_inv compile (removeBinding b idx)"
proof -
  let ?r = "removeBinding b idx"
  note D = dims_invD [OF assms(1)] and get = getBinding_removeBinding [OF some] and fields = removeBinding_fields
  have "bm_set (bi_universe ?r) = {i. getBinding ?r i \<noteq> None}"
    unfolding get fields by (auto simp: bm_set_Remove D(1,2))
  moreover have "bm_inv (bi_universe ?r)" unfolding fields by (simp add: bm_inv_Remove D(1))
  moreover have "bm_inv (bi_allowActionsBitmap ?r)" unfolding fields by (simp add: bm_inv_Remove D(3))
  moreover have "bm_set (bi_allowActionsBitmap ?r) = {i. \<exists>b. getBinding ?r i = Some b \<and> b_AllowActions b \<noteq> None}"
    unfolding get fields using some by (auto simp: bm_set_Remove D(3,4))
  moreover have "dim_inv (bi_scope ?r)" "dim_inv (bi_version ?r)" "dim_inv (bi_policyKind ?r)" "lazy_inv (bi_principal ?r)"
    unfolding fields by (simp_all add: exact.inv_remove lazy.inv_remove D)
  moreover have "glob_inv compile (bi_role ?r)" "glob_inv compile (bi_resource ?r)" "glob_inv compile (bi_action ?r)"
    unfolding fields by (simp_all add: glob.inv_remove D)
  moreover have "tracks (dim_ids (bi_scope ?r)) (getBinding ?r) (\<lambda>b. Some (b_Scope b))"
    unfolding get fields using D(5,6) some by (rule exact.tracks_remove) simp
  moreover have "tracks (dim_ids (bi_version ?r)) (getBinding ?r) (\<lambda>b. plainKey (b_Version b))"
    unfolding get fields using D(7,8) some by (rule exact.tracks_remove) (simp add: plainKey_def)
  moreover have "tracks (dim_ids (bi_policyKind ?r)) (getBinding ?r) (\<lambda>b. Some (fc_PolicyKind (b_Core b)))"
    unfolding get fields using D(9,10) some by (rule exact.tracks_remove) simp
  moreover have "tracks (lazy_ids (bi_principal ?r)) (getBinding ?r) (\<lambda>b. plainKey (b_Principal b))"
    unfolding get fields using D(11,12) some by (rule lazy.tracks_remove) (simp add: plainKey_def)
  moreover have "tracks (glob_ids (bi_role ?r)) (getBinding ?r) (\<lambda>b. globKey compile (b_Role b))"
    unfolding get fields using D(13,14) some by (rule glob.tracks_remove) (simp add: globKey_def)
  moreover have "tracks (glob_ids (bi_resource ?r)) (getBinding ?r) (\<lambda>b. globKey compile (b_Resource b))"
    unfolding get fields using D(15,16) some by (rule glob.tracks_remove) (simp add: globKey_def)
  moreover have "tracks (glob_ids (bi_action ?r)) (getBinding ?r) (actionKey compile)"
  proof (cases "b_AllowActions b = None \<and> b_Action b \<noteq> ''''")
    case True
    have "tracks (glob_ids (glob_Remove (b_Action b) (b_ID b) (bi_action idx))) ((getBinding idx)(b_ID b := None)) (actionKey compile)"
      using D(17,18) some by (rule glob.tracks_remove) (use True in \<open>simp add: globKey_def actionKey_def\<close>)
    then show ?thesis using True unfolding get fields by simp
  next
    case False
    then have "actionKey compile b = None" by (auto simp: actionKey_def globKey_def)
    moreover have eq: "bi_action ?r = bi_action idx" using False unfolding fields by auto
    ultimately show ?thesis
      using tracks_forget [OF D(18) some] unfolding get eq by simp
  qed
  ultimately show ?thesis unfolding dims_inv_def by blast
qed

end
