(* ===== verification/Index.thy ===== *)
theory Index
  imports RuleIndex
begin

text \<open>
  The rule index's API, \<^verbatim>\<open>internal/ruletable/index/index.go\<close>: indexing and deleting policies, the queries of the
  evaluator and of the planner, and the parent roles.  What the code takes from packages outside the
  sources is collected in the record \<open>Ext\<close>.
\<close>

section \<open>State\<close>

text \<open>
  \<open>ext_compile\<close> is \<^verbatim>\<open>glob.Compile\<close>, \<open>ext_celCompile\<close> compiles a CEL expression to a program (\<open>None\<close> is an error),
  \<open>ext_hashRow\<close> hashes the functional fields of a rule row followed by a discriminator byte, and
  \<open>ext_hashParams\<close> hashes a parameter message.
\<close>

record Ext =
  ext_compile :: compiler
  ext_celCompile :: "string \<Rightarrow> string option"
  ext_hashRow :: "RuleRow \<Rightarrow> u8 \<Rightarrow> u64"
  ext_hashParams :: "Params option \<Rightarrow> u64"

text \<open>\<open>ix_origins\<close> and \<open>ix_refcounts\<close> are the stores of the mutable cells that cores and parameters point to.\<close>

record Index =
  ix_bi :: bitmapIndex
  ix_parentRoles :: "(string, (string, string list) gomap) gomap"
  ix_paramsCache :: "(u64, RowParams) gomap"
  ix_drParamsCache :: "(u64, RowParams) gomap"
  ix_origins :: "string list list"
  ix_refcounts :: "int list"

definition New :: Index where
  "New = \<lparr>ix_bi = newBitmapIndex, ix_parentRoles = [], ix_paramsCache = [], ix_drParamsCache = [],
     ix_origins = [], ix_refcounts = []\<rparr>"

definition Compact :: "Index \<Rightarrow> Index" where
  "Compact m = m\<lparr>ix_bi := bi_compact (ix_bi m)\<rparr>"

section \<open>Indexing rules\<close>

definition getCelPrograms :: "Ext \<Rightarrow> Variable list \<Rightarrow> CelProgram list option" where
  "getCelPrograms E vars =
     those (map (\<lambda>v. map_option (\<lambda>p. \<lparr>cp_Prog = p, cp_Name = var_Name v, cp_Expr = ex_Original (var_Expr v)\<rparr>)
                      (ext_celCompile E (ex_Original (var_Expr v)))) vars)"

definition paramVariables :: "Params option \<Rightarrow> Variable list" where
  "paramVariables p = (case p of None \<Rightarrow> [] | Some p \<Rightarrow> OrderedVariables p)"

definition paramConstants :: "Params option \<Rightarrow> vars" where
  "paramConstants p = (case p of None \<Rightarrow> [] | Some p \<Rightarrow> Constants p)"

text \<open>The result (\<open>None\<close> is a CEL compilation error), the cache and the store of reference counts.\<close>

definition getOrGenerateParams ::
  "Ext \<Rightarrow> (u64, RowParams) gomap \<Rightarrow> int list \<Rightarrow> Params option \<Rightarrow> RowParams option \<times> (u64, RowParams) gomap \<times> int list" where
  "getOrGenerateParams E cache refs proto =
     (let h = ext_hashParams E proto
      in case map_of cache h of
           Some cached \<Rightarrow> (Some cached, cache, refs)
         | None \<Rightarrow> (case getCelPrograms E (paramVariables proto) of
             None \<Rightarrow> (None, cache, refs)
           | Some progs \<Rightarrow>
               let params = \<lparr>rp_Constants = paramConstants proto, rp_CelPrograms = progs,
                             rp_Variables = paramVariables proto, rp_Key = h, rp_refcount = length refs\<rparr>
               in (Some params, AList.update h params cache, refs @ [0])))"

text \<open>The parameters a row needs, by its policy kind: \<open>None\<close> is an error, an inner \<open>None\<close> a nil pointer.\<close>

definition indexParams :: "Ext \<Rightarrow> RuleRow \<Rightarrow> Index \<Rightarrow> (RowParams option \<times> RowParams option) option \<times> Index" where
  "indexParams E rule m =
     (if rr_PolicyKind rule = KIND_RESOURCE \<or> rr_PolicyKind rule = KIND_PRINCIPAL
      then let (p, cache, refs) = getOrGenerateParams E (ix_paramsCache m) (ix_refcounts m) (rr_Params rule);
               m = m\<lparr>ix_paramsCache := cache, ix_refcounts := refs\<rparr>
        in case p of
             None \<Rightarrow> (None, m)
           | Some params \<Rightarrow>
               if rr_PolicyKind rule = KIND_RESOURCE \<and> rr_OriginDerivedRole rule \<noteq> ''''
               then let (dp, drCache, refs) = getOrGenerateParams E (ix_drParamsCache m) (ix_refcounts m) (rr_DerivedRoleParams rule);
                        m = m\<lparr>ix_drParamsCache := drCache, ix_refcounts := refs\<rparr>
                 in case dp of None \<Rightarrow> (None, m) | Some drParams \<Rightarrow> (Some (Some params, Some drParams), m)
               else (Some (Some params, None), m)
      else (Some (None, None), m))"

definition condDisc :: "RuleRow \<Rightarrow> u8" where
  "condDisc rule =
     (if rr_Condition rule \<noteq> None then 1 else 0) + (if rr_DerivedRoleCondition rule \<noteq> None then 2 else 0)"

definition newCore :: "RuleRow \<Rightarrow> RowParams option \<Rightarrow> RowParams option \<Rightarrow> nat \<Rightarrow> u64 \<Rightarrow> FunctionalCore" where
  "newCore rule params drParams origins funcSum =
     \<lparr>fc_Condition = rr_Condition rule, fc_DerivedRoleCondition = rr_DerivedRoleCondition rule,
      fc_EmitOutput = rr_EmitOutput rule, fc_Params = params, fc_DerivedRoleParams = drParams,
      fc_origins = Some origins, fc_sum = funcSum, fc_Effect = rr_Effect rule,
      fc_ScopePermissions = rr_ScopePermissions rule, fc_PolicyKind = rr_PolicyKind rule,
      fc_FromRolePolicy = rr_FromRolePolicy rule\<rparr>"

text \<open>The shared core of a row: found by its sum or created, with the row's policy among its origins.\<close>

definition getCore :: "Ext \<Rightarrow> RuleRow \<Rightarrow> RowParams option \<Rightarrow> RowParams option \<Rightarrow> Index \<Rightarrow> FunctionalCore \<times> Index" where
  "getCore E rule params drParams m =
     (let funcSum = ext_hashRow E rule (condDisc rule);
          (core, m) = (case map_of (bi_coresBySum (ix_bi m)) funcSum of
              Some core \<Rightarrow> (core, m)
            | None \<Rightarrow>
                let core = newCore rule params drParams (length (ix_origins m)) funcSum
                in (core, m\<lparr>ix_bi := (ix_bi m)\<lparr>bi_coresBySum := AList.update funcSum core (bi_coresBySum (ix_bi m))\<rparr>,
                            ix_origins := ix_origins m @ [[]],
                            ix_refcounts := addRef drParams (addRef params (ix_refcounts m))\<rparr>))
      in case fc_origins core of
           None \<Rightarrow> (core, m)
         | Some a \<Rightarrow> (core, m\<lparr>ix_origins := (ix_origins m)[a := set_add (rr_OriginFqn rule) (ix_origins m ! a)]\<rparr>))"

definition ruleBinding :: "RuleRow \<Rightarrow> FunctionalCore \<Rightarrow> BindingHandle" where
  "ruleBinding rule core =
     (let b = zeroBinding\<lparr>b_Scope := rr_Scope rule, b_Version := rr_Version rule, b_Resource := rr_Resource rule,
                b_Role := rr_Role rule, b_Principal := rr_Principal rule, b_OriginFqn := rr_OriginFqn rule,
                b_OriginDerivedRole := rr_OriginDerivedRole rule, b_Name := rr_Name rule, b_Core := core\<rparr>
      in case rr_ActionSet rule of
           ActionSet_AllowActions actions \<Rightarrow> setAllowActions actions b
         | ActionSet_Action action \<Rightarrow> b\<lparr>b_Action := action\<rparr>
         | NoActionSet \<Rightarrow> b)"

text \<open>The index after the call, and whether it returned no error.\<close>

definition IndexRule :: "Ext \<Rightarrow> RuleRow \<Rightarrow> Index \<Rightarrow> bool \<times> Index" where
  "IndexRule E rule m =
     (case indexParams E rule m of
        (None, m) \<Rightarrow> (False, m)
      | (Some (params, drParams), m) \<Rightarrow>
          let (core, m) = getCore E rule params drParams m;
              b = ruleBinding rule core
          in (True, m\<lparr>ix_bi := addBinding (ext_compile E) b
                 (makeEvaluationKeyTuple (rr_EvaluationKeyTuple rule) (rr_EvaluationKey rule)) (ix_bi m)\<rparr>))"

fun IndexRules :: "Ext \<Rightarrow> RuleRow list \<Rightarrow> Index \<Rightarrow> bool \<times> Index" where
  "IndexRules E [] m = (True, m)"
| "IndexRules E (rule # rules) m =
     (case IndexRule E rule m of (False, m) \<Rightarrow> (False, m) | (True, m) \<Rightarrow> IndexRules E rules m)"

definition EvalKey :: "Index \<Rightarrow> u32 \<Rightarrow> EvaluationKeyTuple" where
  "EvalKey m bid = bi_evalKey (ix_bi m) bid"

definition GetAllRows :: "Index \<Rightarrow> BindingHandle list" where
  "GetAllRows m = List.map_filter (\<lambda>b. b) (bi_bindings (ix_bi m))"

section \<open>Resource kinds\<close>

record ResourceKind =
  rk_raw :: string
  rk_sanitized :: string

definition NewResourceKind :: "string \<Rightarrow> ResourceKind" where
  "NewResourceKind kind =
     \<lparr>rk_raw = kind, rk_sanitized = (if SanitizedResource kind \<noteq> kind then SanitizedResource kind else '''')\<rparr>"

definition newResourceKinds :: "string list \<Rightarrow> ResourceKind list" where
  "newResourceKinds kinds = map NewResourceKind kinds"

definition optList :: "'a option \<Rightarrow> 'a list" where
  "optList x = (case x of None \<Rightarrow> [] | Some y \<Rightarrow> [y])"

text \<open>The bitmaps of the globs that match the sanitised form only.\<close>

definition sanitizedOnlyGlobs :: "globDimension \<Rightarrow> ResourceKind \<Rightarrow> Bitmap list" where
  "sanitizedOnlyGlobs gd resource =
     List.map_filter (\<lambda>(pat, match). if \<not> match (rk_raw resource) \<and> match (rk_sanitized resource)
       then lazy_Bitmap (globs gd) pat else None) (compiled gd)"

definition resourceQuery :: "bitmapIndex \<Rightarrow> ResourceKind \<Rightarrow> Kind \<Rightarrow> Bitmap" where
  "resourceQuery bi resource policyKind =
     (if rk_sanitized resource = '''' then glob_Query (bi_resource bi) (rk_raw resource)
      else let gd = bi_resource bi;
               parts = optList (lazy_Bitmap (literals gd) (rk_raw resource))
                       @ optList (lazy_Bitmap (literals gd) (rk_sanitized resource));
               (principalBM, matchSanitized) =
                 (if policyKind = KIND_RESOURCE then (None, False)
                  else if policyKind = KIND_PRINCIPAL then (None, True)
                  else (dim_Get (bi_policyKind bi) KIND_PRINCIPAL, dim_Get (bi_policyKind bi) KIND_PRINCIPAL \<noteq> None));
               parts = parts @ globParts gd (rk_raw resource);
               only = (if matchSanitized then sanitizedOnlyGlobs gd resource else []);
               globsBM = (case only of [] \<Rightarrow> None | [g] \<Rightarrow> Some g | _ \<Rightarrow> Some (orInto poolNew only));
               parts = (case globsBM of
                   None \<Rightarrow> parts
                 | Some g \<Rightarrow>
                     let g = (case principalBM of None \<Rightarrow> g | Some p \<Rightarrow> and2 poolNew g p)
                     in if \<not> Bitmap_IsEmpty g then parts @ [g] else parts)
        in orParts parts)"

definition resourceQueryMulti :: "bitmapIndex \<Rightarrow> ResourceKind list \<Rightarrow> Kind \<Rightarrow> Bitmap" where
  "resourceQueryMulti bi resources policyKind =
     (case resources of
        [] \<Rightarrow> NewBitmap
      | [r] \<Rightarrow> resourceQuery bi r policyKind
      | _ \<Rightarrow> orParts (filter (\<lambda>bm. \<not> Bitmap_IsEmpty bm) (map (\<lambda>r. resourceQuery bi r policyKind) resources)))"

section \<open>Role-policy denials\<close>

definition newNoMatchRolePolicyDeny :: "string \<Rightarrow> string \<Rightarrow> string \<Rightarrow> string \<Rightarrow> string \<Rightarrow> BindingHandle" where
  "newNoMatchRolePolicyDeny role version scope resource action =
     zeroBinding\<lparr>b_Core := zeroCore\<lparr>fc_Effect := EFFECT_DENY, fc_PolicyKind := KIND_RESOURCE, fc_FromRolePolicy := True\<rparr>,
       b_Action := action, b_OriginFqn := RolePolicyFQN role version scope, b_Resource := resource, b_Role := role,
       b_Scope := scope, b_Version := version, b_NoMatchForScopePermissions := True, b_ID := noEvalKey\<rparr>"

text \<open>What a matching allow of a role policy contributes: nothing for a plain allow, a binding without effect for its
  output, or a denial under the negated condition with the outputs swapped.\<close>

definition rolePolicyAllowBinding :: "string \<Rightarrow> BindingHandle \<Rightarrow> BindingHandle option" where
  "rolePolicyAllowBinding action mb =
     (let core = b_Core mb;
          wrap = (\<lambda>c. zeroBinding\<lparr>b_Core := c, b_Action := action, b_Name := b_Name mb, b_OriginFqn := b_OriginFqn mb,
                    b_Resource := b_Resource mb, b_Role := b_Role mb, b_Scope := b_Scope mb, b_Version := b_Version mb,
                    b_ID := b_ID mb\<rparr>)
      in case fc_Condition core of
           None \<Rightarrow> (case fc_EmitOutput core of
               None \<Rightarrow> None
             | Some out \<Rightarrow> Some (wrap (zeroCore\<lparr>fc_EmitOutput := Some out, fc_PolicyKind := KIND_RESOURCE,
                              fc_FromRolePolicy := True, fc_Params := fc_Params core\<rparr>)))
         | Some cond \<Rightarrow>
             let emitOutput = (case fc_EmitOutput core of
                   None \<Rightarrow> None
                 | Some out \<Rightarrow> map_option (\<lambda>w. \<lparr>out_When = Some \<lparr>RuleActivated = ConditionNotMet w, ConditionNotMet = RuleActivated w\<rparr>\<rparr>)
                                (out_When out))
             in Some (wrap (zeroCore\<lparr>fc_Effect := EFFECT_DENY, fc_Condition := Some (Cond_None [cond]),
                   fc_EmitOutput := emitOutput,
                   fc_ScopePermissions := SCOPE_PERMISSIONS_REQUIRE_PARENTAL_CONSENT_FOR_ALLOWS,
                   fc_PolicyKind := KIND_RESOURCE, fc_FromRolePolicy := True, fc_Params := fc_Params core\<rparr>)))"

text \<open>\<^verbatim>\<open>if len(dims) == 1 \{ dims[0] \} else \{ arena.andInto(dims) \}\<close>.\<close>

definition andFrom :: "Bitmap list \<Rightarrow> Bitmap" where
  "andFrom dims = (case dims of [d] \<Rightarrow> d | _ \<Rightarrow> andInto poolNew dims)"

text \<open>The live bindings of a bitmap, in the order of the iterator.\<close>

definition bindingsOf :: "bitmapIndex \<Rightarrow> Bitmap \<Rightarrow> BindingHandle list" where
  "bindingsOf bi bm = List.map_filter (getBinding bi) (Bitmap_ids bm)"

definition addActions :: "BindingHandle \<Rightarrow> string list \<Rightarrow> string list" where
  "addActions b actionSet =
     (if fc_PolicyKind (b_Core b) = KIND_PRINCIPAL then actionSet
      else let actionSet = (if b_Action b \<noteq> '''' then set_add (b_Action b) actionSet else actionSet)
        in fold set_add (case b_AllowActions b of None \<Rightarrow> [] | Some as \<Rightarrow> as) actionSet)"

definition collectResourceActions :: "bitmapIndex \<Rightarrow> Bitmap \<Rightarrow> Bitmap option \<Rightarrow> Bitmap option \<Rightarrow> string list" where
  "collectResourceActions bi resBM versionBM scopeBM =
     (if Bitmap_IsEmpty resBM then []
      else let bm = andFrom ([resBM] @ optList versionBM @ optList scopeBM)
        in if Bitmap_IsEmpty bm then []
           else fold addActions (bindingsOf bi bm) [])"

text \<open>One representative binding per role, in the order of discovery.\<close>

definition rolePolicyReps :: "BindingHandle list \<Rightarrow> (string, BindingHandle) gomap \<times> string list" where
  "rolePolicyReps bs =
     fold (\<lambda>b (rep, order). if map_of rep (b_Role b) = None then (AList.update (b_Role b) b rep, order @ [b_Role b]) else (rep, order))
       bs ([], [])"

definition deniesForRole :: "compiler \<Rightarrow> (string, BindingHandle) gomap \<Rightarrow> BindingHandle list \<Rightarrow> ResourceKind \<Rightarrow> string list \<Rightarrow> string \<Rightarrow> BindingHandle list" where
  "deniesForRole compile reps resourceMatched resource actions role =
     (case map_of reps role of
        None \<Rightarrow> []
      | Some rep \<Rightarrow>
          let roleBindings = filter (\<lambda>b. b_Role b = role) resourceMatched
          in if roleBindings = []
             then map (\<lambda>action. newNoMatchRolePolicyDeny role (b_Version rep) (b_Scope rep) (rk_raw resource) action) actions
             else concat (map (\<lambda>action.
                 let matched = filter (\<lambda>rb. allowsAction compile rb action) roleBindings
                 in if matched = []
                    then let rep = hd roleBindings
                      in [newNoMatchRolePolicyDeny role (b_Version rep) (b_Scope rep) (b_Resource rep) action]
                    else List.map_filter (rolePolicyAllowBinding action) matched) actions))"

definition appendRolePolicyDenies ::
  "Ext \<Rightarrow> bitmapIndex \<Rightarrow> ResourceKind list \<Rightarrow> string list \<Rightarrow> string list \<Rightarrow> Bitmap option \<Rightarrow> Bitmap option \<Rightarrow> Bitmap option
   \<Rightarrow> BindingHandle list \<Rightarrow> BindingHandle list" where
  "appendRolePolicyDenies E bi resources roles targetActions versionBM scopeBM roleBM res =
     (let candidateBM = andFrom (optList versionBM @ optList scopeBM @ optList roleBM @ [bi_allowActionsBitmap bi])
      in if Bitmap_IsEmpty candidateBM then res
         else let (reps, roleOrder) = rolePolicyReps (bindingsOf bi candidateBM);
                  roles = (if roles = [] then roleOrder else roles)
           in res @ concat (map (\<lambda>resource.
               let resBM = resourceQuery bi resource KIND_RESOURCE;
                   resourceMatchedBM = (if \<not> Bitmap_IsEmpty resBM then and2 poolNew candidateBM resBM else NewBitmap);
                   resourceActions = (if targetActions = [] then collectResourceActions bi resBM versionBM scopeBM else targetActions)
               in concat (map (deniesForRole (ext_compile E) reps (bindingsOf bi resourceMatchedBM) resource resourceActions) roles))
             resources))"

section \<open>Queries\<close>

text \<open>A filter that applies only when the caller asks for it: \<open>None\<close> stops the query, an inner \<open>None\<close> is no filter.\<close>

definition queryDim :: "bool \<Rightarrow> Bitmap option \<Rightarrow> Bitmap option option" where
  "queryDim wanted bm = (if wanted then map_option Some bm else Some None)"

definition nonEmpty :: "Bitmap \<Rightarrow> Bitmap option" where
  "nonEmpty bm = (if Bitmap_IsEmpty bm then None else Some bm)"

record QueryDims =
  qd_version :: "Bitmap option"
  qd_scope :: Bitmap
  qd_resource :: "Bitmap option"
  qd_role :: "Bitmap option"
  qd_policyKind :: "Bitmap option"
  qd_principal :: "Bitmap option"

definition queryDims :: "bitmapIndex \<Rightarrow> string \<Rightarrow> ResourceKind \<Rightarrow> string \<Rightarrow> string list \<Rightarrow> Kind \<Rightarrow> string \<Rightarrow> QueryDims option" where
  "queryDims bi version resource scope roles policyKind principalID =
     Option.bind (queryDim (principalID \<noteq> '''') (lazy_Bitmap (bi_principal bi) principalID)) (\<lambda>principalBM.
     Option.bind (dim_Get (bi_scope bi) scope) (\<lambda>scopeBM.
     Option.bind (queryDim (version \<noteq> '''') (dim_Get (bi_version bi) version)) (\<lambda>versionBM.
     Option.bind (queryDim (rk_raw resource \<noteq> '''') (nonEmpty (resourceQuery bi resource policyKind))) (\<lambda>resourceBM.
     Option.bind (queryDim (roles \<noteq> []) (nonEmpty (glob_QueryMultiple (bi_role bi) roles))) (\<lambda>roleBM.
     Option.bind (queryDim (policyKind \<noteq> KIND_UNSPECIFIED) (dim_Get (bi_policyKind bi) policyKind)) (\<lambda>policyKindBM.
     Some \<lparr>qd_version = versionBM, qd_scope = scopeBM, qd_resource = resourceBM, qd_role = roleBM,
           qd_policyKind = policyKindBM, qd_principal = principalBM\<rparr>))))))"

definition andDims :: "Bitmap \<Rightarrow> Bitmap list \<Rightarrow> Bitmap" where
  "andDims universe dims =
     (case dims of [] \<Rightarrow> universe | [d] \<Rightarrow> d | [d1, d2] \<Rightarrow> and2 poolNew d1 d2 | _ \<Rightarrow> andInto poolNew dims)"

definition Query ::
  "Ext \<Rightarrow> Index \<Rightarrow> string \<Rightarrow> ResourceKind \<Rightarrow> string \<Rightarrow> string \<Rightarrow> string list \<Rightarrow> Kind \<Rightarrow> string \<Rightarrow> BindingHandle list
   \<Rightarrow> BindingHandle list" where
  "Query E m version resource scope action roles policyKind principalID buf =
     (let bi = ix_bi m
      in if Bitmap_IsEmpty (bi_universe bi) then buf
         else case queryDims bi version resource scope roles policyKind principalID of
             None \<Rightarrow> buf
           | Some d \<Rightarrow>
               let dims = optList (qd_version d) @ [qd_scope d] @ optList (qd_resource d) @ optList (qd_role d)
                          @ optList (qd_policyKind d) @ optList (qd_principal d);
                   baseBM = andDims (bi_universe bi) dims
               in if Bitmap_IsEmpty baseBM then buf
                  else let resultBM = (if action \<noteq> ''''
                             then let actionBM = glob_Query (bi_action bi) action
                               in if \<not> Bitmap_IsEmpty actionBM then and2 poolNew baseBM actionBM else NewBitmap
                             else baseBM);
                           buf = (if action \<noteq> '''' \<and> rk_raw resource \<noteq> '''' \<and> policyKind = KIND_RESOURCE
                                     \<and> \<not> Bitmap_IsEmpty (bi_allowActionsBitmap bi)
                                  then appendRolePolicyDenies E bi [resource] roles [action]
                                         (qd_version d) (Some (qd_scope d)) (qd_role d) buf
                                  else buf)
                    in if \<not> Bitmap_IsEmpty resultBM then buf @ bindingsOf bi resultBM else buf)"

text \<open>The filters over several versions and scopes: \<open>None\<close> when a filter matches nothing.\<close>

definition versionScopeFilters :: "bitmapIndex \<Rightarrow> string list \<Rightarrow> string list \<Rightarrow> (Bitmap option \<times> Bitmap option) option" where
  "versionScopeFilters bi versions scopes =
     Option.bind (queryDim (versions \<noteq> []) (nonEmpty (dim_QueryMultiple versions (bi_version bi)))) (\<lambda>versionBM.
     Option.bind (queryDim (scopes \<noteq> []) (nonEmpty (dim_QueryMultiple scopes (bi_scope bi)))) (\<lambda>scopeBM.
     Some (versionBM, scopeBM)))"

definition applyActionFilter :: "bitmapIndex \<Rightarrow> Bitmap \<Rightarrow> string list \<Rightarrow> Bitmap" where
  "applyActionFilter bi baseBM actions =
     (if actions = [] then baseBM
      else let actionBM = glob_QueryMultiple (bi_action bi) actions;
               aaBM = and2 poolNew baseBM (bi_allowActionsBitmap bi)
        in orParts ((if \<not> Bitmap_IsEmpty actionBM then [and2 poolNew baseBM actionBM] else [])
             @ (if \<not> Bitmap_IsEmpty (bi_allowActionsBitmap bi) \<and> \<not> Bitmap_IsEmpty aaBM then [aaBM] else [])))"

definition QueryMulti ::
  "Ext \<Rightarrow> Index \<Rightarrow> string list \<Rightarrow> string list \<Rightarrow> string list \<Rightarrow> string list \<Rightarrow> string list \<Rightarrow> bool \<Rightarrow> Binding list" where
  "QueryMulti E m versions resources scopes roles actions withRolePolicyDenies =
     (let bi = ix_bi m
      in if Bitmap_IsEmpty (bi_universe bi) then []
         else case versionScopeFilters bi versions scopes of
             None \<Rightarrow> []
           | Some (versionBM, scopeBM) \<Rightarrow>
               (case queryDim (roles \<noteq> []) (nonEmpty (glob_QueryMultiple (bi_role bi) roles)) of
                  None \<Rightarrow> []
                | Some roleBM \<Rightarrow>
                    let resourceKinds = newResourceKinds resources;
                        resourceBM = (if resourceKinds \<noteq> [] then Some (resourceQueryMulti bi resourceKinds KIND_UNSPECIFIED) else None);
                        dims = optList versionBM @ optList scopeBM @ optList resourceBM @ optList roleBM;
                        baseBM = (case dims of [] \<Rightarrow> bi_universe bi | [d] \<Rightarrow> d | _ \<Rightarrow> andInto poolNew dims);
                        res = (if Bitmap_IsEmpty baseBM then [] else bindingsOf bi (applyActionFilter bi baseBM actions));
                        res = (if withRolePolicyDenies
                               then appendRolePolicyDenies E bi resourceKinds roles actions versionBM scopeBM roleBM res else res)
                    in map (\<lambda>b. toBinding b (bi_evalKey bi (b_ID b))) res))"

section \<open>Parent roles\<close>

text \<open>Lookup in a \<^verbatim>\<open>map[string][]string\<close>, where a missing key is the empty slice.\<close>

definition directParents :: "RoleParentRoles \<Rightarrow> string \<Rightarrow> string list" where
  "directParents prs role = (case map_of prs role of None \<Rightarrow> [] | Some rs \<Rightarrow> rs)"

definition mergeScope :: "(string, string list) gomap \<Rightarrow> (string, string list) gomap \<Rightarrow> (string, string list) gomap" where
  "mergeScope c merged =
     fold (\<lambda>(role, parents) merged. AList.update role (directParents merged role @ parents) merged) c merged"

definition AddParentRoles :: "Index \<Rightarrow> string list \<Rightarrow> string list \<Rightarrow> string list" where
  "AddParentRoles m scopes roles =
     (if ix_parentRoles m = [] then roles
      else let merged = fold (\<lambda>scope merged.
               case map_of (ix_parentRoles m) scope of None \<Rightarrow> merged | Some c \<Rightarrow> mergeScope c merged) scopes []
        in if merged = [] then roles else roles @ concat (map (directParents merged) roles))"

text \<open>
  \<^verbatim>\<open>collectParentRoles\<close> recurses into each parent right after adding it to the set.  The pending parents of all
  active calls are kept as one stack, so that the steps are those of the recursion in the same order.
\<close>

function collectParents :: "RoleParentRoles \<Rightarrow> string list \<Rightarrow> string list \<Rightarrow> string list \<Rightarrow> string list" where
  "collectParents prs [] parentRoleSet visited = parentRoleSet"
| "collectParents prs (pr # stack) parentRoleSet visited =
     (let parentRoleSet = set_add pr parentRoleSet
      in if pr \<in> set visited then collectParents prs stack parentRoleSet visited
         else collectParents prs (directParents prs pr @ stack) parentRoleSet (pr # visited))"
  by pat_completeness auto
termination
proof (relation "measures [\<lambda>(prs, stack, ps, visited). card (fst ` set prs - set visited), \<lambda>(prs, stack, ps, visited). length stack]",
    goal_cases)
  case (3 prs pr stack ps visited ps')
  show ?case
  proof (cases "pr \<in> fst ` set prs")
    case True
    then have "card (fst ` set prs - set (pr # visited)) < card (fst ` set prs - set visited)"
      using 3 by (intro psubset_card_mono) auto
    then show ?thesis by simp
  next
    case False
    then have "directParents prs pr = []" by (auto simp: directParents_def rev_image_eqI dest!: map_of_SomeD split: option.split)
    moreover have "fst ` set prs - set (pr # visited) = fst ` set prs - set visited" using False by auto
    ultimately show ?thesis by simp
  qed
qed simp_all

definition compileParentRoleAncestors :: "ScopeParentRoles \<Rightarrow> (string, (string, string list) gomap) gomap" where
  "compileParentRoleAncestors scopeParentRoles =
     List.map_filter (\<lambda>(scope, prs). map_option (\<lambda>prs.
         (scope, map (\<lambda>(role, _). (role, collectParents prs (directParents prs role) [] [role])) prs)) prs)
       scopeParentRoles"

definition IndexParentRoles :: "ScopeParentRoles \<Rightarrow> Index \<Rightarrow> Index" where
  "IndexParentRoles scopeParentRoles m = m\<lparr>ix_parentRoles := compileParentRoleAncestors scopeParentRoles\<rparr>"

section \<open>Deleting a policy\<close>

definition deleteOrigin :: "string \<Rightarrow> FunctionalCore \<Rightarrow> Index \<Rightarrow> Index" where
  "deleteOrigin fqn core m =
     (case fc_origins core of
        None \<Rightarrow> m
      | Some a \<Rightarrow> m\<lparr>ix_origins := (ix_origins m)[a := removeAll fqn (ix_origins m ! a)]\<rparr>)"

definition coreOrigins :: "Index \<Rightarrow> FunctionalCore \<Rightarrow> string list" where
  "coreOrigins m core = (case fc_origins core of None \<Rightarrow> [] | Some a \<Rightarrow> ix_origins m ! a)"

definition deleteBinding :: "string \<Rightarrow> u32 \<Rightarrow> Index \<Rightarrow> Index" where
  "deleteBinding fqn bid m =
     (case getBinding (ix_bi m) bid of
        None \<Rightarrow> m
      | Some b \<Rightarrow>
          let core = b_Core b;
              m = deleteOrigin fqn core m;
              m = m\<lparr>ix_bi := removeBinding b (ix_bi m)\<rparr>
          in if coreOrigins m core = [] \<and> map_of (bi_coresBySum (ix_bi m)) (fc_sum core) \<noteq> None
             then let m = m\<lparr>ix_bi := (ix_bi m)\<lparr>bi_coresBySum := AList.delete (fc_sum core) (bi_coresBySum (ix_bi m))\<rparr>\<rparr>;
                      (cache, refs) = removeRef (fc_Params core) (ix_paramsCache m) (ix_refcounts m);
                      (drCache, refs) = removeRef (fc_DerivedRoleParams core) (ix_drParamsCache m) refs
               in m\<lparr>ix_paramsCache := cache, ix_drParamsCache := drCache, ix_refcounts := refs\<rparr>
             else m)"

definition DeletePolicy :: "string \<Rightarrow> Index \<Rightarrow> Index" where
  "DeletePolicy fqn m =
     (if fqn = '''' then m
      else case fqn_Get (bi_fqnBindings (ix_bi m)) fqn of
          None \<Rightarrow> m
        | Some bids \<Rightarrow>
            let m = fold (deleteBinding fqn) bids m
            in m\<lparr>ix_bi := (ix_bi m)\<lparr>bi_fqnBindings := fqn_Delete fqn (bi_fqnBindings (ix_bi m))\<rparr>\<rparr>)"

section \<open>Key listings and existence tests\<close>

definition GetScopes :: "Index \<Rightarrow> string list" where
  "GetScopes m = dim_Keys (bi_scope (ix_bi m))"

definition GetRoles :: "Index \<Rightarrow> string list" where
  "GetRoles m = glob_GetAllKeys (bi_role (ix_bi m))"

definition GetVersions :: "Index \<Rightarrow> string list" where
  "GetVersions m = dim_Keys (bi_version (ix_bi m))"

definition GetActions :: "Index \<Rightarrow> string list" where
  "GetActions m = glob_GetAllKeys (bi_action (ix_bi m))"

definition GetResources :: "Index \<Rightarrow> string list" where
  "GetResources m = glob_GetAllKeys (bi_resource (ix_bi m))"

text \<open>\<open>intersectingKeys\<close> is the method of the dimension whose keys are listed.\<close>

definition resourceDimensionKeys ::
  "bitmapIndex \<Rightarrow> (Bitmap \<Rightarrow> string list) \<Rightarrow> string list \<Rightarrow> string list \<Rightarrow> string list \<Rightarrow> string list" where
  "resourceDimensionKeys bi intersectingKeys versions scopes resources =
     (case dim_Get (bi_policyKind bi) KIND_RESOURCE of
        None \<Rightarrow> []
      | Some resourceKindBM \<Rightarrow> (case versionScopeFilters bi versions scopes of
          None \<Rightarrow> []
        | Some (versionBM, scopeBM) \<Rightarrow>
            (case queryDim (resources \<noteq> []) (nonEmpty (resourceQueryMulti bi (newResourceKinds resources) KIND_RESOURCE)) of
               None \<Rightarrow> []
             | Some resourceBM \<Rightarrow>
                 let filters = [resourceKindBM] @ optList versionBM @ optList scopeBM @ optList resourceBM
                 in if length filters > 1
                    then let filterBM = andInto poolNew filters
                      in if Bitmap_IsEmpty filterBM then [] else intersectingKeys filterBM
                    else intersectingKeys (hd filters))))"

definition Versions :: "Index \<Rightarrow> string list \<Rightarrow> string list \<Rightarrow> string list" where
  "Versions m scopes resources =
     resourceDimensionKeys (ix_bi m) (\<lambda>f. dim_intersectingKeys f (bi_version (ix_bi m))) [] scopes resources"

definition Scopes :: "Index \<Rightarrow> string list \<Rightarrow> string list \<Rightarrow> string list" where
  "Scopes m versions resources =
     resourceDimensionKeys (ix_bi m) (\<lambda>f. dim_intersectingKeys f (bi_scope (ix_bi m))) versions [] resources"

definition Roles :: "Index \<Rightarrow> string list \<Rightarrow> string list \<Rightarrow> string list \<Rightarrow> string list" where
  "Roles m versions scopes resources =
     resourceDimensionKeys (ix_bi m) (\<lambda>f. glob_intersectingKeys f (bi_role (ix_bi m))) versions scopes resources"

definition Actions :: "Index \<Rightarrow> string list \<Rightarrow> string list \<Rightarrow> string list \<Rightarrow> string list" where
  "Actions m versions scopes resources =
     resourceDimensionKeys (ix_bi m) (\<lambda>f. glob_intersectingKeys f (bi_action (ix_bi m))) versions scopes resources"

definition Resources :: "Index \<Rightarrow> string list \<Rightarrow> string list \<Rightarrow> string list" where
  "Resources m versions scopes =
     resourceDimensionKeys (ix_bi m) (\<lambda>f. glob_intersectingKeys f (bi_resource (ix_bi m))) versions scopes []"

definition ActionsForResource :: "Index \<Rightarrow> string \<Rightarrow> string list \<Rightarrow> string list \<Rightarrow> string list" where
  "ActionsForResource m resource versions scopes =
     (if resource = '''' then []
      else case versionScopeFilters (ix_bi m) versions scopes of
          None \<Rightarrow> []
        | Some (versionBM, scopeBM) \<Rightarrow>
            collectResourceActions (ix_bi m) (resourceQuery (ix_bi m) (NewResourceKind resource) KIND_RESOURCE) versionBM scopeBM)"

definition ScopedResourceExists :: "Index \<Rightarrow> string \<Rightarrow> ResourceKind \<Rightarrow> string list \<Rightarrow> bool" where
  "ScopedResourceExists m version resource scopes =
     (let bi = ix_bi m
      in if scopes = [] then False
         else case dim_Get (bi_version bi) version of
             None \<Rightarrow> False
           | Some versionBM \<Rightarrow>
               let scopeBM = dim_QueryMultiple scopes (bi_scope bi);
                   resourceBM = resourceQuery bi resource KIND_RESOURCE
               in if Bitmap_IsEmpty scopeBM \<or> Bitmap_IsEmpty resourceBM then False
                  else (case dim_Get (bi_policyKind bi) KIND_RESOURCE of
                      None \<Rightarrow> False
                    | Some kindBM \<Rightarrow> intersectionNonEmpty versionBM [scopeBM, resourceBM, kindBM]))"

definition ScopedPrincipalExists :: "Index \<Rightarrow> string \<Rightarrow> string list \<Rightarrow> bool" where
  "ScopedPrincipalExists m version scopes =
     (let bi = ix_bi m
      in if scopes = [] then False
         else case dim_Get (bi_version bi) version of
             None \<Rightarrow> False
           | Some versionBM \<Rightarrow>
               let scopeBM = dim_QueryMultiple scopes (bi_scope bi)
               in if Bitmap_IsEmpty scopeBM then False
                  else (case dim_Get (bi_policyKind bi) KIND_PRINCIPAL of
                      None \<Rightarrow> False
                    | Some kindBM \<Rightarrow> intersectionNonEmpty versionBM [scopeBM, kindBM]))"

end
