(* ===== verification/IndexQuery.thy ===== *)
theory IndexQuery
  imports Index
begin

text \<open>
  The queries of the rule index against their reference: a linear scan of the binding table.  Each query
  bitmap \<^emph>\<open>selects\<close> the live bindings with some property; intersections of such bitmaps select conjunctions,
  and iterating one gives the rows with the property in table order.
\<close>

section \<open>Lists filtered through an option\<close>

lemma map_filter_cong: "(\<And>x. x \<in> set xs \<Longrightarrow> f x = g x) \<Longrightarrow> List.map_filter f xs = List.map_filter g xs"
  by (induction xs) (auto split: option.split)

lemma filter_map_filter:
  "filter P (List.map_filter f xs) = List.map_filter f (filter (\<lambda>x. case f x of None \<Rightarrow> False | Some y \<Rightarrow> P y) xs)"
  by (induction xs) (auto split: option.split)

lemma map_filter_nth: "List.map_filter (\<lambda>k. xs ! k) [0..<length xs] = List.map_filter (\<lambda>x. x) xs"
proof -
  have "List.map_filter (\<lambda>x. x) (map (\<lambda>k. xs ! k) [0..<length xs]) = List.map_filter (\<lambda>k. xs ! k) [0..<length xs]"
    by (simp add: List.map_filter_def filter_map comp_def)
  then show ?thesis by (simp add: map_nth)
qed

lemma unat_of_nat_self: "of_nat (unat (i :: u32)) = i"
  by simp

section \<open>Bitmaps that select rows\<close>

definition rows :: "bitmapIndex \<Rightarrow> BindingHandle list" where
  "rows bi = List.map_filter (\<lambda>b. b) (bi_bindings bi)"

definition selects :: "bitmapIndex \<Rightarrow> Bitmap \<Rightarrow> (BindingHandle \<Rightarrow> bool) \<Rightarrow> bool" where
  "selects bi bm P \<longleftrightarrow> bm_inv bm \<and> bm_set bm = {i. \<exists>b. getBinding bi i = Some b \<and> P b}"

lemma GetAllRows_rows: "GetAllRows m = rows (ix_bi m)"
  by (simp add: GetAllRows_def rows_def)

lemma set_rows:
  assumes "slots_inv bi"
  shows "b \<in> set (rows bi) \<longleftrightarrow> (\<exists>i. getBinding bi i = Some b)"
proof
  assume "b \<in> set (rows bi)"
  then obtain n where n: "n < length (bi_bindings bi)" "bi_bindings bi ! n = Some b"
    unfolding rows_def set_map_filter_iff by (metis in_set_conv_nth)
  moreover have "length (bi_bindings bi) < 2 ^ 32" using assms by (simp add: slots_inv_def)
  ultimately have "unat (of_nat n :: u32) = n" by (simp add: unat_of_nat)
  then have "getBinding bi (of_nat n) = Some b" using n by (simp add: getBinding_def)
  then show "\<exists>i. getBinding bi i = Some b" ..
next
  assume "\<exists>i. getBinding bi i = Some b"
  then obtain i :: u32 where "unat i < length (bi_bindings bi)" "bi_bindings bi ! unat i = Some b"
    by (auto simp: getBinding_def split: if_splits)
  then show "b \<in> set (rows bi)"
    unfolding rows_def set_map_filter_iff by (metis nth_mem)
qed

lemma selects_cong:
  "slots_inv bi \<Longrightarrow> selects bi bm P \<Longrightarrow> (\<And>b. b \<in> set (rows bi) \<Longrightarrow> P b = Q b) \<Longrightarrow> selects bi bm Q"
  unfolding selects_def set_rows by blast

lemma selects_IsEmpty:
  "slots_inv bi \<Longrightarrow> selects bi bm P \<Longrightarrow> Bitmap_IsEmpty bm \<longleftrightarrow> (\<forall>b \<in> set (rows bi). \<not> P b)"
  by (auto simp: selects_def IsEmpty_iff set_rows)

lemma selects_New: "slots_inv bi \<Longrightarrow> (\<And>b. b \<in> set (rows bi) \<Longrightarrow> \<not> P b) \<Longrightarrow> selects bi NewBitmap P"
  by (auto simp: selects_def set_rows)

lemma selects_and2:
  "selects bi x P \<Longrightarrow> selects bi y Q \<Longrightarrow> selects bi (and2 poolNew x y) (\<lambda>b. P b \<and> Q b)"
  by (auto simp: selects_def and2_facts poolReady_New)

text \<open>The iterator visits the selected rows in table order.\<close>

lemma bindingsOf_filter:
  assumes "slots_inv bi" and "selects bi bm P"
  shows "bindingsOf bi bm = filter P (rows bi)"
proof -
  let ?n = "length (bi_bindings bi)"
  let ?hit = "\<lambda>n. case bi_bindings bi ! n of None \<Rightarrow> False | Some b \<Rightarrow> P b"
  let ?ns = "filter ?hit [0..<?n]"
  have n: "?n < 2 ^ 32" using assms(1) by (simp add: slots_inv_def)
  then have unat: "unat (of_nat k :: u32) = k" if "k < ?n" for k
    using that by (simp add: unat_of_nat)
  have "Bitmap_ids bm = map of_nat ?ns"
  proof (rule strict_sorted_equal)
    show "sorted_wrt (<) (Bitmap_ids bm)" using assms(2) by (auto simp: selects_def intro: sorted_Bitmap_ids)
    have "sorted_wrt (\<lambda>i j. (of_nat i :: u32) < of_nat j) ?ns"
      using filter_upt_sorted [of ?hit 0 ?n]
      by (rule sorted_wrt_mono_rel [rotated]) (auto simp: word_less_nat_alt unat)
    then show "sorted_wrt (<) (map (of_nat :: nat \<Rightarrow> u32) ?ns)" by (simp add: sorted_wrt_map)
    have "set (Bitmap_ids bm) = {i. \<exists>b. getBinding bi i = Some b \<and> P b}"
      using assms(2) by (auto simp: selects_def set_Bitmap_ids)
    also have "\<dots> = set (map of_nat ?ns)"
    proof (rule set_eqI)
      fix i :: u32
      have "i \<in> set (map of_nat ?ns) \<longleftrightarrow> (\<exists>k < ?n. ?hit k \<and> i = of_nat k)" by auto
      also have "\<dots> \<longleftrightarrow> unat i < ?n \<and> ?hit (unat i)" using unat by (metis unat_of_nat_self)
      also have "\<dots> \<longleftrightarrow> i \<in> {i. \<exists>b. getBinding bi i = Some b \<and> P b}"
        by (auto simp: getBinding_def split: option.splits if_splits)
      finally show "i \<in> {i. \<exists>b. getBinding bi i = Some b \<and> P b} \<longleftrightarrow> i \<in> set (map of_nat ?ns)" by simp
    qed
    finally show "set (Bitmap_ids bm) = set (map of_nat ?ns)" .
  qed
  then have "bindingsOf bi bm = List.map_filter (\<lambda>k. getBinding bi (of_nat k)) ?ns"
    by (simp add: bindingsOf_def List.map_filter_def filter_map comp_def)
  also have "\<dots> = List.map_filter (\<lambda>k. bi_bindings bi ! k) ?ns"
    by (rule map_filter_cong) (simp add: getBinding_def unat)
  also have "\<dots> = filter P (List.map_filter (\<lambda>k. bi_bindings bi ! k) [0..<?n])"
    by (simp only: filter_map_filter)
  also have "List.map_filter (\<lambda>k. bi_bindings bi ! k) [0..<?n] = rows bi"
    unfolding rows_def by (simp add: map_filter_nth)
  finally show ?thesis .
qed

text \<open>A list of bitmaps whose intersection selects a property; the empty list is no restriction.\<close>

definition selectsAll :: "bitmapIndex \<Rightarrow> Bitmap list \<Rightarrow> (BindingHandle \<Rightarrow> bool) \<Rightarrow> bool" where
  "selectsAll bi bms P \<longleftrightarrow>
     (\<forall>bm \<in> set bms. bm_inv bm \<and> bm_set bm \<subseteq> {i. getBinding bi i \<noteq> None})
     \<and> (\<forall>i b. getBinding bi i = Some b \<longrightarrow> ((\<forall>bm \<in> set bms. i \<in> bm_set bm) \<longleftrightarrow> P b))"

lemma selectsAll_Nil [simp]: "selectsAll bi [] (\<lambda>b. True)"
  by (simp add: selectsAll_def)

lemma selectsAll_single: "selects bi bm P \<Longrightarrow> selectsAll bi [bm] P"
  by (auto simp: selectsAll_def selects_def)

lemma selectsAll_append:
  "selectsAll bi xs P \<Longrightarrow> selectsAll bi ys Q \<Longrightarrow> selectsAll bi (xs @ ys) (\<lambda>b. P b \<and> Q b)"
  unfolding selectsAll_def set_append ball_Un by blast

lemma selectsAll_andInto:
  assumes "selectsAll bi bms P" and "bms \<noteq> []"
  shows "selects bi (andInto poolNew bms) P"
proof -
  have inv: "list_all bm_inv bms" using assms(1) by (auto simp: selectsAll_def list_all_iff)
  have "(\<Inter>bm \<in> set bms. bm_set bm) = {i. \<exists>b. getBinding bi i = Some b \<and> P b}"
  proof (rule set_eqI)
    fix i
    have "i \<in> (\<Inter>bm \<in> set bms. bm_set bm) \<Longrightarrow> getBinding bi i \<noteq> None"
      using assms by (cases bms) (auto simp: selectsAll_def)
    moreover have "(\<forall>bm \<in> set bms. i \<in> bm_set bm) \<longleftrightarrow> P b" if "getBinding bi i = Some b" for b
      using assms(1) that unfolding selectsAll_def by blast
    ultimately show "i \<in> (\<Inter>bm \<in> set bms. bm_set bm) \<longleftrightarrow> i \<in> {i. \<exists>b. getBinding bi i = Some b \<and> P b}"
      by (cases "getBinding bi i") auto
  qed
  then show ?thesis
    using andInto_facts [OF poolReady_New assms(2) inv] by (simp add: selects_def)
qed

lemma selectsAll_sole: "selectsAll bi [bm] P \<Longrightarrow> selects bi bm P"
  by (auto simp: selectsAll_def selects_def)

lemma selectsAll_pair: "selectsAll bi [x, y] P \<Longrightarrow> selects bi (and2 poolNew x y) P"
  using selectsAll_andInto [of bi "[x, y]" P] andInto_facts [OF poolReady_New, of "[x, y]"]
  by (simp add: selectsAll_def selects_def and2_facts poolReady_New)

lemma selects_universe:
  "dims_inv compile bi \<Longrightarrow> selects bi (bi_universe bi) (\<lambda>b. True)"
  by (auto simp: selects_def dims_inv_def)

lemma selects_andDims:
  assumes "dims_inv compile bi" and "selectsAll bi dims P"
  shows "selects bi (andDims (bi_universe bi) dims) P"
proof (cases dims rule: remdups_adj.cases)
  case 1
  then show ?thesis
    using assms selects_universe [OF assms(1)] by (auto simp: andDims_def selectsAll_def selects_def)
next
  case (2 d)
  then show ?thesis using assms(2) by (simp add: andDims_def selectsAll_sole)
next
  case (3 d1 d2 ds)
  then show ?thesis
    using assms(2) selectsAll_andInto [OF assms(2)] selectsAll_pair
    by (auto simp: andDims_def split: list.splits)
qed

lemma selects_andFrom: "selectsAll bi dims P \<Longrightarrow> dims \<noteq> [] \<Longrightarrow> selects bi (andFrom dims) P"
  using selectsAll_andInto selectsAll_sole by (auto simp: andFrom_def split: list.splits)

text \<open>A dimension lookup: absent exactly when no row has the property.\<close>

definition looksUp :: "bitmapIndex \<Rightarrow> Bitmap option \<Rightarrow> (BindingHandle \<Rightarrow> bool) \<Rightarrow> bool" where
  "looksUp bi r P \<longleftrightarrow> (case r of None \<Rightarrow> (\<forall>b \<in> set (rows bi). \<not> P b) | Some bm \<Rightarrow> selects bi bm P)"

definition filters :: "bitmapIndex \<Rightarrow> Bitmap option option \<Rightarrow> (BindingHandle \<Rightarrow> bool) \<Rightarrow> bool" where
  "filters bi r P \<longleftrightarrow> (case r of None \<Rightarrow> (\<forall>b \<in> set (rows bi). \<not> P b) | Some ob \<Rightarrow> selectsAll bi (optList ob) P)"

lemma looksUp_None: "looksUp bi r P \<Longrightarrow> r = None \<Longrightarrow> b \<in> set (rows bi) \<Longrightarrow> \<not> P b"
  by (simp add: looksUp_def)

lemma filters_queryDim: "looksUp bi r P \<Longrightarrow> filters bi (queryDim wanted r) (\<lambda>b. wanted \<longrightarrow> P b)"
  by (auto simp: filters_def looksUp_def queryDim_def optList_def selectsAll_single split: option.splits)

lemma looksUp_nonEmpty: "slots_inv bi \<Longrightarrow> selects bi bm P \<Longrightarrow> looksUp bi (nonEmpty bm) P"
  using selects_IsEmpty by (auto simp: looksUp_def nonEmpty_def)

section \<open>What each dimension selects\<close>

lemma looksUp_dim:
  assumes "slots_inv bi" and "dim_inv d" and "tracks (dim_ids d) (getBinding bi) f"
  shows "looksUp bi (dim_Get d k) (\<lambda>b. f b = Some k)"
    and "selects bi (dim_QueryMultiple ks d) (\<lambda>b. \<exists>k \<in> set ks. f b = Some k)"
proof -
  have ids: "dim_ids d k = {i. \<exists>b. getBinding bi i = Some b \<and> f b = Some k}" for k
    using assms(3) by (simp add: tracks_def)
  show "looksUp bi (dim_Get d k) (\<lambda>b. f b = Some k)"
  proof (cases "map_of d k")
    case None
    then have "dim_ids d k = {}" by (simp add: dim_ids_def)
    then show ?thesis using None ids [of k] by (auto simp: looksUp_def dim_Get_def set_rows [OF assms(1)])
  next
    case (Some bm)
    then have "dim_ids d k = bm_set bm" "bm_inv bm" using assms(2) by (auto simp: dim_ids_def dim_inv_def)
    then show ?thesis using Some ids [of k] by (simp add: looksUp_def dim_Get_def selects_def)
  qed
  show "selects bi (dim_QueryMultiple ks d) (\<lambda>b. \<exists>k \<in> set ks. f b = Some k)"
    using dim_QueryMultiple_facts [OF assms(2)] ids by (auto simp: selects_def)
qed

lemma looksUp_lazy:
  assumes "slots_inv bi" and "lazy_inv d" and "tracks (lazy_ids d) (getBinding bi) f"
  shows "looksUp bi (lazy_Bitmap d k) (\<lambda>b. f b = Some k)"
proof -
  have ids: "lazy_ids d k = {i. \<exists>b. getBinding bi i = Some b \<and> f b = Some k}"
    using assms(3) by (simp add: tracks_def)
  then show ?thesis
    using lazy_Bitmap_facts [OF assms(2), of k]
    by (cases "lazy_Bitmap d k") (auto simp: looksUp_def selects_def set_rows [OF assms(1)])
qed

text \<open>A row's key in a glob dimension matches a value.\<close>

definition keySel :: "compiler \<Rightarrow> string option \<Rightarrow> string \<Rightarrow> bool" where
  "keySel compile key val \<longleftrightarrow> (case key of None \<Rightarrow> False | Some k \<Rightarrow> keyMatches compile k val)"

lemma selects_glob:
  assumes "glob_inv compile gd" and "tracks (glob_ids gd) (getBinding bi) f"
  shows "selects bi (glob_Query gd v) (\<lambda>b. keySel compile (f b) v)"
    and "selects bi (glob_QueryMultiple gd vs) (\<lambda>b. \<exists>v \<in> set vs. keySel compile (f b) v)"
proof -
  have ids: "glob_sel compile gd v = {i. \<exists>b. getBinding bi i = Some b \<and> keySel compile (f b) v}" for v
    unfolding glob_sel_def tracksD [OF assms(2)] keySel_def by (auto split: option.split) 
  show "selects bi (glob_Query gd v) (\<lambda>b. keySel compile (f b) v)"
    using glob_Query_facts [OF assms(1)] by (simp add: selects_def ids)
  show "selects bi (glob_QueryMultiple gd vs) (\<lambda>b. \<exists>v \<in> set vs. keySel compile (f b) v)"
    using glob_QueryMultiple_facts [OF assms(1)] by (auto simp: selects_def ids)
qed

section \<open>Unions of bitmaps\<close>

definition covers :: "bitmapIndex \<Rightarrow> Bitmap list \<Rightarrow> (BindingHandle \<Rightarrow> bool) \<Rightarrow> bool" where
  "covers bi parts P \<longleftrightarrow>
     list_all bm_inv parts \<and> (\<Union>bm \<in> set parts. bm_set bm) = {i. \<exists>b. getBinding bi i = Some b \<and> P b}"

lemma covers_append: "covers bi xs P \<Longrightarrow> covers bi ys Q \<Longrightarrow> covers bi (xs @ ys) (\<lambda>b. P b \<or> Q b)"
  unfolding covers_def by auto

lemma covers_orParts: "covers bi parts P \<Longrightarrow> selects bi (orParts parts) P"
  by (simp add: covers_def selects_def orParts_facts)

lemma covers_single: "selects bi bm P \<Longrightarrow> covers bi [bm] P"
  by (simp add: covers_def selects_def)

lemma covers_Nil: "slots_inv bi \<Longrightarrow> (\<And>b. b \<in> set (rows bi) \<Longrightarrow> \<not> P b) \<Longrightarrow> covers bi [] P"
  by (auto simp: covers_def set_rows)

lemma covers_lookup: "slots_inv bi \<Longrightarrow> looksUp bi r P \<Longrightarrow> covers bi (optList r) P"
  by (auto simp: looksUp_def optList_def intro: covers_single covers_Nil split: option.splits)

lemma covers_nonEmpty:
  "slots_inv bi \<Longrightarrow> selects bi bm P \<Longrightarrow> covers bi (if \<not> Bitmap_IsEmpty bm then [bm] else []) P"
  using selects_IsEmpty [of bi bm P] by (auto intro: covers_single covers_Nil)

lemma covers_filter_nonEmpty:
  assumes "slots_inv bi" and "\<forall>x \<in> set xs. selects bi (g x) (P x)"
  shows "covers bi (filter (\<lambda>bm. \<not> Bitmap_IsEmpty bm) (map g xs)) (\<lambda>b. \<exists>x \<in> set xs. P x b)"
  using assms(2)
proof (induction xs)
  case Nil
  then show ?case using covers_Nil [OF assms(1)] by simp
next
  case (Cons x xs)
  then show ?case
    using covers_append [OF covers_nonEmpty [OF assms(1), of "g x" "P x"]] by fastforce
qed

text \<open>The globs whose compiled pattern satisfies a test.\<close>

lemma covers_globs:
  assumes "glob_inv compile gd" and "tracks (glob_ids gd) (getBinding bi) f"
  shows "covers bi (List.map_filter (\<lambda>(pat, match). if Q match then lazy_Bitmap (globs gd) pat else None) (compiled gd))
    (\<lambda>b. \<exists>k p. f b = Some k \<and> IsGlob k \<and> GetOrCompileGlob compile k = Some p \<and> Q p)"
proof -
  have inv: "lazy_inv (globs gd)" "gowf (compiled gd)"
    and key: "lazy_ids (globs gd) k \<noteq> {} \<longleftrightarrow> map_of (compiled gd) k \<noteq> None"
    and pat: "map_of (compiled gd) k = Some p \<Longrightarrow> IsGlob k \<and> GetOrCompileGlob compile k = Some p" for k p
    using assms(1) unfolding glob_inv_def by blast+
  let ?parts = "List.map_filter (\<lambda>(pat, match). if Q match then lazy_Bitmap (globs gd) pat else None) (compiled gd)"
  have part: "bm \<in> set ?parts \<longleftrightarrow>
      (\<exists>k p. map_of (compiled gd) k = Some p \<and> Q p \<and> lazy_Bitmap (globs gd) k = Some bm)" for bm
    unfolding set_map_filter_iff Bex_def split_paired_Ex gowf_in_set_iff [OF inv(2)] prod.case if_None_eq_Some ..
  have "i \<in> (\<Union>bm \<in> set ?parts. bm_set bm) \<longleftrightarrow>
      (\<exists>b. getBinding bi i = Some b \<and> (\<exists>k p. f b = Some k \<and> IsGlob k \<and> GetOrCompileGlob compile k = Some p \<and> Q p))" for i
  proof
    assume "i \<in> (\<Union>bm \<in> set ?parts. bm_set bm)"
    then obtain k p bm where k: "map_of (compiled gd) k = Some p" "Q p" "lazy_Bitmap (globs gd) k = Some bm" "i \<in> bm_set bm"
      unfolding UN_iff Bex_def part by blast
    then have "i \<in> glob_ids gd k" using lazy_Bitmap_facts(1) [OF inv(1) k(3)] pat [OF k(1)] by (simp add: glob_ids_def)
    then obtain b where "getBinding bi i = Some b" "f b = Some k" unfolding tracksD [OF assms(2)] by blast
    then show "\<exists>b. getBinding bi i = Some b \<and> (\<exists>k p. f b = Some k \<and> IsGlob k \<and> GetOrCompileGlob compile k = Some p \<and> Q p)"
      using k pat by blast
  next
    assume "\<exists>b. getBinding bi i = Some b \<and> (\<exists>k p. f b = Some k \<and> IsGlob k \<and> GetOrCompileGlob compile k = Some p \<and> Q p)"
    then obtain b k p where k: "getBinding bi i = Some b" "f b = Some k" "IsGlob k" "GetOrCompileGlob compile k = Some p" "Q p"
      by blast
    then have i: "i \<in> lazy_ids (globs gd) k" using tracksD [OF assms(2), of i k] by (simp add: glob_ids_def)
    then have "map_of (compiled gd) k \<noteq> None" using key [of k] by blast
    then obtain p' where "map_of (compiled gd) k = Some p'" by blast
    moreover have "p' = p" using pat [OF calculation] k(4) by simp
    moreover obtain bm where "lazy_Bitmap (globs gd) k = Some bm" "bm_set bm = lazy_ids (globs gd) k"
      using lazy_Bitmap_facts [OF inv(1), of k] i by (cases "lazy_Bitmap (globs gd) k") auto
    ultimately show "i \<in> (\<Union>bm \<in> set ?parts. bm_set bm)" unfolding UN_iff Bex_def part using k(5) i by blast
  qed
  moreover have "list_all bm_inv ?parts"
    unfolding list_all_iff Ball_def part using lazy_Bitmap_facts(1) [OF inv(1)] by blast
  ultimately show ?thesis unfolding covers_def by (intro conjI set_eqI) (simp_all only: mem_Collect_eq)
qed

section \<open>Resources\<close>

text \<open>
  A row is selected by a resource kind through its key: the kind as written, its sanitised form as a literal,
  or, for a principal policy, a glob matching the sanitised form.
\<close>

definition resourceSel :: "compiler \<Rightarrow> Kind \<Rightarrow> ResourceKind \<Rightarrow> BindingHandle \<Rightarrow> bool" where
  "resourceSel compile policyKind resource b \<longleftrightarrow>
     (case globKey compile (b_Resource b) of
        None \<Rightarrow> False
      | Some k \<Rightarrow> keyMatches compile k (rk_raw resource)
          \<or> rk_sanitized resource \<noteq> '''' \<and>
             (if IsGlob k
              then MatchesGlob compile k (rk_sanitized resource)
                   \<and> (policyKind = KIND_PRINCIPAL \<or> policyKind \<noteq> KIND_RESOURCE \<and> fc_PolicyKind (b_Core b) = KIND_PRINCIPAL)
              else k = rk_sanitized resource))"

lemma MatchesGlob_iff: "MatchesGlob compile k v \<longleftrightarrow> (\<exists>p. GetOrCompileGlob compile k = Some p \<and> p v)"
  by (simp add: MatchesGlob_def GetOrCompileGlob_def split: option.splits)

lemma looksUp_literals:
  assumes "slots_inv bi" and "glob_inv compile gd" and "tracks (glob_ids gd) (getBinding bi) f"
  shows "looksUp bi (lazy_Bitmap (literals gd) v) (\<lambda>b. f b = Some v \<and> \<not> IsGlob v)"
proof -
  have "lazy_inv (literals gd)" and "lazy_ids (literals gd) v \<noteq> {} \<longrightarrow> \<not> IsGlob v"
    using assms(2) by (auto simp: glob_inv_def)
  moreover have "lazy_ids (literals gd) v = {i. \<exists>b. getBinding bi i = Some b \<and> f b = Some v \<and> \<not> IsGlob v}"
  proof (cases "IsGlob v")
    case False
    then have "glob_ids gd v = lazy_ids (literals gd) v" by (simp add: glob_ids_def)
    then show ?thesis using assms(3) False by (simp add: tracks_def)
  qed (use calculation in auto)
  ultimately show ?thesis
    using lazy_Bitmap_facts [of "literals gd" v]
    by (cases "lazy_Bitmap (literals gd) v") (auto simp: looksUp_def selects_def set_rows [OF assms(1)])
qed

lemma covers_cong:
  "slots_inv bi \<Longrightarrow> covers bi parts P \<Longrightarrow> (\<And>b. b \<in> set (rows bi) \<Longrightarrow> P b = Q b) \<Longrightarrow> covers bi parts Q"
  unfolding covers_def set_rows by blast

text \<open>The last part of \<^verbatim>\<open>resourceQuery\<close>: the sanitised-only globs, masked by the principal-policy rows.\<close>

definition sanitizedPart :: "bitmapIndex \<Rightarrow> ResourceKind \<Rightarrow> Bitmap option \<Rightarrow> Bitmap list" where
  "sanitizedPart bi resource principalBM =
     (case sanitizedOnlyGlobs (bi_resource bi) resource of
        [] \<Rightarrow> []
      | g # gs \<Rightarrow> let g = (if gs = [] then g else orInto poolNew (g # gs));
                     g = (case principalBM of None \<Rightarrow> g | Some p \<Rightarrow> and2 poolNew g p)
          in if \<not> Bitmap_IsEmpty g then [g] else [])"

definition sanitizedGlob :: "compiler \<Rightarrow> ResourceKind \<Rightarrow> BindingHandle \<Rightarrow> bool" where
  "sanitizedGlob compile resource b \<longleftrightarrow>
     (\<exists>k. globKey compile (b_Resource b) = Some k \<and> IsGlob k \<and> \<not> MatchesGlob compile k (rk_raw resource)
        \<and> MatchesGlob compile k (rk_sanitized resource))"

lemma resourceQuery_parts:
  assumes "rk_sanitized resource \<noteq> ''''"
  shows "resourceQuery bi resource policyKind = orParts
     ((optList (lazy_Bitmap (literals (bi_resource bi)) (rk_raw resource))
       @ optList (lazy_Bitmap (literals (bi_resource bi)) (rk_sanitized resource)))
      @ globParts (bi_resource bi) (rk_raw resource)
      @ (if policyKind = KIND_RESOURCE then []
         else if policyKind = KIND_PRINCIPAL then sanitizedPart bi resource None
         else (case dim_Get (bi_policyKind bi) KIND_PRINCIPAL of
             None \<Rightarrow> [] | Some p \<Rightarrow> sanitizedPart bi resource (Some p))))"
  using assms
  by (simp add: resourceQuery_def sanitizedPart_def Let_def split: option.split list.split)

lemma covers_sanitizedOnly:
  assumes "slots_inv bi" and "dims_inv compile bi"
  shows "covers bi (sanitizedOnlyGlobs (bi_resource bi) resource) (sanitizedGlob compile resource)"
proof -
  note D = dims_invD [OF assms(2)]
  have "covers bi (sanitizedOnlyGlobs (bi_resource bi) resource)
    (\<lambda>b. \<exists>k p. globKey compile (b_Resource b) = Some k \<and> IsGlob k \<and> GetOrCompileGlob compile k = Some p
      \<and> (\<not> p (rk_raw resource) \<and> p (rk_sanitized resource)))"
    unfolding sanitizedOnlyGlobs_def
    using covers_globs [OF D(15,16), of "\<lambda>p. \<not> p (rk_raw resource) \<and> p (rk_sanitized resource)"] .
  then show ?thesis
    by (rule covers_cong [OF assms(1)]) (auto simp: sanitizedGlob_def MatchesGlob_iff)
qed

lemma covers_sanitizedPart:
  assumes "slots_inv bi" and "dims_inv compile bi"
    and "case principalBM of None \<Rightarrow> M = (\<lambda>b. True) | Some p \<Rightarrow> selects bi p M"
  shows "covers bi (sanitizedPart bi resource principalBM) (\<lambda>b. sanitizedGlob compile resource b \<and> M b)"
proof (cases "sanitizedOnlyGlobs (bi_resource bi) resource")
  case Nil
  then have "\<not> sanitizedGlob compile resource b" if "b \<in> set (rows bi)" for b
    using covers_sanitizedOnly [OF assms(1,2), of resource] that by (auto simp: covers_def set_rows [OF assms(1)])
  then show ?thesis using covers_Nil [OF assms(1)] Nil by (simp add: sanitizedPart_def)
next
  case (Cons g gs)
  let ?g = "if gs = [] then g else orInto poolNew (g # gs)"
  have "?g = orParts (sanitizedOnlyGlobs (bi_resource bi) resource)"
    by (simp add: Cons orParts_def split: list.split)
  then have g: "selects bi ?g (sanitizedGlob compile resource)"
    using covers_orParts [OF covers_sanitizedOnly [OF assms(1,2)]] by simp
  have "selects bi (case principalBM of None \<Rightarrow> ?g | Some p \<Rightarrow> and2 poolNew ?g p) (\<lambda>b. sanitizedGlob compile resource b \<and> M b)"
    using assms(3) g selects_and2 [OF g] by (cases principalBM) simp_all
  then show ?thesis
    using covers_nonEmpty [OF assms(1)] by (simp only: Cons sanitizedPart_def list.case Let_def)
qed

lemma resourceSel_sanitized:
  assumes "rk_sanitized resource \<noteq> ''''"
  shows "resourceSel compile policyKind resource b \<longleftrightarrow>
    (globKey compile (b_Resource b) = Some (rk_raw resource) \<and> \<not> IsGlob (rk_raw resource)
         \<or> globKey compile (b_Resource b) = Some (rk_sanitized resource) \<and> \<not> IsGlob (rk_sanitized resource))
      \<or> (\<exists>k p. globKey compile (b_Resource b) = Some k \<and> IsGlob k \<and> GetOrCompileGlob compile k = Some p \<and> p (rk_raw resource))
      \<or> sanitizedGlob compile resource b \<and>
        (policyKind = KIND_PRINCIPAL \<or> policyKind \<noteq> KIND_RESOURCE \<and> fc_PolicyKind (b_Core b) = KIND_PRINCIPAL)"
proof (cases "globKey compile (b_Resource b)")
  case None
  then show ?thesis by (simp add: resourceSel_def sanitizedGlob_def)
next
  case (Some k)
  show ?thesis
  proof (cases "IsGlob k")
    case True
    then show ?thesis
      using Some assms by (simp only: resourceSel_def sanitizedGlob_def keyMatches_def MatchesGlob_iff option.case if_True) blast
  next
    case False
    then show ?thesis
      using Some assms by (auto simp: resourceSel_def sanitizedGlob_def keyMatches_def)
  qed
qed

lemma selects_resourceQuery:
  assumes "slots_inv bi" and "dims_inv compile bi"
  shows "selects bi (resourceQuery bi resource policyKind) (resourceSel compile policyKind resource)"
proof (cases "rk_sanitized resource = ''''")
  case True
  have "resourceSel compile policyKind resource = (\<lambda>b. keySel compile (globKey compile (b_Resource b)) (rk_raw resource))"
    by (rule ext) (simp add: True resourceSel_def keySel_def split: option.split)
  then show ?thesis
    using selects_glob(1) [OF dims_invD(15,16) [OF assms(2)]] True by (simp add: resourceQuery_def)
next
  case False
  note D = dims_invD [OF assms(2)] and lit = looksUp_literals [OF assms(1) dims_invD(15,16) [OF assms(2)]]
  let ?key = "\<lambda>b. globKey compile (b_Resource b)"
  let ?rest = "if policyKind = KIND_RESOURCE then []
         else if policyKind = KIND_PRINCIPAL then sanitizedPart bi resource None
         else (case dim_Get (bi_policyKind bi) KIND_PRINCIPAL of
             None \<Rightarrow> [] | Some p \<Rightarrow> sanitizedPart bi resource (Some p))"
  let ?P = "\<lambda>b. sanitizedGlob compile resource b \<and>
    (policyKind = KIND_PRINCIPAL \<or> policyKind \<noteq> KIND_RESOURCE \<and> fc_PolicyKind (b_Core b) = KIND_PRINCIPAL)"
  have kind: "looksUp bi (dim_Get (bi_policyKind bi) KIND_PRINCIPAL) (\<lambda>b. fc_PolicyKind (b_Core b) = KIND_PRINCIPAL)"
    using looksUp_dim(1) [OF assms(1) D(9,10), of KIND_PRINCIPAL] by simp
  have rest: "covers bi ?rest ?P"
  proof (cases "policyKind = KIND_RESOURCE \<or> policyKind = KIND_PRINCIPAL")
    case True
    then show ?thesis
      using covers_Nil [OF assms(1)] covers_sanitizedPart [OF assms, where principalBM = None and M = "\<lambda>b. True"] by auto
  next
    case False
    show ?thesis
    proof (cases "dim_Get (bi_policyKind bi) KIND_PRINCIPAL")
      case None
      then show ?thesis using False looksUp_None [OF kind] covers_Nil [OF assms(1), of ?P] by simp
    next
      case (Some p)
      then have "selects bi p (\<lambda>b. fc_PolicyKind (b_Core b) = KIND_PRINCIPAL)" using kind by (simp add: looksUp_def)
      then show ?thesis
        using False Some covers_sanitizedPart [OF assms, where principalBM = "Some p"] by simp
    qed
  qed
  have "covers bi (globParts (bi_resource bi) (rk_raw resource))
      (\<lambda>b. \<exists>k p. ?key b = Some k \<and> IsGlob k \<and> GetOrCompileGlob compile k = Some p \<and> p (rk_raw resource))"
    unfolding globParts_def by (rule covers_globs [OF D(15,16)])
  from covers_append [OF covers_append [OF covers_lookup [OF assms(1) lit] covers_lookup [OF assms(1) lit]]
      covers_append [OF this rest], of "rk_raw resource" "rk_sanitized resource"]
  have "selects bi (resourceQuery bi resource policyKind)
    (\<lambda>b. (?key b = Some (rk_raw resource) \<and> \<not> IsGlob (rk_raw resource)
         \<or> ?key b = Some (rk_sanitized resource) \<and> \<not> IsGlob (rk_sanitized resource))
      \<or> (\<exists>k p. ?key b = Some k \<and> IsGlob k \<and> GetOrCompileGlob compile k = Some p \<and> p (rk_raw resource)) \<or> ?P b)"
    unfolding resourceQuery_parts [OF False] by (rule covers_orParts)
  then show ?thesis
    by (rule selects_cong [OF assms(1)]) (simp only: resourceSel_sanitized [OF False])
qed

lemma selects_resourceQueryMulti:
  assumes "slots_inv bi" and "dims_inv compile bi"
  shows "selects bi (resourceQueryMulti bi resources policyKind) (\<lambda>b. \<exists>r \<in> set resources. resourceSel compile policyKind r b)"
proof (cases resources rule: remdups_adj.cases)
  case 1
  then show ?thesis using selects_New [OF assms(1)] by (simp add: resourceQueryMulti_def)
next
  case (2 r)
  then show ?thesis using selects_resourceQuery [OF assms] by (simp add: resourceQueryMulti_def)
next
  case (3 r1 r2 rs)
  have "resourceQueryMulti bi resources policyKind =
      orParts (filter (\<lambda>bm. \<not> Bitmap_IsEmpty bm) (map (\<lambda>r. resourceQuery bi r policyKind) resources))"
    by (simp only: 3 resourceQueryMulti_def list.case)
  then show ?thesis
    using selects_resourceQuery [OF assms] by (auto intro!: covers_orParts covers_filter_nonEmpty [OF assms(1)])
qed

section \<open>The reference: a scan of the rows\<close>

text \<open>The conditions of \<^verbatim>\<open>Query\<close> on a row, in the order of the dimensions; an empty argument is no condition.\<close>

definition versionSel :: "string \<Rightarrow> BindingHandle \<Rightarrow> bool" where
  "versionSel version b \<longleftrightarrow> version \<noteq> '''' \<longrightarrow> b_Version b = version"

definition roleSel :: "compiler \<Rightarrow> string list \<Rightarrow> BindingHandle \<Rightarrow> bool" where
  "roleSel compile roles b \<longleftrightarrow> roles \<noteq> [] \<longrightarrow> (\<exists>r \<in> set roles. keySel compile (globKey compile (b_Role b)) r)"

definition actionSel :: "compiler \<Rightarrow> string \<Rightarrow> BindingHandle \<Rightarrow> bool" where
  "actionSel compile action b \<longleftrightarrow> action \<noteq> '''' \<longrightarrow> keySel compile (actionKey compile b) action"

definition rowSel :: "compiler \<Rightarrow> string \<Rightarrow> ResourceKind \<Rightarrow> string \<Rightarrow> string list \<Rightarrow> Kind \<Rightarrow> string \<Rightarrow> BindingHandle \<Rightarrow> bool" where
  "rowSel compile version resource scope roles policyKind principalID b \<longleftrightarrow>
     versionSel version b \<and> b_Scope b = scope
     \<and> (rk_raw resource \<noteq> '''' \<longrightarrow> resourceSel compile policyKind resource b)
     \<and> roleSel compile roles b
     \<and> (policyKind \<noteq> KIND_UNSPECIFIED \<longrightarrow> fc_PolicyKind (b_Core b) = policyKind)
     \<and> (principalID \<noteq> '''' \<longrightarrow> b_Principal b = principalID)"

text \<open>The denials of the role policies (the rows with an allow list) among the rows meeting the version, scope and role
  conditions; without target actions, those of the resource's rows are used.\<close>

definition scanActions :: "compiler \<Rightarrow> BindingHandle list \<Rightarrow> ResourceKind \<Rightarrow> (BindingHandle \<Rightarrow> bool) \<Rightarrow> string list" where
  "scanActions compile bs resource P =
     fold addActions (filter (\<lambda>b. resourceSel compile KIND_RESOURCE resource b \<and> P b) bs) []"

definition scanDenies ::
  "compiler \<Rightarrow> BindingHandle list \<Rightarrow> ResourceKind list \<Rightarrow> string list \<Rightarrow> string list \<Rightarrow> (BindingHandle \<Rightarrow> bool)
   \<Rightarrow> (BindingHandle \<Rightarrow> bool) \<Rightarrow> BindingHandle list" where
  "scanDenies compile bs resources roles targetActions P R =
     (let candidates = filter (\<lambda>b. P b \<and> R b \<and> b_AllowActions b \<noteq> None) bs;
          (reps, roleOrder) = rolePolicyReps candidates
      in concat (map (\<lambda>resource. concat (map
             (deniesForRole compile reps (filter (resourceSel compile KIND_RESOURCE resource) candidates) resource
               (if targetActions = [] then scanActions compile bs resource P else targetActions))
             (if roles = [] then roleOrder else roles))) resources))"

definition scanQuery ::
  "compiler \<Rightarrow> BindingHandle list \<Rightarrow> string \<Rightarrow> ResourceKind \<Rightarrow> string \<Rightarrow> string \<Rightarrow> string list \<Rightarrow> Kind \<Rightarrow> string \<Rightarrow> BindingHandle list" where
  "scanQuery compile bs version resource scope action roles policyKind principalID =
     (let base = filter (rowSel compile version resource scope roles policyKind principalID) bs
      in (if base \<noteq> [] \<and> action \<noteq> '''' \<and> rk_raw resource \<noteq> '''' \<and> policyKind = KIND_RESOURCE
          then scanDenies compile bs [resource] roles [action] (\<lambda>b. versionSel version b \<and> b_Scope b = scope) (roleSel compile roles)
          else [])
         @ filter (actionSel compile action) base)"

section \<open>Query is the scan\<close>

lemma filters_dims:
  assumes "slots_inv bi" and "dims_inv compile bi"
  shows "filters bi (queryDim (principalID \<noteq> '''') (lazy_Bitmap (bi_principal bi) principalID))
      (\<lambda>b. principalID \<noteq> '''' \<longrightarrow> b_Principal b = principalID)"
    and "looksUp bi (dim_Get (bi_scope bi) scope) (\<lambda>b. b_Scope b = scope)"
    and "filters bi (queryDim (version \<noteq> '''') (dim_Get (bi_version bi) version)) (versionSel version)"
    and "filters bi (queryDim (rk_raw resource \<noteq> '''') (nonEmpty (resourceQuery bi resource policyKind)))
      (\<lambda>b. rk_raw resource \<noteq> '''' \<longrightarrow> resourceSel compile policyKind resource b)"
    and "filters bi (queryDim (roles \<noteq> []) (nonEmpty (glob_QueryMultiple (bi_role bi) roles))) (roleSel compile roles)"
    and "filters bi (queryDim (policyKind \<noteq> KIND_UNSPECIFIED) (dim_Get (bi_policyKind bi) policyKind))
      (\<lambda>b. policyKind \<noteq> KIND_UNSPECIFIED \<longrightarrow> fc_PolicyKind (b_Core b) = policyKind)"
proof -
  note D = dims_invD [OF assms(2)]
  have plain: "(c \<noteq> '''' \<longrightarrow> plainKey s = Some c) = (c \<noteq> '''' \<longrightarrow> s = c)" for s c
    by (auto simp: plainKey_def)
  show "filters bi (queryDim (principalID \<noteq> '''') (lazy_Bitmap (bi_principal bi) principalID))
      (\<lambda>b. principalID \<noteq> '''' \<longrightarrow> b_Principal b = principalID)"
    using filters_queryDim [OF looksUp_lazy [OF assms(1) D(11,12)], of "principalID \<noteq> ''''" principalID]
    by (simp only: plain)
  show "looksUp bi (dim_Get (bi_scope bi) scope) (\<lambda>b. b_Scope b = scope)"
    using looksUp_dim(1) [OF assms(1) D(5,6), of scope] by simp
  show "filters bi (queryDim (version \<noteq> '''') (dim_Get (bi_version bi) version)) (versionSel version)"
    using filters_queryDim [OF looksUp_dim(1) [OF assms(1) D(7,8)], of "version \<noteq> ''''" version]
    by (simp only: plain versionSel_def [abs_def])
  show "filters bi (queryDim (rk_raw resource \<noteq> '''') (nonEmpty (resourceQuery bi resource policyKind)))
      (\<lambda>b. rk_raw resource \<noteq> '''' \<longrightarrow> resourceSel compile policyKind resource b)"
    by (rule filters_queryDim [OF looksUp_nonEmpty [OF assms(1) selects_resourceQuery [OF assms]]])
  show "filters bi (queryDim (roles \<noteq> []) (nonEmpty (glob_QueryMultiple (bi_role bi) roles))) (roleSel compile roles)"
    unfolding roleSel_def [abs_def]
    by (rule filters_queryDim [OF looksUp_nonEmpty [OF assms(1) selects_glob(2) [OF D(13,14)]]])
  show "filters bi (queryDim (policyKind \<noteq> KIND_UNSPECIFIED) (dim_Get (bi_policyKind bi) policyKind))
      (\<lambda>b. policyKind \<noteq> KIND_UNSPECIFIED \<longrightarrow> fc_PolicyKind (b_Core b) = policyKind)"
    using filters_queryDim [OF looksUp_dim(1) [OF assms(1) D(9,10)], of "policyKind \<noteq> KIND_UNSPECIFIED" policyKind] by simp
qed

lemma filters_Some: "filters bi r P \<Longrightarrow> r = Some ob \<Longrightarrow> selectsAll bi (optList ob) P"
  by (simp add: filters_def)

lemma filters_None: "filters bi r P \<Longrightarrow> r = None \<Longrightarrow> b \<in> set (rows bi) \<Longrightarrow> \<not> P b"
  by (simp add: filters_def)

definition dimsOf :: "QueryDims \<Rightarrow> Bitmap list" where
  "dimsOf d = optList (qd_version d) @ [qd_scope d] @ optList (qd_resource d) @ optList (qd_role d)
      @ optList (qd_policyKind d) @ optList (qd_principal d)"

lemma queryDims_facts:
  assumes "slots_inv bi" and "dims_inv compile bi"
  shows "queryDims bi version resource scope roles policyKind principalID = Some d \<Longrightarrow>
      selectsAll bi (dimsOf d) (rowSel compile version resource scope roles policyKind principalID)
      \<and> selectsAll bi (optList (qd_version d)) (versionSel version)
      \<and> selectsAll bi [qd_scope d] (\<lambda>b. b_Scope b = scope)
      \<and> selectsAll bi (optList (qd_role d)) (roleSel compile roles)"
    and "queryDims bi version resource scope roles policyKind principalID = None \<Longrightarrow> b \<in> set (rows bi) \<Longrightarrow>
      \<not> rowSel compile version resource scope roles policyKind principalID b"
proof -
  note F = filters_dims [OF assms]
  {
    assume "queryDims bi version resource scope roles policyKind principalID = Some d"
    then have q: "queryDim (principalID \<noteq> '''') (lazy_Bitmap (bi_principal bi) principalID) = Some (qd_principal d)"
      "dim_Get (bi_scope bi) scope = Some (qd_scope d)"
      "queryDim (version \<noteq> '''') (dim_Get (bi_version bi) version) = Some (qd_version d)"
      "queryDim (rk_raw resource \<noteq> '''') (nonEmpty (resourceQuery bi resource policyKind)) = Some (qd_resource d)"
      "queryDim (roles \<noteq> []) (nonEmpty (glob_QueryMultiple (bi_role bi) roles)) = Some (qd_role d)"
      "queryDim (policyKind \<noteq> KIND_UNSPECIFIED) (dim_Get (bi_policyKind bi) policyKind) = Some (qd_policyKind d)"
      unfolding queryDims_def bind_eq_Some_conv by auto
    note v = filters_Some [OF F(3) q(3)] and r = filters_Some [OF F(5) q(5)]
    have s: "selectsAll bi [qd_scope d] (\<lambda>b. b_Scope b = scope)"
      using F(2) [of scope] q(2) by (simp add: looksUp_def selectsAll_single)
    show "selectsAll bi (dimsOf d) (rowSel compile version resource scope roles policyKind principalID)
      \<and> selectsAll bi (optList (qd_version d)) (versionSel version)
      \<and> selectsAll bi [qd_scope d] (\<lambda>b. b_Scope b = scope)
      \<and> selectsAll bi (optList (qd_role d)) (roleSel compile roles)"
      unfolding dimsOf_def rowSel_def [abs_def]
      by (intro conjI selectsAll_append v s r filters_Some [OF F(1) q(1)] filters_Some [OF F(4) q(4)] filters_Some [OF F(6) q(6)])
  }
  assume none: "queryDims bi version resource scope roles policyKind principalID = None" and b: "b \<in> set (rows bi)"
  show "\<not> rowSel compile version resource scope roles policyKind principalID b"
  proof
    assume "rowSel compile version resource scope roles policyKind principalID b"
    then have "versionSel version b" "b_Scope b = scope" "rk_raw resource \<noteq> '''' \<longrightarrow> resourceSel compile policyKind resource b"
      "roleSel compile roles b" "policyKind \<noteq> KIND_UNSPECIFIED \<longrightarrow> fc_PolicyKind (b_Core b) = policyKind"
      "principalID \<noteq> '''' \<longrightarrow> b_Principal b = principalID"
      unfolding rowSel_def by blast+
    then have "queryDim (principalID \<noteq> '''') (lazy_Bitmap (bi_principal bi) principalID) \<noteq> None"
      "dim_Get (bi_scope bi) scope \<noteq> None"
      "queryDim (version \<noteq> '''') (dim_Get (bi_version bi) version) \<noteq> None"
      "queryDim (rk_raw resource \<noteq> '''') (nonEmpty (resourceQuery bi resource policyKind)) \<noteq> None"
      "queryDim (roles \<noteq> []) (nonEmpty (glob_QueryMultiple (bi_role bi) roles)) \<noteq> None"
      "queryDim (policyKind \<noteq> KIND_UNSPECIFIED) (dim_Get (bi_policyKind bi) policyKind) \<noteq> None"
      using F(1,3,4,5,6) [THEN filters_None] looksUp_None [OF F(2)] b by blast+
    then have "queryDims bi version resource scope roles policyKind principalID \<noteq> None"
      unfolding queryDims_def by (elim not_None_eq [THEN iffD1, elim_format] exE) simp
    then show False using none by contradiction
  qed
qed

lemma selects_allowActions: "dims_inv compile bi \<Longrightarrow> selects bi (bi_allowActionsBitmap bi) (\<lambda>b. b_AllowActions b \<noteq> None)"
  by (simp add: selects_def dims_inv_def)

lemma rolePolicyReps_Nil [simp]: "rolePolicyReps [] = ([], [])"
  by (simp add: rolePolicyReps_def)

lemma deniesForRole_none [simp]: "deniesForRole compile [] bs resource actions = (\<lambda>role. [])"
  by (rule ext) (simp add: deniesForRole_def)

lemma concat_map_Nil [simp]: "concat (map (\<lambda>x. []) xs) = []"
  by (induction xs) auto

lemma selectsAll_cong:
  "slots_inv bi \<Longrightarrow> selectsAll bi bms P \<Longrightarrow> (\<And>b. b \<in> set (rows bi) \<Longrightarrow> P b = Q b) \<Longrightarrow> selectsAll bi bms Q"
  unfolding selectsAll_def set_rows by metis

lemma collectResourceActions_scan:
  assumes "slots_inv bi" and "dims_inv compile bi"
    and "selectsAll bi (optList versionBM) V" and "selectsAll bi (optList scopeBM) S"
  shows "collectResourceActions bi (resourceQuery bi resource KIND_RESOURCE) versionBM scopeBM =
    scanActions compile (rows bi) resource (\<lambda>b. V b \<and> S b)"
proof -
  let ?res = "resourceQuery bi resource KIND_RESOURCE"
  note res = selects_resourceQuery [OF assms(1,2), of resource KIND_RESOURCE]
  have all: "selects bi (andFrom ([?res] @ optList versionBM @ optList scopeBM))
      (\<lambda>b. resourceSel compile KIND_RESOURCE resource b \<and> V b \<and> S b)"
    by (intro selects_andFrom selectsAll_append selectsAll_single res assms(3,4)) simp
  have "scanActions compile (rows bi) resource (\<lambda>b. V b \<and> S b) =
      fold addActions (bindingsOf bi (andFrom ([?res] @ optList versionBM @ optList scopeBM))) []"
    by (simp only: scanActions_def bindingsOf_filter [OF assms(1) all])
  moreover have "filter (\<lambda>b. resourceSel compile KIND_RESOURCE resource b \<and> V b \<and> S b) (rows bi) = []"
    if "Bitmap_IsEmpty ?res \<or> Bitmap_IsEmpty (andFrom ([?res] @ optList versionBM @ optList scopeBM))"
    using that selects_IsEmpty [OF assms(1) res] selects_IsEmpty [OF assms(1) all] by (auto simp: filter_empty_conv)
  ultimately show ?thesis
    unfolding collectResourceActions_def Let_def bindingsOf_filter [OF assms(1) all] by simp
qed

lemma appendRolePolicyDenies_scan:
  assumes "slots_inv bi" and "dims_inv (ext_compile E) bi"
    and "selectsAll bi (optList versionBM) V" and "selectsAll bi (optList scopeBM) S" and "selectsAll bi (optList roleBM) R"
  shows "appendRolePolicyDenies E bi resources roles targetActions versionBM scopeBM roleBM res =
    res @ scanDenies (ext_compile E) (rows bi) resources roles targetActions (\<lambda>b. V b \<and> S b) R"
proof -
  let ?cand = "andFrom (optList versionBM @ optList scopeBM @ optList roleBM @ [bi_allowActionsBitmap bi])"
  let ?P = "\<lambda>b. (V b \<and> S b) \<and> R b \<and> b_AllowActions b \<noteq> None"
  have "selects bi ?cand (\<lambda>b. V b \<and> S b \<and> R b \<and> b_AllowActions b \<noteq> None)"
    by (intro selects_andFrom selectsAll_append assms(3-5) selectsAll_single selects_allowActions [OF assms(2)]) simp
  then have cand: "selects bi ?cand ?P" by (simp only: conj_assoc)
  have matched: "bindingsOf bi (if \<not> Bitmap_IsEmpty (resourceQuery bi r KIND_RESOURCE)
        then and2 poolNew ?cand (resourceQuery bi r KIND_RESOURCE) else NewBitmap) =
      filter (resourceSel (ext_compile E) KIND_RESOURCE r) (filter ?P (rows bi))" for r
  proof -
    note res = selects_resourceQuery [OF assms(1,2), of r KIND_RESOURCE]
    have "selects bi (if \<not> Bitmap_IsEmpty (resourceQuery bi r KIND_RESOURCE)
        then and2 poolNew ?cand (resourceQuery bi r KIND_RESOURCE) else NewBitmap)
      (\<lambda>b. ?P b \<and> resourceSel (ext_compile E) KIND_RESOURCE r b)"
      using selects_and2 [OF cand res] selects_IsEmpty [OF assms(1) res] selects_New [OF assms(1)] by auto
    then show ?thesis using bindingsOf_filter [OF assms(1)] by (simp only: filter_filter conj_commute)
  qed
  show ?thesis
  proof (cases "Bitmap_IsEmpty ?cand")
    case True
    then have "filter ?P (rows bi) = []"
      using selects_IsEmpty [OF assms(1) cand] by (simp only: filter_empty_conv)
    then have "scanDenies (ext_compile E) (rows bi) resources roles targetActions (\<lambda>b. V b \<and> S b) R = []"
      by (simp only: scanDenies_def rolePolicyReps_Nil Let_def prod.case deniesForRole_none concat_map_Nil)
    then show ?thesis using True by (simp add: appendRolePolicyDenies_def Let_def)
  next
    case False
    then show ?thesis
      unfolding appendRolePolicyDenies_def scanDenies_def Let_def matched bindingsOf_filter [OF assms(1) cand]
        collectResourceActions_scan [OF assms(1-4)] by (simp split: prod.split)
  qed
qed

lemma scanDenies_none:
  assumes "\<And>b. b \<in> set bs \<Longrightarrow> P b \<Longrightarrow> R b \<Longrightarrow> b_AllowActions b = None"
  shows "scanDenies compile bs resources roles actions P R = []"
proof -
  have "filter (\<lambda>b. P b \<and> R b \<and> b_AllowActions b \<noteq> None) bs = []" using assms by (auto simp: filter_empty_conv)
  then show ?thesis
    by (simp only: scanDenies_def rolePolicyReps_Nil Let_def prod.case deniesForRole_none concat_map_Nil)
qed

text \<open>The last stage of \<^verbatim>\<open>Query\<close>: the action filter on the base bitmap.\<close>

definition resultBM :: "bitmapIndex \<Rightarrow> Bitmap \<Rightarrow> string \<Rightarrow> Bitmap" where
  "resultBM bi baseBM action = (if action \<noteq> ''''
      then let actionBM = glob_Query (bi_action bi) action
        in if \<not> Bitmap_IsEmpty actionBM then and2 poolNew baseBM actionBM else NewBitmap
      else baseBM)"

lemma resultBM_rows:
  assumes "slots_inv bi" and "dims_inv compile bi" and "selects bi base P"
  shows "(if \<not> Bitmap_IsEmpty (resultBM bi base action) then buf @ bindingsOf bi (resultBM bi base action) else buf) =
    buf @ filter (actionSel compile action) (filter P (rows bi))"
proof -
  note act = selects_glob(1) [OF dims_invD(17,18) [OF assms(2)], of action]
  have result: "selects bi (resultBM bi base action) (\<lambda>b. P b \<and> actionSel compile action b)"
  proof (cases "action \<noteq> '''' \<and> Bitmap_IsEmpty (glob_Query (bi_action bi) action)")
    case True
    then show ?thesis
      using selects_IsEmpty [OF assms(1) act]
      by (auto intro!: selects_New [OF assms(1)] simp: actionSel_def Let_def resultBM_def)
  next
    case False
    then show ?thesis
      using assms(3) selects_and2 [OF assms(3) act] by (auto simp: actionSel_def Let_def resultBM_def)
  qed
  have "filter (\<lambda>b. P b \<and> actionSel compile action b) (rows bi) = []" if "Bitmap_IsEmpty (resultBM bi base action)"
    using selects_IsEmpty [OF assms(1) result] that by (simp only: filter_empty_conv)
  then show ?thesis
    unfolding filter_filter bindingsOf_filter [OF assms(1) result] by (simp add: conj_commute)
qed

lemma scanQuery_none:
  assumes "\<And>b. b \<in> set bs \<Longrightarrow> \<not> rowSel compile version resource scope roles policyKind principalID b"
  shows "scanQuery compile bs version resource scope action roles policyKind principalID = []"
proof -
  have "filter (rowSel compile version resource scope roles policyKind principalID) bs = []"
    using assms by (simp add: filter_empty_conv)
  then show ?thesis by (simp add: scanQuery_def)
qed

lemma rows_empty: "slots_inv bi \<Longrightarrow> dims_inv compile bi \<Longrightarrow> Bitmap_IsEmpty (bi_universe bi) \<Longrightarrow> rows bi = []"
  using selects_IsEmpty [OF _ selects_universe] by (cases "rows bi") auto

lemma Query_scan:
  assumes "bi_inv (ext_compile E) (ix_bi m)"
  shows "Query E m version resource scope action roles policyKind principalID buf =
    buf @ scanQuery (ext_compile E) (GetAllRows m) version resource scope action roles policyKind principalID"
proof -
  let ?bi = "ix_bi m" and ?c = "ext_compile E"
  let ?row = "rowSel ?c version resource scope roles policyKind principalID"
  have inv: "slots_inv ?bi" "dims_inv ?c ?bi" using assms by (auto simp: bi_inv_def)
  consider (empty) "Bitmap_IsEmpty (bi_universe ?bi)"
    | (stop) "\<not> Bitmap_IsEmpty (bi_universe ?bi)" "queryDims ?bi version resource scope roles policyKind principalID = None"
    | (dims) d where "\<not> Bitmap_IsEmpty (bi_universe ?bi)" "queryDims ?bi version resource scope roles policyKind principalID = Some d"
    by fastforce
  then show ?thesis
  proof cases
    case empty
    then show ?thesis using rows_empty [OF inv] scanQuery_none [of "[]"] by (simp add: Query_def GetAllRows_rows)
  next
    case stop
    then show ?thesis
      using scanQuery_none [OF queryDims_facts(2) [OF inv stop(2)]] by (simp add: Query_def GetAllRows_rows)
  next
    case dims
    note F = queryDims_facts(1) [OF inv dims(2)]
    let ?base = "andDims (bi_universe ?bi) (dimsOf d)"
    have base: "selects ?bi ?base ?row" using selects_andDims [OF inv(2)] F by blast
    note rows = resultBM_rows [OF inv base, where action = action, unfolded resultBM_def Let_def]
    have denies: "appendRolePolicyDenies E ?bi [resource] roles [action] (qd_version d) (Some (qd_scope d)) (qd_role d) buf =
        buf @ scanDenies ?c (rows ?bi) [resource] roles [action] (\<lambda>b. versionSel version b \<and> b_Scope b = scope) (roleSel ?c roles)"
      using F by (intro appendRolePolicyDenies_scan [OF inv]) (simp_all add: optList_def)
    have noAllow: "scanDenies ?c (rows ?bi) [resource] roles [action] P R = []"
      if "Bitmap_IsEmpty (bi_allowActionsBitmap ?bi)" for P R
      using selects_IsEmpty [OF inv(1) selects_allowActions [OF inv(2)]] that by (intro scanDenies_none) simp
    have baseEmpty: "Bitmap_IsEmpty ?base \<longleftrightarrow> filter ?row (rows ?bi) = []"
      using selects_IsEmpty [OF inv(1) base] by (simp only: filter_empty_conv)
    show ?thesis
      unfolding Query_def GetAllRows_rows scanQuery_def dims(2) Let_def option.case dimsOf_def [symmetric]
      using dims(1) noAllow by (simp add: baseEmpty rows denies del: filter_filter)
  qed
qed

section \<open>QueryMulti and the key listings\<close>

definition versionsSel :: "string list \<Rightarrow> BindingHandle \<Rightarrow> bool" where
  "versionsSel versions b \<longleftrightarrow> versions \<noteq> [] \<longrightarrow> b_Version b \<noteq> '''' \<and> b_Version b \<in> set versions"

definition scopesSel :: "string list \<Rightarrow> BindingHandle \<Rightarrow> bool" where
  "scopesSel scopes b \<longleftrightarrow> scopes \<noteq> [] \<longrightarrow> b_Scope b \<in> set scopes"

definition resourcesSel :: "compiler \<Rightarrow> Kind \<Rightarrow> ResourceKind list \<Rightarrow> BindingHandle \<Rightarrow> bool" where
  "resourcesSel compile policyKind resources b \<longleftrightarrow>
     resources \<noteq> [] \<longrightarrow> (\<exists>r \<in> set resources. resourceSel compile policyKind r b)"

definition actionsSel :: "compiler \<Rightarrow> string list \<Rightarrow> BindingHandle \<Rightarrow> bool" where
  "actionsSel compile actions b \<longleftrightarrow>
     actions \<noteq> [] \<longrightarrow> (\<exists>a \<in> set actions. keySel compile (actionKey compile b) a) \<or> b_AllowActions b \<noteq> None"

definition scanQueryMulti ::
  "compiler \<Rightarrow> BindingHandle list \<Rightarrow> string list \<Rightarrow> string list \<Rightarrow> string list \<Rightarrow> string list \<Rightarrow> string list \<Rightarrow> bool \<Rightarrow> BindingHandle list" where
  "scanQueryMulti compile bs versions resources scopes roles actions withRolePolicyDenies =
     (let inScope = (\<lambda>b. versionsSel versions b \<and> scopesSel scopes b)
      in filter (\<lambda>b. inScope b \<and> resourcesSel compile KIND_UNSPECIFIED (newResourceKinds resources) b
                   \<and> roleSel compile roles b \<and> actionsSel compile actions b) bs
         @ (if withRolePolicyDenies
            then scanDenies compile bs (newResourceKinds resources) roles actions inScope (roleSel compile roles) else []))"

lemma selects_versions_scopes:
  assumes "slots_inv bi" and "dims_inv compile bi"
  shows "filters bi (queryDim (versions \<noteq> []) (nonEmpty (dim_QueryMultiple versions (bi_version bi)))) (versionsSel versions)"
    and "filters bi (queryDim (scopes \<noteq> []) (nonEmpty (dim_QueryMultiple scopes (bi_scope bi)))) (scopesSel scopes)"
    and "selects bi (dim_QueryMultiple scopes (bi_scope bi)) (\<lambda>b. b_Scope b \<in> set scopes)"
proof -
  note D = dims_invD [OF assms(2)]
  have plain: "(\<exists>k \<in> set vs. plainKey s = Some k) \<longleftrightarrow> s \<noteq> '''' \<and> s \<in> set vs" for s vs
    by (auto simp: plainKey_def)
  show "filters bi (queryDim (versions \<noteq> []) (nonEmpty (dim_QueryMultiple versions (bi_version bi)))) (versionsSel versions)"
    unfolding versionsSel_def [abs_def] plain [symmetric]
    by (intro filters_queryDim looksUp_nonEmpty looksUp_dim(2) assms(1) D(7,8))
  have "(\<exists>k \<in> set ss. Some s = Some k) \<longleftrightarrow> s \<in> set ss" for s :: string and ss by auto
  then show scope: "selects bi (dim_QueryMultiple scopes (bi_scope bi)) (\<lambda>b. b_Scope b \<in> set scopes)"
    using looksUp_dim(2) [OF assms(1) D(5,6), of scopes] by simp
  show "filters bi (queryDim (scopes \<noteq> []) (nonEmpty (dim_QueryMultiple scopes (bi_scope bi)))) (scopesSel scopes)"
    unfolding scopesSel_def [abs_def]
    by (intro filters_queryDim looksUp_nonEmpty scope assms(1))
qed

lemma versionScopeFilters_facts:
  assumes "slots_inv bi" and "dims_inv compile bi"
  shows "versionScopeFilters bi versions scopes = Some (v, s) \<Longrightarrow>
      selectsAll bi (optList v) (versionsSel versions) \<and> selectsAll bi (optList s) (scopesSel scopes)"
    and "versionScopeFilters bi versions scopes = None \<Longrightarrow> b \<in> set (rows bi) \<Longrightarrow> \<not> (versionsSel versions b \<and> scopesSel scopes b)"
proof -
  note F = selects_versions_scopes(1,2) [OF assms]
  show "selectsAll bi (optList v) (versionsSel versions) \<and> selectsAll bi (optList s) (scopesSel scopes)"
    if "versionScopeFilters bi versions scopes = Some (v, s)"
    using that filters_Some [OF F(1)] filters_Some [OF F(2)] by (auto simp: versionScopeFilters_def bind_eq_Some_conv)
  show "\<not> (versionsSel versions b \<and> scopesSel scopes b)"
    if "versionScopeFilters bi versions scopes = None" "b \<in> set (rows bi)"
    using that filters_None [OF F(1)] filters_None [OF F(2)]
    by (auto simp: versionScopeFilters_def Option.bind_eq_None_conv)
qed

lemma selects_applyActionFilter:
  assumes "slots_inv bi" and "dims_inv compile bi" and "selects bi base P"
  shows "selects bi (applyActionFilter bi base actions) (\<lambda>b. P b \<and> actionsSel compile actions b)"
proof (cases "actions = []")
  case True
  then show ?thesis using assms(3) by (simp add: applyActionFilter_def actionsSel_def)
next
  case False
  let ?A = "\<lambda>b. \<exists>a \<in> set actions. keySel compile (actionKey compile b) a"
  let ?act = "glob_QueryMultiple (bi_action bi) actions" and ?aa = "and2 poolNew base (bi_allowActionsBitmap bi)"
  note act = selects_glob(2) [OF dims_invD(17,18) [OF assms(2)], of actions]
    and allow = selects_allowActions [OF assms(2)]
  note aa = selects_and2 [OF assms(3) allow]
  have "covers bi (if \<not> Bitmap_IsEmpty ?act then [and2 poolNew base ?act] else []) (\<lambda>b. P b \<and> ?A b)"
  proof (cases "Bitmap_IsEmpty ?act")
    case True
    then show ?thesis using selects_IsEmpty [OF assms(1) act] covers_Nil [OF assms(1), of "\<lambda>b. P b \<and> ?A b"] by simp
  qed (simp add: covers_single selects_and2 [OF assms(3) act])
  moreover have "covers bi (if \<not> Bitmap_IsEmpty (bi_allowActionsBitmap bi) \<and> \<not> Bitmap_IsEmpty ?aa then [?aa] else [])
      (\<lambda>b. P b \<and> b_AllowActions b \<noteq> None)"
  proof (cases "Bitmap_IsEmpty (bi_allowActionsBitmap bi)")
    case True
    then show ?thesis
      using selects_IsEmpty [OF assms(1) allow] covers_Nil [OF assms(1), of "\<lambda>b. P b \<and> b_AllowActions b \<noteq> None"] by simp
  qed (use covers_nonEmpty [OF assms(1) aa] in simp)
  ultimately have "selects bi (applyActionFilter bi base actions) (\<lambda>b. P b \<and> ?A b \<or> P b \<and> b_AllowActions b \<noteq> None)"
    using False by (simp only: applyActionFilter_def Let_def if_False) (intro covers_orParts covers_append)
  then show ?thesis
    by (rule selects_cong [OF assms(1)]) (use False in \<open>auto simp: actionsSel_def\<close>)
qed

lemma scanQueryMulti_none:
  assumes "\<And>b. b \<in> set bs \<Longrightarrow> \<not> (versionsSel versions b \<and> scopesSel scopes b \<and> roleSel compile roles b)"
  shows "scanQueryMulti compile bs versions resources scopes roles actions deny = []"
proof -
  have "filter (\<lambda>b. (versionsSel versions b \<and> scopesSel scopes b) \<and> resourcesSel compile KIND_UNSPECIFIED (newResourceKinds resources) b
      \<and> roleSel compile roles b \<and> actionsSel compile actions b) bs = []"
    using assms by (auto simp: filter_empty_conv)
  then show ?thesis
    using scanDenies_none [of bs "\<lambda>b. versionsSel versions b \<and> scopesSel scopes b" "roleSel compile roles"] assms
    by (auto simp: scanQueryMulti_def)
qed

text \<open>The intersection of the four filters of \<^verbatim>\<open>QueryMulti\<close>.\<close>

lemma selects_multiBase:
  fixes resources :: "ResourceKind list" and compile :: compiler
  assumes "slots_inv bi" and "dims_inv compile bi" and "selectsAll bi (optList v) V" and "selectsAll bi (optList s) S"
    and "selectsAll bi (optList r) R"
  defines "res \<equiv> (if resources \<noteq> [] then Some (resourceQueryMulti bi resources KIND_UNSPECIFIED) else None)"
  defines "dims \<equiv> optList v @ optList s @ optList res @ optList r"
  shows "selects bi (case dims of [] \<Rightarrow> bi_universe bi | [d] \<Rightarrow> d | _ \<Rightarrow> andInto poolNew dims)
    (\<lambda>b. V b \<and> S b \<and> resourcesSel compile KIND_UNSPECIFIED resources b \<and> R b)"
proof -
  have "selectsAll bi (optList res) (resourcesSel compile KIND_UNSPECIFIED resources)"
    using selectsAll_single [OF selects_resourceQueryMulti [OF assms(1,2), of resources KIND_UNSPECIFIED]]
    by (auto simp: optList_def resourcesSel_def [abs_def] res_def)
  then have all: "selectsAll bi dims (\<lambda>b. V b \<and> S b \<and> resourcesSel compile KIND_UNSPECIFIED resources b \<and> R b)"
    unfolding dims_def by (intro selectsAll_append assms(3-5))
  show ?thesis
    using all selectsAll_andInto [OF all] selectsAll_sole selects_andDims [OF assms(2), of "[]"]
    by (auto simp: andDims_def split: list.split)
qed

lemma QueryMulti_scan:
  assumes "bi_inv (ext_compile E) (ix_bi m)"
  shows "QueryMulti E m versions resources scopes roles actions deny =
    map (\<lambda>b. toBinding b (EvalKey m (b_ID b)))
      (scanQueryMulti (ext_compile E) (GetAllRows m) versions resources scopes roles actions deny)"
proof -
  let ?bi = "ix_bi m" and ?c = "ext_compile E"
  have inv: "slots_inv ?bi" "dims_inv ?c ?bi" using assms by (auto simp: bi_inv_def)
  note none = scanQueryMulti_none [of "rows ?bi" versions scopes ?c roles resources actions deny]
    and roles = filters_dims(5) [OF inv, of roles]
  consider (empty) "Bitmap_IsEmpty (bi_universe ?bi)"
    | (stop) "\<not> Bitmap_IsEmpty (bi_universe ?bi)" "versionScopeFilters ?bi versions scopes = None"
    | (norole) v s where "\<not> Bitmap_IsEmpty (bi_universe ?bi)" "versionScopeFilters ?bi versions scopes = Some (v, s)"
        "queryDim (roles \<noteq> []) (nonEmpty (glob_QueryMultiple (bi_role ?bi) roles)) = None"
    | (dims) v s r where "\<not> Bitmap_IsEmpty (bi_universe ?bi)" "versionScopeFilters ?bi versions scopes = Some (v, s)"
        "queryDim (roles \<noteq> []) (nonEmpty (glob_QueryMultiple (bi_role ?bi) roles)) = Some r"
    by fastforce
  then show ?thesis
  proof cases
    case empty
    then show ?thesis using none rows_empty [OF inv] by (simp add: QueryMulti_def GetAllRows_rows)
  next
    case stop
    then show ?thesis
      using none versionScopeFilters_facts(2) [OF inv stop(2)] by (auto simp: QueryMulti_def GetAllRows_rows)
  next
    case norole
    then show ?thesis using none filters_None [OF roles norole(3)] by (auto simp: QueryMulti_def GetAllRows_rows)
  next
    case dims
    note F = versionScopeFilters_facts(1) [OF inv dims(2)]
    note base = selects_multiBase [OF inv conjunct1 [OF F] conjunct2 [OF F] filters_Some [OF roles dims(3)],
        of "newResourceKinds resources"]
    note act = selects_applyActionFilter [OF inv base, of actions]
      and empty = selects_IsEmpty [OF inv(1) base]
      and denies = appendRolePolicyDenies_scan [OF inv conjunct1 [OF F] conjunct2 [OF F] filters_Some [OF roles dims(3)]]
    show ?thesis
      unfolding QueryMulti_def GetAllRows_rows scanQueryMulti_def dims(2,3) Let_def option.case prod.case EvalKey_def
        bindingsOf_filter [OF inv(1) act] empty denies
      using dims(1) by (auto simp: filter_empty_conv intro: arg_cong)
  qed
qed

text \<open>The interface \<^verbatim>\<open>keyDimension\<close>: enumerate the keys with an ID in the filter.\<close>

locale key_dimension =
  fixes intersecting :: "Bitmap \<Rightarrow> 'd \<Rightarrow> string list"
    and ids :: "'d \<Rightarrow> string \<Rightarrow> u32 set"
    and inv :: "'d \<Rightarrow> bool"
  assumes intersecting_iff: "inv d \<Longrightarrow> bm_inv f \<Longrightarrow> k \<in> set (intersecting f d) \<longleftrightarrow> ids d k \<inter> bm_set f \<noteq> {}"
begin

lemma keys_of_selected:
  assumes "slots_inv bi" and "inv d" and "tracks (ids d) (getBinding bi) key" and "selects bi f P"
  shows "k \<in> set (intersecting f d) \<longleftrightarrow> (\<exists>b \<in> set (rows bi). key b = Some k \<and> P b)"
  using assms intersecting_iff [OF assms(2), of f k] unfolding selects_def tracks_def Bex_def set_rows [OF assms(1)] by auto

lemma dimension_keys:
  assumes "slots_inv bi" and "dims_inv compile bi" and "inv d" and "tracks (ids d) (getBinding bi) key"
  shows "k \<in> set (resourceDimensionKeys bi (\<lambda>f. intersecting f d) versions scopes resources) \<longleftrightarrow>
    (\<exists>b \<in> set (rows bi). key b = Some k \<and> fc_PolicyKind (b_Core b) = KIND_RESOURCE \<and> versionsSel versions b
       \<and> scopesSel scopes b \<and> resourcesSel compile KIND_RESOURCE (newResourceKinds resources) b)"
    (is "_ \<longleftrightarrow> (\<exists>b \<in> _. key b = Some k \<and> ?K b \<and> ?V b \<and> ?S b \<and> ?R b)")
proof -
  have kind: "looksUp bi (dim_Get (bi_policyKind bi) KIND_RESOURCE) ?K"
    using looksUp_dim(1) [OF assms(1) dims_invD(9,10) [OF assms(2)], of KIND_RESOURCE] by simp
  have "filters bi (queryDim (newResourceKinds resources \<noteq> [])
      (nonEmpty (resourceQueryMulti bi (newResourceKinds resources) KIND_RESOURCE))) ?R"
    unfolding resourcesSel_def [abs_def]
    by (intro filters_queryDim looksUp_nonEmpty selects_resourceQueryMulti assms(1,2))
  then have res: "filters bi (queryDim (resources \<noteq> [])
      (nonEmpty (resourceQueryMulti bi (newResourceKinds resources) KIND_RESOURCE))) ?R"
    by (simp add: newResourceKinds_def)
  consider (none) "dim_Get (bi_policyKind bi) KIND_RESOURCE = None \<or> versionScopeFilters bi versions scopes = None
      \<or> queryDim (resources \<noteq> []) (nonEmpty (resourceQueryMulti bi (newResourceKinds resources) KIND_RESOURCE)) = None"
    | (dims) kbm v s r where "dim_Get (bi_policyKind bi) KIND_RESOURCE = Some kbm"
      "versionScopeFilters bi versions scopes = Some (v, s)"
      "queryDim (resources \<noteq> []) (nonEmpty (resourceQueryMulti bi (newResourceKinds resources) KIND_RESOURCE)) = Some r"
    by (metis not_None_eq surj_pair)
  then show ?thesis
  proof cases
    case none
    then have "resourceDimensionKeys bi (\<lambda>f. intersecting f d) versions scopes resources = []"
      by (auto simp: resourceDimensionKeys_def split: option.splits)
    moreover have "\<not> (?K b \<and> ?V b \<and> ?S b \<and> ?R b)" if "b \<in> set (rows bi)" for b
      using none looksUp_None [OF kind _ that] versionScopeFilters_facts(2) [OF assms(1,2) _ that] filters_None [OF res _ that]
      by blast
    ultimately show ?thesis by auto
  next
    case dims
    note F = versionScopeFilters_facts(1) [OF assms(1,2) dims(2)]
    let ?fs = "[kbm] @ optList v @ optList s @ optList r"
    have all: "selectsAll bi ?fs (\<lambda>b. ?K b \<and> ?V b \<and> ?S b \<and> ?R b)"
      using kind F filters_Some [OF res dims(3)] dims(1)
      by (intro selectsAll_append selectsAll_single) (simp_all add: looksUp_def)
    have flt: "selects bi (if length ?fs > 1 then andInto poolNew ?fs else hd ?fs) (\<lambda>b. ?K b \<and> ?V b \<and> ?S b \<and> ?R b)"
      using selectsAll_andInto [OF all] all selectsAll_sole by (cases "optList v @ optList s @ optList r") auto
    have "k \<notin> set (intersecting f d)" if "Bitmap_IsEmpty f" "bm_inv f" for f
      using that intersecting_iff [OF assms(3)] by (simp add: IsEmpty_iff)
    then have "k \<in> set (resourceDimensionKeys bi (\<lambda>f. intersecting f d) versions scopes resources) \<longleftrightarrow>
        k \<in> set (intersecting (if length ?fs > 1 then andInto poolNew ?fs else hd ?fs) d)"
      using flt dims by (auto simp: resourceDimensionKeys_def Let_def selects_def split: if_splits)
    then show ?thesis using keys_of_selected [OF assms(1,3,4) flt] by simp
  qed
qed

end

interpretation exactKeys: key_dimension dim_intersectingKeys dim_ids dim_inv
  by unfold_locales (rule dim_intersectingKeys_iff)

interpretation globKeys: key_dimension glob_intersectingKeys glob_ids "glob_inv compile" for compile
  by unfold_locales (rule glob_Keys_iff(2))

text \<open>The two existence tests.\<close>

lemma scoped_exists:
  assumes "slots_inv bi" and "dims_inv compile bi" and "selectsAll bi bms P"
  shows "(case dim_Get (bi_version bi) version of None \<Rightarrow> False
      | Some versionBM \<Rightarrow> (case dim_Get (bi_policyKind bi) kind of None \<Rightarrow> False
          | Some kindBM \<Rightarrow> intersectionNonEmpty versionBM (bms @ [kindBM]))) \<longleftrightarrow>
    (\<exists>b \<in> set (rows bi). b_Version b = version \<and> version \<noteq> '''' \<and> P b \<and> fc_PolicyKind (b_Core b) = kind)"
proof -
  note D = dims_invD [OF assms(2)]
  have plain: "plainKey s = Some version \<longleftrightarrow> s = version \<and> version \<noteq> ''''" for s by (auto simp: plainKey_def)
  have v: "looksUp bi (dim_Get (bi_version bi) version) (\<lambda>b. b_Version b = version \<and> version \<noteq> '''')"
    using looksUp_dim(1) [OF assms(1) D(7,8), of version] by (simp only: plain)
  have k: "looksUp bi (dim_Get (bi_policyKind bi) kind) (\<lambda>b. fc_PolicyKind (b_Core b) = kind)"
    using looksUp_dim(1) [OF assms(1) D(9,10), of kind] by simp
  show ?thesis
  proof (cases "dim_Get (bi_version bi) version = None \<or> dim_Get (bi_policyKind bi) kind = None")
    case True
    then show ?thesis using v k by (auto simp: looksUp_def split: option.splits)
  next
    case False
    then obtain vbm kbm where g: "dim_Get (bi_version bi) version = Some vbm" "dim_Get (bi_policyKind bi) kind = Some kbm"
      by auto
    then have "selectsAll bi ([vbm] @ bms @ [kbm]) (\<lambda>b. (b_Version b = version \<and> version \<noteq> '''') \<and> P b \<and> fc_PolicyKind (b_Core b) = kind)"
      using v k by (intro selectsAll_append selectsAll_single assms(3)) (simp_all add: looksUp_def)
    note sel = selectsAll_andInto [OF this] and all = this
    have inv: "\<forall>bm \<in> insert vbm (set (bms @ [kbm])). bm_inv bm" using all by (auto simp: selectsAll_def)
    then have "intersectionNonEmpty vbm (bms @ [kbm]) \<longleftrightarrow> bm_set (andInto poolNew ([vbm] @ bms @ [kbm])) \<noteq> {}"
      using intersectionNonEmpty_iff [OF inv] andInto_facts(2) [OF poolReady_New, of "[vbm] @ bms @ [kbm]"]
      by (simp add: list_all_iff)
    then show ?thesis using sel by (auto simp: g selects_def Bex_def set_rows [OF assms(1)])
  qed
qed

lemma ScopedResourceExists_iff:
  assumes "bi_inv compile (ix_bi m)"
  shows "ScopedResourceExists m version resource scopes \<longleftrightarrow>
    (\<exists>b \<in> set (GetAllRows m). b_Version b = version \<and> version \<noteq> ''''
       \<and> (b_Scope b \<in> set scopes \<and> resourceSel compile KIND_RESOURCE resource b) \<and> fc_PolicyKind (b_Core b) = KIND_RESOURCE)"
proof -
  have inv: "slots_inv (ix_bi m)" "dims_inv compile (ix_bi m)" using assms by (auto simp: bi_inv_def)
  note s = selects_versions_scopes(3) [OF inv, of scopes] and r = selects_resourceQuery [OF inv, of resource KIND_RESOURCE]
  show ?thesis
    using scoped_exists [OF inv selectsAll_append [OF selectsAll_single [OF s] selectsAll_single [OF r]], of KIND_RESOURCE version]
      selects_IsEmpty [OF inv(1) s] selects_IsEmpty [OF inv(1) r]
    by (auto simp: ScopedResourceExists_def GetAllRows_rows Let_def split: option.splits)
qed

lemma ScopedPrincipalExists_iff:
  assumes "bi_inv compile (ix_bi m)"
  shows "ScopedPrincipalExists m version scopes \<longleftrightarrow>
    (\<exists>b \<in> set (GetAllRows m). b_Version b = version \<and> version \<noteq> '''' \<and> b_Scope b \<in> set scopes
       \<and> fc_PolicyKind (b_Core b) = KIND_PRINCIPAL)"
proof -
  have inv: "slots_inv (ix_bi m)" "dims_inv compile (ix_bi m)" using assms by (auto simp: bi_inv_def)
  note s = selects_versions_scopes(3) [OF inv, of scopes]
  show ?thesis
    using scoped_exists [OF inv selectsAll_single [OF s], of KIND_PRINCIPAL version] selects_IsEmpty [OF inv(1) s]
    by (auto simp: ScopedPrincipalExists_def GetAllRows_rows Let_def split: option.splits)
qed

end

