(* ===== verification/IndexUpdate.thy ===== *)
theory IndexUpdate
  imports IndexQuery "HOL-Library.Multiset"
begin

text \<open>
  What indexing and deleting policies do to the binding table and its invariant, and what the parent-role
  compilation computes.
\<close>

section \<open>Deleting a policy\<close>

lemma bi_inv_parts:
  assumes "bi_inv compile bi"
  shows "slots_inv bi" and "dims_inv compile bi" and "origin_inv bi"
  using assms by (simp_all add: bi_inv_def)

text \<open>Fields that the invariant does not read.\<close>

lemma getBinding_cores [simp]:
  "getBinding (bi\<lparr>bi_coresBySum := c\<rparr>) = getBinding bi" "getBinding (bi\<lparr>bi_fqnBindings := f\<rparr>) = getBinding bi"
  by (simp_all add: getBinding_def fun_eq_iff)

lemma inv_cores [simp]:
  "slots_inv (bi\<lparr>bi_coresBySum := c\<rparr>) = slots_inv bi" "dims_inv compile (bi\<lparr>bi_coresBySum := c\<rparr>) = dims_inv compile bi"
  "slots_inv (bi\<lparr>bi_fqnBindings := f\<rparr>) = slots_inv bi" "dims_inv compile (bi\<lparr>bi_fqnBindings := f\<rparr>) = dims_inv compile bi"
  "bi_inv compile (bi\<lparr>bi_coresBySum := c\<rparr>) = bi_inv compile bi" "hasRoom (bi\<lparr>bi_coresBySum := c\<rparr>) = hasRoom bi"
  by (simp_all add: slots_inv_def dims_inv_def bi_inv_def origin_inv_def hasRoom_def)

lemma ix_bi_deleteOrigin [simp]: "ix_bi (deleteOrigin fqn core m) = ix_bi m"
  by (simp add: deleteOrigin_def split: option.split)

lemma deleteBinding_bi:
  "ix_bi (deleteBinding fqn i m) =
    (case getBinding (ix_bi m) i of None \<Rightarrow> ix_bi m
     | Some b \<Rightarrow> (removeBinding b (ix_bi m))\<lparr>bi_coresBySum := bi_coresBySum (ix_bi (deleteBinding fqn i m))\<rparr>)"
  by (simp add: deleteBinding_def Let_def case_prod_beta split: option.split)

lemma deleteBinding_facts:
  assumes "slots_inv (ix_bi m)" and "dims_inv compile (ix_bi m)"
  shows "slots_inv (ix_bi (deleteBinding fqn i m))" and "dims_inv compile (ix_bi (deleteBinding fqn i m))"
    and "getBinding (ix_bi (deleteBinding fqn i m)) = (getBinding (ix_bi m))(i := None)"
    and "bi_fqnBindings (ix_bi (deleteBinding fqn i m)) = bi_fqnBindings (ix_bi m)"
    and "length (bi_bindings (ix_bi (deleteBinding fqn i m))) = length (bi_bindings (ix_bi m))"
proof -
  let ?m = "deleteBinding fqn i m"
  have "slots_inv (ix_bi ?m) \<and> dims_inv compile (ix_bi ?m) \<and> getBinding (ix_bi ?m) = (getBinding (ix_bi m))(i := None)
    \<and> bi_fqnBindings (ix_bi ?m) = bi_fqnBindings (ix_bi m)
    \<and> length (bi_bindings (ix_bi ?m)) = length (bi_bindings (ix_bi m))"
  proof (cases "getBinding (ix_bi m) i")
    case None
    then show ?thesis using assms deleteBinding_bi [of fqn i m] by (simp add: fun_upd_idem)
  next
    case (Some b)
    then have "b_ID b = i" using assms(1) unfolding slots_inv_def by blast
    then have b: "getBinding (ix_bi m) (b_ID b) = Some b" using Some by simp
    obtain c where eq: "ix_bi ?m = (removeBinding b (ix_bi m))\<lparr>bi_coresBySum := c\<rparr>"
      using deleteBinding_bi [of fqn i m] Some by simp
    show ?thesis
      unfolding eq
      using slots_inv_removeBinding [OF assms(1) b] dims_inv_removeBinding [OF assms(2) b] getBinding_removeBinding [OF b]
        removeBinding_fields(1,13) [of b "ix_bi m"] \<open>b_ID b = i\<close> by simp
  qed
  then show "slots_inv (ix_bi ?m)" "dims_inv compile (ix_bi ?m)" "getBinding (ix_bi ?m) = (getBinding (ix_bi m))(i := None)"
    "bi_fqnBindings (ix_bi ?m) = bi_fqnBindings (ix_bi m)" "length (bi_bindings (ix_bi ?m)) = length (bi_bindings (ix_bi m))"
    by blast+
qed

lemma deleteBindings_facts:
  assumes "slots_inv (ix_bi m)" and "dims_inv compile (ix_bi m)"
  shows "slots_inv (ix_bi (fold (deleteBinding fqn) bids m)) \<and> dims_inv compile (ix_bi (fold (deleteBinding fqn) bids m))
    \<and> getBinding (ix_bi (fold (deleteBinding fqn) bids m)) = (\<lambda>i. if i \<in> set bids then None else getBinding (ix_bi m) i)
    \<and> bi_fqnBindings (ix_bi (fold (deleteBinding fqn) bids m)) = bi_fqnBindings (ix_bi m)
    \<and> length (bi_bindings (ix_bi (fold (deleteBinding fqn) bids m))) = length (bi_bindings (ix_bi m))"
  using assms
proof (induction bids arbitrary: m)
  case Nil
  then show ?case by simp
next
  case (Cons i bids)
  note step = deleteBinding_facts [OF Cons.prems, of fqn i]
  show ?case using Cons.IH [OF step(1,2)] step(3-5) by (auto simp: fun_eq_iff)
qed

text \<open>Exactly the rows of the policy go.\<close>

lemma DeletePolicy_facts:
  assumes "bi_inv compile (ix_bi m)"
  shows "bi_inv compile (ix_bi (DeletePolicy fqn m))"
    and "getBinding (ix_bi (DeletePolicy fqn m)) i =
      (case getBinding (ix_bi m) i of None \<Rightarrow> None | Some b \<Rightarrow> if fqn \<noteq> '''' \<and> b_OriginFqn b = fqn then None else Some b)"
    and "length (bi_bindings (ix_bi (DeletePolicy fqn m))) = length (bi_bindings (ix_bi m))"
proof -
  note inv = bi_inv_parts [OF assms]
  let ?d = "bi_fqnBindings (ix_bi m)"
  have ids: "distinct (fqn_ids ?d f)" "set (fqn_ids ?d f) = {i. \<exists>b. getBinding (ix_bi m) i = Some b \<and> b_OriginFqn b = f}" for f
    using inv(3) unfolding origin_inv_def by blast+
  have "bi_inv compile (ix_bi (DeletePolicy fqn m)) \<and> getBinding (ix_bi (DeletePolicy fqn m)) i =
      (case getBinding (ix_bi m) i of None \<Rightarrow> None | Some b \<Rightarrow> if fqn \<noteq> '''' \<and> b_OriginFqn b = fqn then None else Some b)
    \<and> length (bi_bindings (ix_bi (DeletePolicy fqn m))) = length (bi_bindings (ix_bi m))" for i
  proof (cases "fqn = '''' \<or> fqn_Get ?d fqn = None")
    case True
    then have "DeletePolicy fqn m = m" by (auto simp: DeletePolicy_def)
    moreover have "\<not> (fqn \<noteq> '''' \<and> b_OriginFqn b = fqn)" if "getBinding (ix_bi m) i = Some b" for b
      using True ids(2) [of fqn] that by (auto simp: fqn_Get_def fqn_ids_def)
    ultimately show ?thesis using assms by (auto split: option.split)
  next
    case False
    then obtain bids where bids: "fqn_Get ?d fqn = Some bids" by auto
    let ?m = "fold (deleteBinding fqn) bids m"
    have eq: "ix_bi (DeletePolicy fqn m) = (ix_bi ?m)\<lparr>bi_fqnBindings := fqn_Delete fqn (bi_fqnBindings (ix_bi ?m))\<rparr>"
      using False bids by (simp add: DeletePolicy_def Let_def)
    note F = deleteBindings_facts [OF inv(1,2), of fqn bids]
    have set: "set bids = {i. \<exists>b. getBinding (ix_bi m) i = Some b \<and> b_OriginFqn b = fqn}"
      using ids(2) [of fqn] bids by (simp add: fqn_ids_def fqn_Get_def)
    have get: "getBinding (ix_bi (DeletePolicy fqn m)) = (\<lambda>i. if i \<in> set bids then None else getBinding (ix_bi m) i)"
      using F by (simp add: eq)
    have get': "(\<exists>b. (if i \<in> set bids then None else getBinding (ix_bi m) i) = Some b \<and> b_OriginFqn b = f) \<longleftrightarrow>
        f \<noteq> fqn \<and> (\<exists>b. getBinding (ix_bi m) i = Some b \<and> b_OriginFqn b = f)" for i f
      unfolding set by auto
    have "origin_inv (ix_bi (DeletePolicy fqn m))"
      unfolding origin_inv_def get get'
    proof (intro conjI allI)
      show "gowf (bi_fqnBindings (ix_bi (DeletePolicy fqn m)))"
        using F inv(3) by (simp add: eq fqn_Delete_def origin_inv_def)
      show "distinct (fqn_ids (bi_fqnBindings (ix_bi (DeletePolicy fqn m))) f)"
        "set (fqn_ids (bi_fqnBindings (ix_bi (DeletePolicy fqn m))) f) =
          {i. f \<noteq> fqn \<and> (\<exists>b. getBinding (ix_bi m) i = Some b \<and> b_OriginFqn b = f)}" for f
        using F ids [of f] by (simp_all add: eq fqn_Delete_ids)
    qed
    then have "bi_inv compile (ix_bi (DeletePolicy fqn m))" using F by (simp add: bi_inv_def eq)
    moreover have "length (bi_bindings (ix_bi (DeletePolicy fqn m))) = length (bi_bindings (ix_bi m))" using F by (simp add: eq)
    ultimately show ?thesis using False unfolding get set by (auto split: option.split)
  qed
  then show "bi_inv compile (ix_bi (DeletePolicy fqn m))"
    "getBinding (ix_bi (DeletePolicy fqn m)) i =
      (case getBinding (ix_bi m) i of None \<Rightarrow> None | Some b \<Rightarrow> if fqn \<noteq> '''' \<and> b_OriginFqn b = fqn then None else Some b)"
    "length (bi_bindings (ix_bi (DeletePolicy fqn m))) = length (bi_bindings (ix_bi m))"
    by blast+
qed

section \<open>The rows of a table\<close>

lemma rows_upto:
  assumes "length (bi_bindings bi) \<le> N" and "N \<le> 2 ^ 32"
  shows "rows bi = List.map_filter (\<lambda>n. getBinding bi (of_nat n)) [0..<N]"
proof -
  let ?n = "length (bi_bindings bi)"
  have unat: "unat (of_nat k :: u32) = k" if "k < N" for k
    using that assms(2) by (simp add: unat_of_nat)
  have "rows bi = List.map_filter (\<lambda>n. getBinding bi (of_nat n)) [0..<?n]"
    unfolding rows_def map_filter_nth [symmetric]
    by (rule map_filter_cong) (use assms(1) in \<open>simp add: getBinding_def unat\<close>)
  moreover have "List.map_filter (\<lambda>n. getBinding bi (of_nat n)) [?n..<N] = []"
    by (auto simp: List.map_filter_def filter_empty_conv getBinding_def unat)
  moreover have "[0..<N] = [0..<?n] @ [?n..<N]" using assms(1) by (metis le_add_diff_inverse upt_add_eq_append zero_le)
  ultimately show ?thesis by (simp add: List.map_filter_def)
qed

lemma map_filter_filter_eq:
  assumes "\<And>x. g x = (case f x of None \<Rightarrow> None | Some y \<Rightarrow> if P y then Some y else None)"
  shows "List.map_filter g xs = filter P (List.map_filter f xs)"
  using assms by (induction xs) (auto split: option.split)

lemma rows_filter:
  assumes "slots_inv bi" and "slots_inv bi'"
    and "\<And>i. getBinding bi' i = (case getBinding bi i of None \<Rightarrow> None | Some b \<Rightarrow> if P b then Some b else None)"
  shows "rows bi' = filter P (rows bi)"
proof -
  let ?N = "2 ^ 32"
  have "length (bi_bindings bi) \<le> ?N" "length (bi_bindings bi') \<le> ?N" using assms(1,2) by (auto simp: slots_inv_def)
  then show ?thesis
    unfolding rows_upto [OF _ order_refl]
    by (simp only: rows_upto [OF _ order_refl]) (rule map_filter_filter_eq, rule assms(3))
qed

lemma DeletePolicy_rows:
  assumes "bi_inv compile (ix_bi m)" and "fqn \<noteq> ''''"
  shows "GetAllRows (DeletePolicy fqn m) = filter (\<lambda>b. b_OriginFqn b \<noteq> fqn) (GetAllRows m)"
  unfolding GetAllRows_rows
proof (rule rows_filter)
  show "slots_inv (ix_bi m)" "slots_inv (ix_bi (DeletePolicy fqn m))"
    using bi_inv_parts(1) assms(1) DeletePolicy_facts(1) [OF assms(1)] by blast+
qed (simp add: DeletePolicy_facts(2) [OF assms(1)] assms(2) split: option.split)

section \<open>Indexing rules\<close>

lemma indexParams_bi: "ix_bi (snd (indexParams E rule m)) = ix_bi m"
  by (simp add: indexParams_def Let_def case_prod_beta split: option.split)

lemma getCore_bi:
  "\<exists>c. ix_bi (snd (getCore E rule params drParams m)) = (ix_bi m)\<lparr>bi_coresBySum := c\<rparr>"
proof -
  have self: "\<exists>c. bi = bi\<lparr>bi_coresBySum := c\<rparr>" for bi :: bitmapIndex by (rule exI [of _ "bi_coresBySum bi"]) simp
  show ?thesis
    by (auto simp: getCore_def Let_def newCore_def self split: option.split)
qed

subsection \<open>Parameters and cores\<close>

text \<open>The compiled form of a parameter message, and the core of a rule row.\<close>

definition paramsFor :: "Ext \<Rightarrow> Params option \<Rightarrow> RowParams \<Rightarrow> bool" where
  "paramsFor E proto p \<longleftrightarrow> rp_Key p = ext_hashParams E proto \<and> rp_Constants p = paramConstants proto
     \<and> rp_Variables p = paramVariables proto \<and> getCelPrograms E (paramVariables proto) = Some (rp_CelPrograms p)"

definition hasParams :: "RuleRow \<Rightarrow> bool" where
  "hasParams rule \<longleftrightarrow> rr_PolicyKind rule = KIND_RESOURCE \<or> rr_PolicyKind rule = KIND_PRINCIPAL"

definition hasDerivedParams :: "RuleRow \<Rightarrow> bool" where
  "hasDerivedParams rule \<longleftrightarrow> rr_PolicyKind rule = KIND_RESOURCE \<and> rr_OriginDerivedRole rule \<noteq> ''''"

definition coreFor :: "Ext \<Rightarrow> RuleRow \<Rightarrow> FunctionalCore \<Rightarrow> bool" where
  "coreFor E rule core \<longleftrightarrow>
     fc_Effect core = rr_Effect rule \<and> fc_Condition core = rr_Condition rule
     \<and> fc_DerivedRoleCondition core = rr_DerivedRoleCondition rule \<and> fc_EmitOutput core = rr_EmitOutput rule
     \<and> fc_ScopePermissions core = rr_ScopePermissions rule \<and> fc_FromRolePolicy core = rr_FromRolePolicy rule
     \<and> fc_PolicyKind core = rr_PolicyKind rule
     \<and> (hasParams rule \<longrightarrow> (\<exists>p. fc_Params core = Some p \<and> paramsFor E (rr_Params rule) p))
     \<and> (rr_DerivedRoleCondition rule \<noteq> None \<and> hasDerivedParams rule \<longrightarrow>
          (\<exists>p. fc_DerivedRoleParams core = Some p \<and> paramsFor E (rr_DerivedRoleParams rule) p))"

text \<open>
  The rows whose indexing is considered have no hash collisions: rows with the same sum agree on the functional
  fields, parameter messages with the same hash are equal, and only derived-role rows have a derived-role condition.
\<close>

definition functionalFields where
  "functionalFields r = (rr_Condition r, rr_DerivedRoleCondition r, rr_Effect r, rr_ScopePermissions r, rr_EmitOutput r,
     rr_Params r, rr_DerivedRoleParams r, rr_PolicyKind r, rr_FromRolePolicy r)"

definition noCollisions :: "Ext \<Rightarrow> RuleRow set \<Rightarrow> bool" where
  "noCollisions E R \<longleftrightarrow>
     (\<forall>r \<in> R. \<forall>r' \<in> R. ext_hashRow E r (condDisc r) = ext_hashRow E r' (condDisc r') \<longrightarrow> functionalFields r = functionalFields r')
     \<and> (\<forall>r \<in> R. \<forall>r' \<in> R. \<forall>p \<in> {rr_Params r, rr_DerivedRoleParams r}. \<forall>p' \<in> {rr_Params r', rr_DerivedRoleParams r'}.
          ext_hashParams E p = ext_hashParams E p' \<longrightarrow> p = p')
     \<and> (\<forall>r \<in> R. rr_DerivedRoleCondition r \<noteq> None \<longrightarrow> hasDerivedParams r)"

definition cache_ok :: "Ext \<Rightarrow> RuleRow set \<Rightarrow> (u64, RowParams) gomap \<Rightarrow> bool" where
  "cache_ok E R cache \<longleftrightarrow>
     (\<forall>h p. map_of cache h = Some p \<longrightarrow>
        (\<exists>r \<in> R. \<exists>proto \<in> {rr_Params r, rr_DerivedRoleParams r}. ext_hashParams E proto = h \<and> paramsFor E proto p))"

definition cores_ok :: "Ext \<Rightarrow> RuleRow set \<Rightarrow> (u64, FunctionalCore) gomap \<Rightarrow> bool" where
  "cores_ok E R cores \<longleftrightarrow>
     (\<forall>s core. map_of cores s = Some core \<longrightarrow> (\<exists>r \<in> R. ext_hashRow E r (condDisc r) = s \<and> coreFor E r core))"

definition caches_ok :: "Ext \<Rightarrow> RuleRow set \<Rightarrow> Index \<Rightarrow> bool" where
  "caches_ok E R m \<longleftrightarrow> cache_ok E R (ix_paramsCache m) \<and> cache_ok E R (ix_drParamsCache m)
     \<and> cores_ok E R (bi_coresBySum (ix_bi m))"

lemma getOrGenerateParams_ok:
  assumes "noCollisions E R" and "cache_ok E R cache" and "r \<in> R" and "proto \<in> {rr_Params r, rr_DerivedRoleParams r}"
    and "getOrGenerateParams E cache refs proto = (p, cache', refs')"
  shows "cache_ok E R cache'" and "\<And>params. p = Some params \<Longrightarrow> paramsFor E proto params"
proof -
  let ?h = "ext_hashParams E proto"
  have "cache_ok E R cache' \<and> (\<forall>params. p = Some params \<longrightarrow> paramsFor E proto params)"
  proof (cases "map_of cache ?h")
    case (Some params)
    then obtain r' proto' where "r' \<in> R" "proto' \<in> {rr_Params r', rr_DerivedRoleParams r'}"
      "ext_hashParams E proto' = ?h" "paramsFor E proto' params"
      using assms(2) unfolding cache_ok_def by blast
    moreover from this have "proto' = proto" using assms(1,3,4) unfolding noCollisions_def by blast
    ultimately show ?thesis using assms(2,5) Some by (auto simp: getOrGenerateParams_def Let_def)
  next
    case None
    show ?thesis
    proof (cases "getCelPrograms E (paramVariables proto)")
      case None2: None
      then show ?thesis using None assms(2,5) by (auto simp: getOrGenerateParams_def Let_def)
    next
      case (Some progs)
      let ?p = "\<lparr>rp_Constants = paramConstants proto, rp_CelPrograms = progs, rp_Variables = paramVariables proto,
        rp_Key = ?h, rp_refcount = length refs\<rparr>"
      have "paramsFor E proto ?p" using Some by (simp add: paramsFor_def)
      moreover have "p = Some ?p" "cache' = AList.update ?h ?p cache"
        using None Some assms(5) by (auto simp: getOrGenerateParams_def Let_def)
      ultimately show ?thesis
        using assms(2-4) unfolding cache_ok_def by (auto simp: gomap_simps)
    qed
  qed
  then show "cache_ok E R cache'" "\<And>params. p = Some params \<Longrightarrow> paramsFor E proto params" by blast+
qed

lemma indexParams_ok:
  assumes "noCollisions E R" and "caches_ok E R m" and "r \<in> R" and "indexParams E r m = (res, m')"
  shows "caches_ok E R m'" and "ix_bi m' = ix_bi m"
    and "\<And>params drParams. res = Some (params, drParams) \<Longrightarrow>
      (hasParams r \<longrightarrow> (\<exists>p. params = Some p \<and> paramsFor E (rr_Params r) p))
      \<and> (hasDerivedParams r \<longrightarrow> (\<exists>p. drParams = Some p \<and> paramsFor E (rr_DerivedRoleParams r) p))"
proof -
  show "ix_bi m' = ix_bi m" using indexParams_bi [of E r m] assms(4) by simp
  obtain p cache refs where g1: "getOrGenerateParams E (ix_paramsCache m) (ix_refcounts m) (rr_Params r) = (p, cache, refs)"
    by (metis prod_cases3)
  obtain dp drCache refs' where g2: "getOrGenerateParams E (ix_drParamsCache m) refs (rr_DerivedRoleParams r) = (dp, drCache, refs')"
    by (metis prod_cases3)
  have ok: "cache_ok E R (ix_paramsCache m)" "cache_ok E R (ix_drParamsCache m)" "cores_ok E R (bi_coresBySum (ix_bi m))"
    using assms(2) by (auto simp: caches_ok_def)
  note P = getOrGenerateParams_ok [OF assms(1) ok(1) assms(3) insertI1 g1]
    and D = getOrGenerateParams_ok [OF assms(1) ok(2) assms(3) insertI2 [OF singletonI] g2]
  show "caches_ok E R m'"
    using assms(4) ok P(1) D(1)
    by (auto simp: indexParams_def g1 g2 Let_def caches_ok_def split: if_splits option.splits)
  show "(hasParams r \<longrightarrow> (\<exists>p. params = Some p \<and> paramsFor E (rr_Params r) p))
      \<and> (hasDerivedParams r \<longrightarrow> (\<exists>p. drParams = Some p \<and> paramsFor E (rr_DerivedRoleParams r) p))"
    if "res = Some (params, drParams)" for params drParams
    using assms(4) that P(2) D(2)
    by (auto simp: indexParams_def g1 g2 Let_def hasParams_def hasDerivedParams_def split: if_splits option.splits)
qed

lemma getCore_ok:
  assumes "noCollisions E R" and "caches_ok E R m" and "r \<in> R" and "getCore E r params drParams m = (core, m')"
    and "hasParams r \<longrightarrow> (\<exists>p. params = Some p \<and> paramsFor E (rr_Params r) p)"
    and "hasDerivedParams r \<longrightarrow> (\<exists>p. drParams = Some p \<and> paramsFor E (rr_DerivedRoleParams r) p)"
  shows "caches_ok E R m'" and "coreFor E r core"
proof -
  let ?sum = "ext_hashRow E r (condDisc r)" and ?cores = "bi_coresBySum (ix_bi m)"
  have ok: "cache_ok E R (ix_paramsCache m)" "cache_ok E R (ix_drParamsCache m)" "cores_ok E R ?cores"
    using assms(2) by (auto simp: caches_ok_def)
  have "caches_ok E R m' \<and> coreFor E r core"
  proof (cases "map_of ?cores ?sum")
    case (Some c)
    then obtain r' where r': "r' \<in> R" "ext_hashRow E r' (condDisc r') = ?sum" "coreFor E r' c"
      using ok(3) unfolding cores_ok_def by blast
    then have same: "functionalFields r' = functionalFields r" using assms(1,3) unfolding noCollisions_def by blast
    have derived: "rr_DerivedRoleCondition r' \<noteq> None \<longrightarrow> hasDerivedParams r'"
      using assms(1) r'(1) unfolding noCollisions_def by blast
    have "coreFor E r c" using r'(3) same derived by (auto simp: coreFor_def functionalFields_def hasParams_def)
    then show ?thesis
      using assms(4) Some ok by (auto simp: getCore_def Let_def caches_ok_def split: option.splits)
  next
    case None
    let ?c = "newCore r params drParams (length (ix_origins m)) ?sum"
    have c: "coreFor E r ?c" using assms(5,6) by (simp add: coreFor_def newCore_def)
    then have "cores_ok E R (AList.update ?sum ?c ?cores)"
      using ok(3) assms(3) unfolding cores_ok_def by (auto simp: gomap_simps)
    then show ?thesis
      using assms(4) None ok c by (auto simp: getCore_def Let_def caches_ok_def newCore_def)
  qed
  then show "caches_ok E R m'" "coreFor E r core" by blast+
qed

subsection \<open>One rule\<close>

text \<open>The binding that indexing adds for a rule row.\<close>

definition bindingFor :: "Ext \<Rightarrow> RuleRow \<Rightarrow> BindingHandle \<Rightarrow> bool" where
  "bindingFor E rule b \<longleftrightarrow> coreFor E rule (b_Core b) \<and> (\<exists>core bid. b = (ruleBinding rule core)\<lparr>b_ID := bid\<rparr>)"

lemma ruleBinding_fields:
  "b_Core (ruleBinding rule core) = core" "b_OriginFqn (ruleBinding rule core) = rr_OriginFqn rule"
  "b_Scope (ruleBinding rule core) = rr_Scope rule" "b_Version (ruleBinding rule core) = rr_Version rule"
  "b_Resource (ruleBinding rule core) = rr_Resource rule" "b_Role (ruleBinding rule core) = rr_Role rule"
  "b_Principal (ruleBinding rule core) = rr_Principal rule"
  "b_OriginDerivedRole (ruleBinding rule core) = rr_OriginDerivedRole rule" "b_Name (ruleBinding rule core) = rr_Name rule"
proof -
  have set: "b_Core (setAllowActions as b) = b_Core b \<and> b_OriginFqn (setAllowActions as b) = b_OriginFqn b
    \<and> b_Scope (setAllowActions as b) = b_Scope b \<and> b_Version (setAllowActions as b) = b_Version b
    \<and> b_Resource (setAllowActions as b) = b_Resource b \<and> b_Role (setAllowActions as b) = b_Role b
    \<and> b_Principal (setAllowActions as b) = b_Principal b \<and> b_OriginDerivedRole (setAllowActions as b) = b_OriginDerivedRole b
    \<and> b_Name (setAllowActions as b) = b_Name b" for as b
    unfolding setAllowActions_def by (rule fold_inv) simp_all
  show "b_Core (ruleBinding rule core) = core" "b_OriginFqn (ruleBinding rule core) = rr_OriginFqn rule"
  "b_Scope (ruleBinding rule core) = rr_Scope rule" "b_Version (ruleBinding rule core) = rr_Version rule"
  "b_Resource (ruleBinding rule core) = rr_Resource rule" "b_Role (ruleBinding rule core) = rr_Role rule"
  "b_Principal (ruleBinding rule core) = rr_Principal rule"
  "b_OriginDerivedRole (ruleBinding rule core) = rr_OriginDerivedRole rule" "b_Name (ruleBinding rule core) = rr_Name rule"
    using set by (auto simp: ruleBinding_def Let_def split: ActionSet.splits)
qed

text \<open>One call of \<^verbatim>\<open>IndexRule\<close>: either nothing happens to the table or one binding is added to it.\<close>

lemma IndexRule_cases:
  assumes "IndexRule E rule m = (ok, m')" and "noCollisions E R" and "caches_ok E R m" and "rule \<in> R"
  obtains (error) "\<not> ok" "ix_bi m' = ix_bi m" "caches_ok E R m'"
    | (added) c core where "ok" "coreFor E rule core" "caches_ok E R m'"
      "ix_bi m' = addBinding (ext_compile E) (ruleBinding rule core)
         (makeEvaluationKeyTuple (rr_EvaluationKeyTuple rule) (rr_EvaluationKey rule)) ((ix_bi m)\<lparr>bi_coresBySum := c\<rparr>)"
proof (cases "indexParams E rule m")
  case (Pair p m1)
  note P = indexParams_ok [OF assms(2-4) Pair]
  show ?thesis
  proof (cases p)
    case None
    then show ?thesis using assms(1) Pair P(1,2) error by (simp add: IndexRule_def)
  next
    case (Some pd)
    obtain params drParams where pd: "pd = (params, drParams)" by fastforce
    obtain core m2 where core: "getCore E rule params drParams m1 = (core, m2)" by fastforce
    then obtain c where c: "ix_bi m2 = (ix_bi m)\<lparr>bi_coresBySum := c\<rparr>"
      using getCore_bi [of E rule params drParams m1] P(2) by auto
    note C = getCore_ok [OF assms(2) P(1) assms(4) core] P(3) [OF Some [unfolded pd]]
    have m': "ok" "m' = m2\<lparr>ix_bi := addBinding (ext_compile E) (ruleBinding rule core)
         (makeEvaluationKeyTuple (rr_EvaluationKeyTuple rule) (rr_EvaluationKey rule)) (ix_bi m2)\<rparr>"
      using assms(1) Pair Some pd core by (auto simp: IndexRule_def)
    obtain bid idx0 where alloc: "allocID (ix_bi m2) = (bid, idx0)" by fastforce
    have "bi_coresBySum idx0 = bi_coresBySum (ix_bi m2)"
      using alloc by (auto simp: allocID_def split: if_splits)
    then have "bi_coresBySum (ix_bi m') = bi_coresBySum (ix_bi m2)"
      by (simp add: m'(2) addBinding_fields(14) [OF alloc])
    then have "caches_ok E R m'" using C by (simp add: caches_ok_def m'(2))
    then show ?thesis using m' C c by (intro added [of core c]) simp_all
  qed
qed

lemma IndexRule_facts:
  assumes "bi_inv (ext_compile E) (ix_bi m)" and "hasRoom (ix_bi m)" and "IndexRule E rule m = (ok, m')"
    and "noCollisions E R" and "caches_ok E R m" and "rule \<in> R"
  shows "bi_inv (ext_compile E) (ix_bi m')" and "caches_ok E R m'"
    and "if ok then \<exists>bid b. getBinding (ix_bi m) bid = None \<and> bindingFor E rule b
           \<and> getBinding (ix_bi m') = (getBinding (ix_bi m))(bid \<mapsto> b)
         else getBinding (ix_bi m') = getBinding (ix_bi m)"
    and "length (bi_bindings (ix_bi m')) \<le> length (bi_bindings (ix_bi m)) + 1"
proof -
  have "bi_inv (ext_compile E) (ix_bi m') \<and> caches_ok E R m' \<and> (if ok then \<exists>bid b. getBinding (ix_bi m) bid = None \<and> bindingFor E rule b
           \<and> getBinding (ix_bi m') = (getBinding (ix_bi m))(bid \<mapsto> b)
         else getBinding (ix_bi m') = getBinding (ix_bi m))
      \<and> length (bi_bindings (ix_bi m')) \<le> length (bi_bindings (ix_bi m)) + 1"
    using assms(3-6)
  proof (cases rule: IndexRule_cases)
    case error
    then show ?thesis using assms(1) by simp
  next
    case (added c core)
    let ?bi = "(ix_bi m)\<lparr>bi_coresBySum := c\<rparr>"
    obtain bid idx0 where alloc: "allocID ?bi = (bid, idx0)" by fastforce
    have inv: "slots_inv ?bi" "hasRoom ?bi" using assms(1,2) by (simp_all add: bi_inv_def)
    let ?b = "(ruleBinding rule core)\<lparr>b_ID := bid\<rparr>"
    have "getBinding ?bi bid = None" by (rule allocID_facts(2) [OF inv alloc])
    moreover have "getBinding (ix_bi m') = (getBinding ?bi)(bid \<mapsto> ?b)"
      unfolding added(4) by (rule getBinding_addBinding [OF inv alloc])
    moreover have "bindingFor E rule ?b" using added(2) by (auto simp: bindingFor_def ruleBinding_fields)
    moreover have "bi_inv (ext_compile E) (ix_bi m')"
      unfolding added(4) using assms(1,2) by (intro bi_inv_addBinding) simp_all
    moreover have "length (bi_bindings (ix_bi m')) \<le> length (bi_bindings (ix_bi m)) + 1"
      unfolding added(4) addBinding_fields(1) [OF alloc] by (simp add: allocID_facts(1) [OF inv alloc])
    ultimately show ?thesis using added(1,3) by (auto simp only: getBinding_cores if_True)
  qed
  then show "bi_inv (ext_compile E) (ix_bi m')" "caches_ok E R m'" "if ok then \<exists>bid b. getBinding (ix_bi m) bid = None \<and> bindingFor E rule b
           \<and> getBinding (ix_bi m') = (getBinding (ix_bi m))(bid \<mapsto> b)
         else getBinding (ix_bi m') = getBinding (ix_bi m)"
    "length (bi_bindings (ix_bi m')) \<le> length (bi_bindings (ix_bi m)) + 1"
    by blast+
qed

subsection \<open>Many rules\<close>

lemma mset_map_filter_upd:
  assumes "distinct xs" and "k \<in> set xs" and "f k = None" and "\<And>x. x \<in> set xs \<Longrightarrow> g x = (if x = k then Some y else f x)"
  shows "mset (List.map_filter g xs) = add_mset y (mset (List.map_filter f xs))"
  using assms
proof (induction xs)
  case (Cons x xs)
  show ?case
  proof (cases "x = k")
    case True
    then have "List.map_filter g xs = List.map_filter f xs" using Cons.prems by (intro map_filter_cong) auto
    then show ?thesis using True Cons.prems(3) Cons.prems(4) [of x] by simp
  next
    case False
    then have "g x = f x" using Cons.prems(4) by simp
    then show ?thesis using False Cons by (auto split: option.split)
  qed
qed simp

lemma rows_add:
  assumes "slots_inv bi" and "slots_inv bi'" and "getBinding bi bid = None" and "getBinding bi' = (getBinding bi)(bid \<mapsto> b)"
  shows "mset (rows bi') = add_mset b (mset (rows bi))" and "\<not> P b \<Longrightarrow> filter P (rows bi') = filter P (rows bi)"
proof -
  let ?N = "2 ^ 32 :: nat"
  have N: "length (bi_bindings bi) \<le> ?N" "length (bi_bindings bi') \<le> ?N" using assms(1,2) by (auto simp: slots_inv_def)
  note rows = rows_upto [OF N(1) order_refl] rows_upto [OF N(2) order_refl]
  have inj: "of_nat n = bid \<longleftrightarrow> n = unat bid" if "n \<in> set [0..<?N]" for n
    using that by (auto simp: unat_of_nat)
  show "mset (rows bi') = add_mset b (mset (rows bi))"
    unfolding rows
  proof (rule mset_map_filter_upd [where k = "unat bid"])
    show "unat bid \<in> set [0..<?N]" using unsigned_less [of bid] by (simp only: set_upt atLeastLessThan_iff) simp
    show "getBinding bi' (of_nat n) = (if n = unat bid then Some b else getBinding bi (of_nat n))" if "n \<in> set [0..<?N]" for n
      using inj [OF that] by (simp add: assms(4))
  qed (simp_all only: distinct_upt unat_of_nat_self assms(3))
  show "filter P (rows bi') = filter P (rows bi)" if "\<not> P b"
    unfolding rows filter_map_filter
    by (rule arg_cong2 [where f = List.map_filter, OF refl, THEN trans, rotated, OF map_filter_cong])
      (use assms(3,4) that in \<open>auto simp: split: option.splits if_splits intro!: filter_cong\<close>)
qed

definition roomFor :: "nat \<Rightarrow> bitmapIndex \<Rightarrow> bool" where
  "roomFor n bi \<longleftrightarrow> length (bi_bindings bi) + n < 2 ^ 32"

text \<open>The rows gained from a list of rules; the other rows keep their order.\<close>

definition rowsAdded :: "Ext \<Rightarrow> RuleRow list \<Rightarrow> Index \<Rightarrow> Index \<Rightarrow> bool" where
  "rowsAdded E rules m m' \<longleftrightarrow>
     (\<exists>bs. mset (GetAllRows m') = mset (GetAllRows m) + mset bs \<and> list_all2 (bindingFor E) rules bs
        \<and> (\<forall>P. (\<forall>b \<in> set bs. \<not> P b) \<longrightarrow> filter P (GetAllRows m') = filter P (GetAllRows m)))"

lemma rowsAdded_Nil: "GetAllRows m' = GetAllRows m \<Longrightarrow> rowsAdded E [] m m'"
  by (simp add: rowsAdded_def)

lemma rowsAdded_Cons:
  assumes "rowsAdded E [rule] m m1" and "rowsAdded E rules m1 m2"
  shows "rowsAdded E (rule # rules) m m2"
proof -
  obtain b where b: "mset (GetAllRows m1) = mset (GetAllRows m) + mset [b]" "bindingFor E rule b"
    "\<And>P. \<not> P b \<Longrightarrow> filter P (GetAllRows m1) = filter P (GetAllRows m)"
    using assms(1) by (auto simp: rowsAdded_def list_all2_Cons1)
  obtain bs where bs: "mset (GetAllRows m2) = mset (GetAllRows m1) + mset bs" "list_all2 (bindingFor E) rules bs"
    "\<And>P. \<forall>b \<in> set bs. \<not> P b \<Longrightarrow> filter P (GetAllRows m2) = filter P (GetAllRows m1)"
    using assms(2) unfolding rowsAdded_def by blast
  show ?thesis
    unfolding rowsAdded_def using b bs by (intro exI [of _ "b # bs"]) auto
qed

lemma IndexRule_rows:
  assumes "bi_inv (ext_compile E) (ix_bi m)" and "hasRoom (ix_bi m)" and "IndexRule E rule m = (ok, m')"
    and "noCollisions E R" and "caches_ok E R m" and "rule \<in> R"
  shows "if ok then rowsAdded E [rule] m m' else GetAllRows m' = GetAllRows m"
proof -
  note F = IndexRule_facts [OF assms] and inv = bi_inv_parts(1) [OF assms(1)]
  have inv': "slots_inv (ix_bi m')" using F(1) by (rule bi_inv_parts(1))
  show ?thesis
  proof (cases ok)
    case False
    then show ?thesis
      using F(3) rows_filter [OF inv inv', of "\<lambda>b. True"] by (auto simp: GetAllRows_rows split: option.split)
  next
    case True
    then obtain bid b where b: "getBinding (ix_bi m) bid = None" "bindingFor E rule b"
      "getBinding (ix_bi m') = (getBinding (ix_bi m))(bid \<mapsto> b)"
      using F(3) by auto
    show ?thesis
      using True b(2) rows_add [OF inv inv' b(1,3)]
      by (auto simp: rowsAdded_def GetAllRows_rows intro!: exI [of _ "[b]"])
  qed
qed

lemma IndexRules_facts:
  assumes "bi_inv (ext_compile E) (ix_bi m)" and "roomFor (length rules) (ix_bi m)" and "IndexRules E rules m = (ok, m')"
    and "noCollisions E R" and "caches_ok E R m" and "set rules \<subseteq> R"
  shows "bi_inv (ext_compile E) (ix_bi m') \<and> caches_ok E R m' \<and>
    (\<exists>k \<le> length rules. (ok \<longleftrightarrow> k = length rules) \<and> rowsAdded E (take k rules) m m')"
  using assms(1,2,3,5,6)
proof (induction rules arbitrary: m)
  case Nil
  then show ?case by (auto intro: rowsAdded_Nil)
next
  case (Cons rule rules)
  obtain ok1 m1 where one: "IndexRule E rule m = (ok1, m1)" by fastforce
  have room: "hasRoom (ix_bi m)" and rule: "rule \<in> R" "set rules \<subseteq> R"
    using Cons.prems(2,5) by (auto simp: hasRoom_def roomFor_def)
  note F = IndexRule_facts [OF Cons.prems(1) room one assms(4) Cons.prems(4) rule(1)]
    and rows = IndexRule_rows [OF Cons.prems(1) room one assms(4) Cons.prems(4) rule(1)]
  show ?case
  proof (cases ok1)
    case False
    then have "ok = False" "m' = m1" using Cons.prems(3) one by simp_all
    moreover have "rowsAdded E (take 0 (rule # rules)) m m1" using rows False by (simp add: rowsAdded_Nil)
    ultimately show ?thesis using F(1,2) by (intro conjI exI [of _ 0]) simp_all
  next
    case True
    have room': "roomFor (length rules) (ix_bi m1)" using Cons.prems(2) F(4) by (simp add: roomFor_def)
    have rest: "IndexRules E rules m1 = (ok, m')" using Cons.prems(3) one True by simp
    obtain k where k: "k \<le> length rules" "ok \<longleftrightarrow> k = length rules" "rowsAdded E (take k rules) m1 m'"
      and inv: "bi_inv (ext_compile E) (ix_bi m')" "caches_ok E R m'"
      using Cons.IH [OF F(1) room' rest F(2) rule(2)] by blast
    have "rowsAdded E (take (Suc k) (rule # rules)) m m'" using True rows k(3) by (simp add: rowsAdded_Cons)
    then show ?thesis using inv k(1,2) by (intro conjI exI [of _ "Suc k"]) simp_all
  qed
qed

lemma bindingFor_origin: "bindingFor E rule b \<Longrightarrow> b_OriginFqn b = rr_OriginFqn rule"
  by (auto simp: bindingFor_def ruleBinding_fields)

text \<open>Deleting a policy undoes indexing it, whether or not indexing finished.\<close>

lemma IndexRules_DeletePolicy:
  assumes "bi_inv (ext_compile E) (ix_bi m)" and "roomFor (length rules) (ix_bi m)" and "IndexRules E rules m = (ok, m')"
    and "noCollisions E R" and "caches_ok E R m" and "set rules \<subseteq> R"
    and "fqn \<noteq> ''''" and "\<forall>r \<in> set rules. rr_OriginFqn r = fqn" and "\<forall>b \<in> set (GetAllRows m). b_OriginFqn b \<noteq> fqn"
  shows "GetAllRows (DeletePolicy fqn m') = GetAllRows m"
proof -
  note F = IndexRules_facts [OF assms(1-6)]
  obtain k bs where bs: "\<forall>P. (\<forall>b \<in> set bs. \<not> P b) \<longrightarrow> filter P (GetAllRows m') = filter P (GetAllRows m)"
    and all: "list_all2 (bindingFor E) (take k rules) bs"
    using F unfolding rowsAdded_def by blast
  have "b_OriginFqn b = fqn" if b: "b \<in> set bs" for b
  proof -
    obtain r where "r \<in> set (take k rules)" "bindingFor E r b"
      using b all by (metis in_set_conv_nth list_all2_conv_all_nth)
    then show ?thesis using assms(8) bindingFor_origin in_set_takeD by metis
  qed
  then have "filter (\<lambda>b. b_OriginFqn b \<noteq> fqn) (GetAllRows m') = filter (\<lambda>b. b_OriginFqn b \<noteq> fqn) (GetAllRows m)"
    using bs by simp
  also have "\<dots> = GetAllRows m" using assms(9) by simp
  finally show ?thesis using DeletePolicy_rows [OF conjunct1 [OF F] assms(7)] by simp
qed

section \<open>Deleting keeps the caches\<close>

lemma caches_ok_deleteBinding:
  assumes "caches_ok E R m"
  shows "caches_ok E R (deleteBinding fqn i m)"
proof -
  have cache: "cache_ok E R (fst (removeRef p cache refs))" if "cache_ok E R cache" for p cache refs
    using that by (auto simp: removeRef_def cache_ok_def Let_def gomap_simps split: option.split)
  have fields: "ix_paramsCache (deleteOrigin fqn core m) = ix_paramsCache m"
    "ix_drParamsCache (deleteOrigin fqn core m) = ix_drParamsCache m" for core
    by (simp_all add: deleteOrigin_def split: option.split)
  show ?thesis
  proof (cases "getBinding (ix_bi m) i")
    case None
    then show ?thesis using assms by (simp add: deleteBinding_def)
  next
    case (Some b)
    have "cores_ok E R (AList.delete s (bi_coresBySum (ix_bi m)))" for s
      using assms by (auto simp: caches_ok_def cores_ok_def gomap_simps)
    then show ?thesis
      using assms Some cache
      by (auto simp: deleteBinding_def Let_def caches_ok_def case_prod_beta fields removeBinding_fields(14))
  qed
qed

lemma caches_ok_DeletePolicy: "caches_ok E R m \<Longrightarrow> caches_ok E R (DeletePolicy fqn m)"
proof -
  have "caches_ok E R m \<Longrightarrow> caches_ok E R (fold (deleteBinding fqn) bids m)" for bids
    by (rule fold_inv) (auto intro: caches_ok_deleteBinding)
  then show "caches_ok E R m \<Longrightarrow> caches_ok E R (DeletePolicy fqn m)"
    by (auto simp: DeletePolicy_def Let_def caches_ok_def split: option.split)
qed

section \<open>Compaction\<close>

lemma map_of_shrink: "map_of (map (\<lambda>(k, bm). (k, Bitmap_shrinkToFit bm)) d) k = map_option Bitmap_shrinkToFit (map_of d k)"
  by (simp add: map_of_map)

lemma dim_compact_facts:
  assumes "dim_inv d"
  shows "dim_inv (map (\<lambda>(k, bm). (k, Bitmap_shrinkToFit bm)) d)"
    and "dim_ids (map (\<lambda>(k, bm). (k, Bitmap_shrinkToFit bm)) d) = dim_ids d"
proof -
  let ?d = "map (\<lambda>(k, bm). (k, Bitmap_shrinkToFit bm)) d"
  have keys: "gokeys ?d = gokeys d" by (simp add: case_prod_beta comp_def)
  show "dim_inv ?d"
    unfolding dim_inv_def gowf_def keys using assms
    by (auto simp: dim_inv_def gowf_def map_of_shrink bm_inv_shrink bm_set_shrink)
  show "dim_ids ?d = dim_ids d"
    using assms by (auto simp: fun_eq_iff dim_ids_def dim_inv_def map_of_shrink bm_inv_shrink bm_set_shrink split: option.split)
qed

lemma Compact_facts:
  assumes "bi_inv compile (ix_bi m)"
  shows "bi_inv compile (ix_bi (Compact m))" and "GetAllRows (Compact m) = GetAllRows m"
proof -
  let ?bi = "ix_bi m"
  note inv = bi_inv_parts [OF assms] and D = dims_invD [OF bi_inv_parts(2) [OF assms]]
  have get: "getBinding (bi_compact ?bi) = getBinding ?bi" by (simp add: fun_eq_iff getBinding_def bi_compact_def)
  have "lazy_ids (lazy_compact d) = lazy_ids d" if "lazy_inv d" for d
    by (rule ext) (rule lazy_compact_facts(2) [OF that])
  moreover have "glob_ids (glob_compact gd) = glob_ids gd" if "glob_inv compile gd" for gd
    by (rule ext) (rule glob_compact_facts(2) [OF that])
  ultimately have "dims_inv compile (bi_compact ?bi)"
    unfolding dims_inv_def get using D
    by (simp add: bi_compact_def dim_compact_facts bm_inv_shrink bm_set_shrink lazy_compact_facts(1) glob_compact_facts(1))
  moreover have "slots_inv (bi_compact ?bi)" "origin_inv (bi_compact ?bi)"
    using inv(1,3) unfolding slots_inv_def origin_inv_def get by (simp_all add: bi_compact_def)
  ultimately show "bi_inv compile (ix_bi (Compact m))" by (simp add: Compact_def bi_inv_def)
  show "GetAllRows (Compact m) = GetAllRows m" by (simp add: GetAllRows_def Compact_def bi_compact_def)
qed

section \<open>Parent roles\<close>

definition parentRel :: "RoleParentRoles \<Rightarrow> (string \<times> string) set" where
  "parentRel prs = {(r, p). p \<in> set (directParents prs r)}"

lemma collectParents_sound:
  "set (collectParents prs stack ps visited) \<subseteq> set ps \<union> (parentRel prs)\<^sup>* `` set stack"
proof (induction prs stack ps visited rule: collectParents.induct)
  case (2 prs pr stack ps visited)
  let ?R = "parentRel prs"
  show ?case
  proof (cases "pr \<in> set visited")
    case True
    then show ?thesis using "2.IH"(1) [OF refl True] by (auto simp: Let_def)
  next
    case False
    have "?R\<^sup>* `` set (directParents prs pr) \<subseteq> ?R\<^sup>* `` {pr}"
      by (auto simp: parentRel_def intro: converse_rtrancl_into_rtrancl)
    moreover have "?R\<^sup>* `` insert pr (set stack) = ?R\<^sup>* `` {pr} \<union> ?R\<^sup>* `` set stack" "pr \<in> ?R\<^sup>* `` {pr}" by auto
    ultimately show ?thesis using "2.IH"(2) [OF refl False] False by (simp add: Let_def Image_Un) blast
  qed
qed simp

lemma collectParents_complete:
  assumes "\<forall>v \<in> set visited. set (directParents prs v) \<subseteq> set ps \<union> set stack" and "set ps \<subseteq> set visited"
  shows "set ps \<union> set stack \<subseteq> set (collectParents prs stack ps visited)
    \<and> parentRel prs `` (set visited \<union> set (collectParents prs stack ps visited)) \<subseteq> set (collectParents prs stack ps visited)"
  using assms
proof (induction prs stack ps visited rule: collectParents.induct)
  case (1 prs ps visited)
  then show ?case by (auto simp: parentRel_def)
next
  case (2 prs pr stack ps visited)
  show ?case
  proof (cases "pr \<in> set visited")
    case True
    then show ?thesis using "2.IH"(1) [OF refl True] "2.prems" by (auto simp: Let_def)
  next
    case False
    have "\<forall>v \<in> set (pr # visited). set (directParents prs v) \<subseteq> set (set_add pr ps) \<union> set (directParents prs pr @ stack)"
      "set (set_add pr ps) \<subseteq> set (pr # visited)"
      using "2.prems" by auto
    from "2.IH"(2) [OF refl False this] show ?thesis using False by (auto simp: Let_def)
  qed
qed

text \<open>The compiled parents of a role are the roles above it, at any distance.\<close>

lemma collectParents_closure:
  "set (collectParents prs (directParents prs role) [] [role]) = {p. (role, p) \<in> (parentRel prs)\<^sup>+}"
proof -
  let ?R = "parentRel prs" and ?res = "set (collectParents prs (directParents prs role) [] [role])"
  have "?R\<^sup>* `` set (directParents prs role) = {p. (role, p) \<in> ?R\<^sup>+}"
    by (auto simp: trancl_unfold_left parentRel_def)
  then have "?res \<subseteq> {p. (role, p) \<in> ?R\<^sup>+}" using collectParents_sound [of prs "directParents prs role" "[]" "[role]"] by simp
  moreover have "p \<in> ?res" if "(role, p) \<in> ?R\<^sup>+" for p
    using that
  proof (induction rule: trancl_induct)
    case (base p)
    then show ?case using collectParents_complete [of "[role]" prs "[]" "directParents prs role"] by (auto simp: parentRel_def)
  next
    case (step p q)
    then show ?case using collectParents_complete [of "[role]" prs "[]" "directParents prs role"] by auto
  qed
  ultimately show ?thesis by blast
qed

lemma set_mergeScope:
  "set (directParents (mergeScope c merged) role) = set (directParents merged role) \<union> {p. \<exists>ps. (role, ps) \<in> set c \<and> p \<in> set ps}"
proof (induction c arbitrary: merged)
  case Nil
  then show ?case by (simp add: mergeScope_def)
next
  case (Cons rp c)
  obtain r ps where rp: "rp = (r, ps)" by fastforce
  have "mergeScope (rp # c) merged = mergeScope c (AList.update r (directParents merged r @ ps) merged)"
    by (simp add: mergeScope_def rp)
  moreover have "directParents (AList.update r (directParents merged r @ ps) merged) role =
      (if role = r then directParents merged r @ ps else directParents merged role)"
    by (simp add: directParents_def gomap_simps)
  ultimately show ?case using Cons.IH by (auto simp: rp)
qed

lemma map_of_compileParentRoleAncestors:
  assumes "gowf spr"
  shows "map_of (compileParentRoleAncestors spr) scope =
    (case map_of spr scope of Some (Some prs) \<Rightarrow>
         Some (map (\<lambda>(role, _). (role, collectParents prs (directParents prs role) [] [role])) prs) | _ \<Rightarrow> None)"
  using assms
proof (induction spr)
  case (Cons sp spr)
  obtain s p where sp: "sp = (s, p)" by fastforce
  have "map_of spr s = None" using Cons.prems by (auto simp: sp gowf_def map_of_eq_None_iff)
  moreover have "gowf spr" using Cons.prems by (simp add: gowf_def)
  ultimately show ?case
    using Cons.IH by (cases p) (auto simp: sp compileParentRoleAncestors_def)
qed (simp add: compileParentRoleAncestors_def)

lemma compiled_parents:
  "{p. \<exists>ps. (role, ps) \<in> set (map (\<lambda>(role, _). (role, collectParents prs (directParents prs role) [] [role])) prs)
      \<and> p \<in> set ps} = {p. (role, p) \<in> (parentRel prs)\<^sup>+}"
proof -
  have "{p. \<exists>ps. (role, ps) \<in> set (map (\<lambda>(role, _). (role, collectParents prs (directParents prs role) [] [role])) prs)
      \<and> p \<in> set ps} = {p. role \<in> set (gokeys prs) \<and> p \<in> set (collectParents prs (directParents prs role) [] [role])}"
    by force
  also have "\<dots> = {p. (role, p) \<in> (parentRel prs)\<^sup>+}"
  proof (cases "map_of prs role")
    case None
    then have "(role, p) \<notin> (parentRel prs)\<^sup>+" for p
      by (auto simp: parentRel_def directParents_def dest!: tranclD)
    then show ?thesis using None gokeys_dom [of role prs] by simp
  next
    case (Some ps)
    then show ?thesis using gokeys_dom [of role prs] by (simp add: collectParents_closure)
  qed
  finally show ?thesis .
qed

lemma AddParentRoles_closure:
  assumes "gowf spr"
  shows "set (AddParentRoles (IndexParentRoles spr m) scopes roles) =
    set roles \<union> {p. \<exists>role \<in> set roles. \<exists>scope \<in> set scopes. \<exists>prs.
       map_of spr scope = Some (Some prs) \<and> (role, p) \<in> (parentRel prs)\<^sup>+}"
proof -
  let ?c = "compileParentRoleAncestors spr"
  let ?step = "\<lambda>scope merged. case map_of ?c scope of None \<Rightarrow> merged | Some c \<Rightarrow> mergeScope c merged"
  let ?above = "\<lambda>role scope. {p. \<exists>prs. map_of spr scope = Some (Some prs) \<and> (role, p) \<in> (parentRel prs)\<^sup>+}"
  have one: "set (directParents (?step scope merged) role) = set (directParents merged role) \<union> ?above role scope" for scope merged role
    by (auto simp: map_of_compileParentRoleAncestors [OF assms] set_mergeScope compiled_parents simp del: set_map
        split: option.split)
  have merged: "set (directParents (fold ?step scopes merged) role) =
      set (directParents merged role) \<union> (\<Union>scope \<in> set scopes. ?above role scope)" for merged role
    by (induction scopes arbitrary: merged) (auto simp: one simp del: Un_iff)
  have eq: "AddParentRoles (IndexParentRoles spr m) scopes roles =
      (if ?c = [] \<or> fold ?step scopes [] = [] then roles else roles @ concat (map (directParents (fold ?step scopes [])) roles))"
    by (simp add: AddParentRoles_def IndexParentRoles_def Let_def)
  have "fold ?step scopes [] = []" if "?c = []" using that by (induction scopes) auto
  then have "set (AddParentRoles (IndexParentRoles spr m) scopes roles) =
      set roles \<union> (\<Union>role \<in> set roles. set (directParents (fold ?step scopes []) role))"
    unfolding eq by (auto simp: directParents_def)
  then show ?thesis by (simp add: merged) (auto simp: directParents_def)
qed

section \<open>Role policies\<close>

lemma rolePolicyReps_facts:
  fixes bs :: "BindingHandle list"
  defines "reps \<equiv> fst (rolePolicyReps bs)"
  shows "map_of reps role = find (\<lambda>b. b_Role b = role) bs"
proof -
  have "map_of (fst (fold (\<lambda>b (rep, order). if map_of rep (b_Role b) = None then (AList.update (b_Role b) b rep, order @ [b_Role b]) else (rep, order))
      bs (rep, order))) role = (case map_of rep role of Some b \<Rightarrow> Some b | None \<Rightarrow> find (\<lambda>b. b_Role b = role) bs)" for rep order
    by (induction bs arbitrary: rep order) (auto simp: gomap_simps split: option.split)
  from this [of "[]" "[]"] show ?thesis by (simp add: reps_def rolePolicyReps_def)
qed

text \<open>A role whose policies do not allow the action for the resource gets one unconditional denial.\<close>

definition implicitDeny :: "string \<Rightarrow> string \<Rightarrow> BindingHandle \<Rightarrow> bool" where
  "implicitDeny role action d \<longleftrightarrow> fc_Effect (b_Core d) = EFFECT_DENY \<and> fc_Condition (b_Core d) = None
     \<and> fc_DerivedRoleCondition (b_Core d) = None \<and> b_Role d = role \<and> b_Action d = action \<and> b_NoMatchForScopePermissions d"

lemma implicitDeny_new: "implicitDeny role action (newNoMatchRolePolicyDeny role version scope resource action)"
  by (simp add: implicitDeny_def newNoMatchRolePolicyDeny_def zeroCore_def zeroBinding_def)

lemma deniesForRole_implicit:
  assumes "map_of reps role \<noteq> None" and "\<forall>b \<in> set matched. b_Role b = role \<longrightarrow> \<not> allowsAction compile b action"
    and "action \<in> set actions"
  shows "\<exists>d \<in> set (deniesForRole compile reps matched resource actions role). implicitDeny role action d"
proof -
  obtain rep where rep: "map_of reps role = Some rep" using assms(1) by blast
  let ?rb = "filter (\<lambda>b. b_Role b = role) matched"
  have none: "filter (\<lambda>rb. allowsAction compile rb action) ?rb = []" using assms(2) by (auto simp: filter_empty_conv)
  show ?thesis
  proof (cases "?rb = []")
    case True
    then show ?thesis
      using rep assms(3) implicitDeny_new by (auto simp: deniesForRole_def intro!: bexI [of _ action])
  next
    case False
    let ?d = "newNoMatchRolePolicyDeny role (b_Version (hd ?rb)) (b_Scope (hd ?rb)) (b_Resource (hd ?rb)) action"
    have "?d \<in> set (deniesForRole compile reps matched resource actions role)"
      using False rep assms(3) none unfolding deniesForRole_def Let_def by (auto intro!: bexI [of _ action])
    then show ?thesis using implicitDeny_new by blast
  qed
qed

lemma scanDenies_implicit:
  assumes "rp \<in> set bs" and "P rp" and "R rp" and "b_AllowActions rp \<noteq> None" and "b_Role rp \<in> set roles"
    and "\<forall>b \<in> set bs. P b \<and> R b \<and> b_AllowActions b \<noteq> None \<and> b_Role b = b_Role rp
        \<and> resourceSel compile KIND_RESOURCE resource b \<longrightarrow> \<not> allowsAction compile b action"
    and "resource \<in> set resources" and "action \<in> set actions"
  shows "\<exists>d \<in> set (scanDenies compile bs resources roles actions P R). implicitDeny (b_Role rp) action d"
proof -
  let ?cands = "filter (\<lambda>b. P b \<and> R b \<and> b_AllowActions b \<noteq> None) bs"
  let ?matched = "filter (resourceSel compile KIND_RESOURCE resource) ?cands"
  obtain reps order where reps: "rolePolicyReps ?cands = (reps, order)" by fastforce
  have "rp \<in> set ?cands" using assms(1-4) by simp
  then have "find (\<lambda>b. b_Role b = b_Role rp) ?cands \<noteq> None" unfolding find_None_iff by blast
  then have "map_of reps (b_Role rp) \<noteq> None"
    using rolePolicyReps_facts [of ?cands "b_Role rp"] unfolding reps fst_conv by (rule ssubst [rotated])
  moreover have "\<forall>b \<in> set ?matched. b_Role b = b_Role rp \<longrightarrow> \<not> allowsAction compile b action"
    using assms(6) by simp
  ultimately obtain d where d: "implicitDeny (b_Role rp) action d"
    "d \<in> set (deniesForRole compile reps ?matched resource actions (b_Role rp))"
    using deniesForRole_implicit assms(8) by meson
  have "roles \<noteq> []" "actions \<noteq> []" using assms(5,8) by auto
  then have "scanDenies compile bs resources roles actions P R =
      concat (map (\<lambda>r. concat (map (deniesForRole compile reps (filter (resourceSel compile KIND_RESOURCE r) ?cands) r actions) roles)) resources)"
    by (simp only: scanDenies_def Let_def reps prod.case if_False)
  moreover have "d \<in> set (concat (map (deniesForRole compile reps ?matched resource actions) roles))"
    unfolding set_concat set_map using d(2) assms(5) by blast
  ultimately have "d \<in> set (scanDenies compile bs resources roles actions P R)"
    unfolding set_concat set_map using assms(7) by auto
  then show ?thesis using d(1) by blast
qed

section \<open>Properties\<close>

text \<open>A small external world: globs are \<^verbatim>\<open>*\<close> and literals, every expression compiles to itself, and the hashes
  tell the example's rows apart.\<close>

definition exampleExt :: Ext where
  "exampleExt = \<lparr>ext_compile = (\<lambda>g. Some (\<lambda>v. g = ''**'' \<or> g = v)), ext_celCompile = Some,
     ext_hashRow = (\<lambda>r d. (if rr_Effect r = EFFECT_ALLOW then 4 else 0) + ucast d), ext_hashParams = (\<lambda>p. if p = None then 0 else 1)\<rparr>"

definition exampleRow :: "string \<Rightarrow> string \<Rightarrow> Effect \<Rightarrow> RuleRow" where
  "exampleRow fqn action effect = \<lparr>rr_OriginFqn = fqn, rr_Resource = ''doc'', rr_Role = ''user'', rr_ActionSet = ActionSet_Action action,
     rr_Condition = None, rr_DerivedRoleCondition = None, rr_Effect = effect, rr_Scope = '''',
     rr_ScopePermissions = SCOPE_PERMISSIONS_UNSPECIFIED, rr_Version = ''default'', rr_OriginDerivedRole = '''',
     rr_EmitOutput = None, rr_Name = '''', rr_Principal = '''', rr_Params = None, rr_DerivedRoleParams = None,
     rr_EvaluationKey = '''', rr_PolicyKind = KIND_RESOURCE, rr_FromRolePolicy = False, rr_EvaluationKeyTuple = None\<rparr>"

definition exampleRows :: "RuleRow list" where
  "exampleRows = [exampleRow ''p1'' ''view'' EFFECT_ALLOW, exampleRow ''p2'' ''edit'' EFFECT_DENY, exampleRow ''p1'' ''*'' EFFECT_DENY]"

definition exampleIndex :: Index where
  "exampleIndex = snd (IndexRules exampleExt exampleRows New)"

lemma New_facts: "bi_inv compile (ix_bi New)" "caches_ok E R New" "GetAllRows New = []" "roomFor (length exampleRows) (ix_bi New)"
proof -
  show "bi_inv compile (ix_bi New)" by (simp add: New_def bi_inv_new)
qed (simp_all add: New_def caches_ok_def cache_ok_def cores_ok_def GetAllRows_def newBitmapIndex_def roomFor_def exampleRows_def)

lemma exampleRows_noCollisions: "noCollisions exampleExt (set exampleRows)"
  by (auto simp: noCollisions_def exampleRows_def exampleRow_def exampleExt_def functionalFields_def condDisc_def hasDerivedParams_def)

lemma IndexRule_succeeds:
  assumes "\<And>s. ext_celCompile E s \<noteq> None"
  shows "fst (IndexRule E rule m)"
proof -
  have all: "those (map f vs) \<noteq> None" if "\<And>v. f v \<noteq> None" for f :: "Variable \<Rightarrow> CelProgram option" and vs
    using that by (induction vs) (auto split: option.split)
  have progs: "getCelPrograms E vars \<noteq> None" for vars
    unfolding getCelPrograms_def by (rule all) (use assms in auto)
  have params: "fst (getOrGenerateParams E cache refs proto) \<noteq> None" for cache refs proto
    using progs [of "paramVariables proto"] by (auto simp: getOrGenerateParams_def Let_def split: option.split)
  have "fst (indexParams E rule m) \<noteq> None"
    using params [of "ix_paramsCache m" "ix_refcounts m" "rr_Params rule"]
      params [of "ix_drParamsCache m" "snd (snd (getOrGenerateParams E (ix_paramsCache m) (ix_refcounts m) (rr_Params rule)))"
        "rr_DerivedRoleParams rule"]
    by (auto simp: indexParams_def Let_def case_prod_beta split: option.split)
  then show ?thesis by (auto simp: IndexRule_def case_prod_beta split: prod.split option.split)
qed

lemma IndexRules_succeeds:
  assumes "\<And>s. ext_celCompile E s \<noteq> None"
  shows "fst (IndexRules E rules m)"
proof (induction rules arbitrary: m)
  case (Cons rule rules)
  obtain m' where "IndexRule E rule m = (True, m')" using IndexRule_succeeds [OF assms, of rule m] by (metis prod.collapse)
  then show ?case using Cons.IH by simp
qed simp

lemma exampleIndex_eq: "IndexRules exampleExt exampleRows New = (True, exampleIndex)"
  using IndexRules_succeeds [of exampleExt exampleRows New] by (simp add: exampleExt_def exampleIndex_def prod_eq_iff)

lemmas exampleIndex_facts =
  IndexRules_facts [OF New_facts(1,4) exampleIndex_eq exampleRows_noCollisions New_facts(2) order_refl]

lemma exampleIndex_rows: "bi_inv (ext_compile exampleExt) (ix_bi exampleIndex)" "length (GetAllRows exampleIndex) = 3"
  "\<exists>b \<in> set (GetAllRows exampleIndex). b_OriginFqn b = ''p2''"
proof -
  show "bi_inv (ext_compile exampleExt) (ix_bi exampleIndex)" using exampleIndex_facts by blast
  obtain bs where bs: "mset (GetAllRows exampleIndex) = mset bs" "list_all2 (bindingFor exampleExt) exampleRows bs"
    using exampleIndex_facts by (auto simp: rowsAdded_def New_facts(3))
  then have "length (GetAllRows exampleIndex) = length exampleRows" using mset_eq_length list_all2_lengthD by metis
  then show "length (GetAllRows exampleIndex) = 3" by (simp add: exampleRows_def)
  have "b_OriginFqn (bs ! 1) = ''p2''"
    using list_all2_nthD2 [OF bs(2), of 1] bindingFor_origin list_all2_lengthD [OF bs(2)]
    by (fastforce simp: exampleRows_def exampleRow_def)
  moreover have "bs ! 1 \<in> set (GetAllRows exampleIndex)"
    using bs list_all2_lengthD [OF bs(2)] by (simp add: mset_eq_setD [OF bs(1)] exampleRows_def)
  ultimately show "\<exists>b \<in> set (GetAllRows exampleIndex). b_OriginFqn b = ''p2''" by blast
qed

text \<open>C9 (equivalence).  \<^verbatim>\<open>Index.Query\<close> returns what a scan of the binding table returns: after the caller's buffer, the
  denials of the role policies and then exactly the rows whose version, scope, resource, role, policy kind, principal and
  action match, in table order.  Every early return, empty-filter shortcut and bitmap operation is covered.\<close>

theorem query_is_scan:
  assumes "bi_inv (ext_compile E) (ix_bi m)"
  shows "Query E m version resource scope action roles policyKind principalID buf =
    buf @ scanQuery (ext_compile E) (GetAllRows m) version resource scope action roles policyKind principalID"
  by (rule Query_scan [OF assms])

theorem query_is_scan_witness:
  "length (GetAllRows exampleIndex) = 3 \<and>
   Query exampleExt exampleIndex ''default'' (NewResourceKind ''doc'') '''' ''view'' [''user''] KIND_RESOURCE '''' [] =
   scanQuery (ext_compile exampleExt) (GetAllRows exampleIndex) ''default'' (NewResourceKind ''doc'') '''' ''view'' [''user''] KIND_RESOURCE ''''"
  using query_is_scan [OF exampleIndex_rows(1), of "''default''"] exampleIndex_rows(2) by simp

text \<open>C10 (equivalence).  \<^verbatim>\<open>QueryMulti\<close> (several values per dimension, each empty list meaning no filter) is the
  corresponding scan, with the role-policy denials appended when asked for.\<close>

theorem query_multi_is_scan:
  assumes "bi_inv (ext_compile E) (ix_bi m)"
  shows "QueryMulti E m versions resources scopes roles actions deny =
    map (\<lambda>b. toBinding b (EvalKey m (b_ID b)))
      (scanQueryMulti (ext_compile E) (GetAllRows m) versions resources scopes roles actions deny)"
  by (rule QueryMulti_scan [OF assms])

theorem query_multi_is_scan_witness:
  "length (QueryMulti exampleExt exampleIndex [] [] [] [] [] False) = 3"
  using query_multi_is_scan [OF exampleIndex_rows(1), of "[]" "[]" "[]" "[]" "[]" False] exampleIndex_rows(2)
  by (simp add: scanQueryMulti_def versionsSel_def scopesSel_def resourcesSel_def newResourceKinds_def roleSel_def actionsSel_def)

text \<open>C12 (functional).  \<^verbatim>\<open>DeletePolicy\<close> removes exactly the rows that came from the policy, keeps the others in order and
  keeps the index's invariant, including the reuse of the freed IDs.\<close>

theorem delete_policy_exact:
  assumes "bi_inv compile (ix_bi m)" and "fqn \<noteq> ''''"
  shows "bi_inv compile (ix_bi (DeletePolicy fqn m)) \<and>
    GetAllRows (DeletePolicy fqn m) = filter (\<lambda>b. b_OriginFqn b \<noteq> fqn) (GetAllRows m)"
  using DeletePolicy_facts(1) DeletePolicy_rows assms by blast

theorem delete_policy_exact_witness:
  "GetAllRows (DeletePolicy ''p2'' exampleIndex) = filter (\<lambda>b. b_OriginFqn b \<noteq> ''p2'') (GetAllRows exampleIndex) \<and>
   GetAllRows (DeletePolicy ''p2'' exampleIndex) \<noteq> GetAllRows exampleIndex"
  using delete_policy_exact [OF exampleIndex_rows(1), of "''p2''"] exampleIndex_rows(3)
  by (auto simp: filter_id_conv)



text \<open>C13 (round trip).  Deleting a policy undoes indexing it: the rows of the other policies come back as they were,
  even when indexing stopped at a rule that failed to compile.\<close>

theorem index_delete_roundtrip:
  assumes "bi_inv (ext_compile E) (ix_bi m)" and "roomFor (length rules) (ix_bi m)" and "IndexRules E rules m = (ok, m')"
    and "noCollisions E R" and "caches_ok E R m" and "set rules \<subseteq> R"
    and "fqn \<noteq> ''''" and "\<forall>r \<in> set rules. rr_OriginFqn r = fqn" and "\<forall>b \<in> set (GetAllRows m). b_OriginFqn b \<noteq> fqn"
  shows "GetAllRows (DeletePolicy fqn m') = GetAllRows m"
  by (rule IndexRules_DeletePolicy [OF assms])

theorem index_delete_roundtrip_witness:
  "GetAllRows (DeletePolicy ''p1'' (snd (IndexRules exampleExt [exampleRow ''p1'' ''view'' EFFECT_ALLOW] New))) = []"
proof -
  let ?rules = "[exampleRow ''p1'' ''view'' EFFECT_ALLOW]"
  have "IndexRules exampleExt ?rules New = (True, snd (IndexRules exampleExt ?rules New))"
    using IndexRules_succeeds [of exampleExt ?rules New] by (simp add: exampleExt_def prod_eq_iff)
  moreover have "roomFor (length ?rules) (ix_bi New)" "set ?rules \<subseteq> set exampleRows" "\<forall>r \<in> set ?rules. rr_OriginFqn r = ''p1''"
    by (simp_all add: roomFor_def New_def newBitmapIndex_def exampleRows_def exampleRow_def)
  ultimately show ?thesis
    using index_delete_roundtrip [OF New_facts(1) _ _ exampleRows_noCollisions New_facts(2), of ?rules True _ "''p1''"]
    by (simp add: New_facts(3))
qed

text \<open>C16 (functional, termination).  \<^verbatim>\<open>AddParentRoles\<close> returns the given roles together with all their ancestors in the given
  scopes: the roles reachable by one or more parent links within one scope.  The compilation of the ancestors ends
  on every input, cyclic ones included.\<close>

theorem parent_roles_transitive:
  assumes "gowf scopeParentRoles"
  shows "set (AddParentRoles (IndexParentRoles scopeParentRoles m) scopes roles) =
    set roles \<union> {p. \<exists>role \<in> set roles. \<exists>scope \<in> set scopes. \<exists>prs.
       map_of scopeParentRoles scope = Some (Some prs) \<and> (role, p) \<in> (parentRel prs)\<^sup>+}"
  by (rule AddParentRoles_closure [OF assms])

theorem parent_roles_transitive_witness:
  "''c'' \<in> set (AddParentRoles (IndexParentRoles [(''acme'', Some [(''a'', [''b'']), (''b'', [''c'', ''a''])])] New) [''acme''] [''a''])"
proof -
  let ?prs = "[(''a'', [''b'']), (''b'', [''c'', ''a''])]"
  have "(''a'', ''b'') \<in> parentRel ?prs" "(''b'', ''c'') \<in> parentRel ?prs" by (simp_all add: parentRel_def directParents_def)
  then have "(''a'', ''c'') \<in> (parentRel ?prs)\<^sup>+" by (meson trancl.r_into_trancl trancl.trancl_into_trancl)
  then show ?thesis
    using parent_roles_transitive [of "[(''acme'', Some ?prs)]" New "[''acme'']" "[''a'']"] by (simp add: gowf_def)
qed

text \<open>C18 (functional).  The listings \<^verbatim>\<open>Versions\<close>, \<^verbatim>\<open>Scopes\<close>, \<^verbatim>\<open>Roles\<close>, \<^verbatim>\<open>Actions\<close> and \<^verbatim>\<open>Resources\<close> contain exactly the keys of
  the resource-policy rows (principal policies excluded) that pass the version, scope and resource filters.\<close>

theorem listings_exact:
  assumes "bi_inv compile (ix_bi m)"
  defines "row \<equiv> \<lambda>versions scopes resources b. fc_PolicyKind (b_Core b) = KIND_RESOURCE \<and> versionsSel versions b
     \<and> scopesSel scopes b \<and> resourcesSel compile KIND_RESOURCE (newResourceKinds resources) b"
  shows "(k \<in> set (Versions m ss rs) \<longleftrightarrow> (\<exists>b \<in> set (GetAllRows m). plainKey (b_Version b) = Some k \<and> row [] ss rs b))
    \<and> (k \<in> set (Scopes m vs rs) \<longleftrightarrow> (\<exists>b \<in> set (GetAllRows m). Some (b_Scope b) = Some k \<and> row vs [] rs b))
    \<and> (k \<in> set (Roles m vs ss rs) \<longleftrightarrow> (\<exists>b \<in> set (GetAllRows m). globKey compile (b_Role b) = Some k \<and> row vs ss rs b))
    \<and> (k \<in> set (Actions m vs ss rs) \<longleftrightarrow> (\<exists>b \<in> set (GetAllRows m). actionKey compile b = Some k \<and> row vs ss rs b))
    \<and> (k \<in> set (Resources m vs ss) \<longleftrightarrow> (\<exists>b \<in> set (GetAllRows m). globKey compile (b_Resource b) = Some k \<and> row vs ss [] b))"
  unfolding Versions_def Scopes_def Roles_def Actions_def Resources_def row_def GetAllRows_rows
  using bi_inv_parts(1,2) [OF assms(1)] dims_invD(5-10,13-18) [OF bi_inv_parts(2) [OF assms(1)]]
  by (intro conjI exactKeys.dimension_keys globKeys.dimension_keys)

theorem listings_exact_witness:
  "''default'' \<in> set (Versions exampleIndex [] []) \<longleftrightarrow>
    (\<exists>b \<in> set (GetAllRows exampleIndex). plainKey (b_Version b) = Some ''default'' \<and> fc_PolicyKind (b_Core b) = KIND_RESOURCE)"
  using listings_exact [OF exampleIndex_rows(1), of "''default''" "[]" "[]"]
  by (simp add: versionsSel_def scopesSel_def resourcesSel_def newResourceKinds_def)

text \<open>C19 (functional).  The two existence tests that gate an evaluation: some resource-policy row matches version, scopes
  and resource, and some principal-policy row matches version and scopes (of whatever principal).\<close>

theorem scoped_policy_exists:
  assumes "bi_inv compile (ix_bi m)"
  shows "(ScopedResourceExists m version resource scopes \<longleftrightarrow>
      (\<exists>b \<in> set (GetAllRows m). b_Version b = version \<and> version \<noteq> ''''
         \<and> (b_Scope b \<in> set scopes \<and> resourceSel compile KIND_RESOURCE resource b) \<and> fc_PolicyKind (b_Core b) = KIND_RESOURCE))
    \<and> (ScopedPrincipalExists m version scopes \<longleftrightarrow>
      (\<exists>b \<in> set (GetAllRows m). b_Version b = version \<and> version \<noteq> '''' \<and> b_Scope b \<in> set scopes
         \<and> fc_PolicyKind (b_Core b) = KIND_PRINCIPAL))"
  using ScopedResourceExists_iff [OF assms] ScopedPrincipalExists_iff [OF assms] by blast

theorem scoped_policy_exists_witness:
  "\<not> ScopedResourceExists exampleIndex '''' (NewResourceKind ''doc'') [''''] \<and> \<not> ScopedPrincipalExists exampleIndex ''default'' []"
  using scoped_policy_exists [OF exampleIndex_rows(1)] by simp

text \<open>C17 (equivalence).  \<^verbatim>\<open>Compact\<close>, which trims the bitmaps and changes the representation of sparse ones, is invisible to
  every query.\<close>

theorem compact_invisible:
  assumes "bi_inv (ext_compile E) (ix_bi m)"
  shows "bi_inv (ext_compile E) (ix_bi (Compact m)) \<and>
    Query E (Compact m) version resource scope action roles policyKind principalID buf =
    Query E m version resource scope action roles policyKind principalID buf"
  using Compact_facts [OF assms] Query_scan [OF assms] Query_scan [of E "Compact m"] by simp

theorem compact_invisible_witness:
  "Query exampleExt (Compact exampleIndex) ''default'' (NewResourceKind ''doc'') '''' ''view'' [''user''] KIND_RESOURCE '''' [] =
   Query exampleExt exampleIndex ''default'' (NewResourceKind ''doc'') '''' ''view'' [''user''] KIND_RESOURCE '''' []"
  using compact_invisible [OF exampleIndex_rows(1)] by simp

text \<open>C14 (safety).  Role policies deny by default: when some row in scope matches the query, a queried role that has a role
  policy there, none of whose rows for the resource allows the action, gets an unconditional denial in the result.\<close>

theorem role_policy_denies:
  assumes "bi_inv (ext_compile E) (ix_bi m)" and "action \<noteq> ''''" and "rk_raw resource \<noteq> ''''"
    and "b0 \<in> set (GetAllRows m)" and "rowSel (ext_compile E) version resource scope roles KIND_RESOURCE '''' b0"
    and "rp \<in> set (GetAllRows m)" and "b_AllowActions rp \<noteq> None" and "versionSel version rp" and "b_Scope rp = scope"
    and "b_Role rp \<in> set roles" and "roleSel (ext_compile E) roles rp"
    and "\<forall>b \<in> set (GetAllRows m). b_AllowActions b \<noteq> None \<and> b_Role b = b_Role rp \<and> b_Scope b = scope
        \<and> resourceSel (ext_compile E) KIND_RESOURCE resource b \<longrightarrow> \<not> allowsAction (ext_compile E) b action"
  shows "\<exists>d \<in> set (Query E m version resource scope action roles KIND_RESOURCE '''' buf). implicitDeny (b_Role rp) action d"
proof -
  have "\<exists>d \<in> set (scanDenies (ext_compile E) (GetAllRows m) [resource] roles [action]
      (\<lambda>b. versionSel version b \<and> b_Scope b = scope) (roleSel (ext_compile E) roles)). implicitDeny (b_Role rp) action d"
    using assms(6-12) by (intro scanDenies_implicit [of rp _ _ _ _ _ resource]) auto
  moreover have "filter (rowSel (ext_compile E) version resource scope roles KIND_RESOURCE '''') (GetAllRows m) \<noteq> []"
    using assms(4,5) by (auto simp: filter_empty_conv)
  ultimately show ?thesis
    using assms(2,3) by (auto simp: Query_scan [OF assms(1)] scanQuery_def Let_def)
qed

text \<open>An index with one role policy: \<open>user\<close> may \<open>view\<close> a \<open>doc\<close> in scope \<open>acme\<close>.\<close>

definition roleRow :: RuleRow where
  "roleRow = (exampleRow ''rp'' '''' EFFECT_UNSPECIFIED)\<lparr>rr_ActionSet := ActionSet_AllowActions [''view''],
     rr_Scope := ''acme'', rr_FromRolePolicy := True\<rparr>"

definition roleIndex :: Index where
  "roleIndex = snd (IndexRules exampleExt [roleRow] New)"

lemma roleIndex_facts:
  "bi_inv (ext_compile exampleExt) (ix_bi roleIndex)"
  "\<exists>b. GetAllRows roleIndex = [b] \<and> b_AllowActions b = Some [''view''] \<and> b_AllowActionGlobs b = [] \<and> b_Scope b = ''acme''
     \<and> b_Role b = ''user'' \<and> b_Resource b = ''doc'' \<and> b_Version b = ''default'' \<and> fc_PolicyKind (b_Core b) = KIND_RESOURCE
     \<and> b_Principal b = ''''"
proof -
  have eq: "IndexRules exampleExt [roleRow] New = (True, roleIndex)"
    using IndexRules_succeeds [of exampleExt "[roleRow]" New] by (simp add: exampleExt_def roleIndex_def prod_eq_iff)
  have "noCollisions exampleExt {roleRow}" by (simp add: noCollisions_def roleRow_def exampleRow_def exampleExt_def)
  moreover have "roomFor (length [roleRow]) (ix_bi New)" by (simp add: roomFor_def New_def newBitmapIndex_def)
  ultimately have F: "bi_inv (ext_compile exampleExt) (ix_bi roleIndex)" "rowsAdded exampleExt [roleRow] New roleIndex"
    using IndexRules_facts [OF New_facts(1) _ eq _ New_facts(2)] by auto
  show "bi_inv (ext_compile exampleExt) (ix_bi roleIndex)" by (rule F(1))
  obtain b where b: "mset (GetAllRows roleIndex) = {#b#}" "bindingFor exampleExt roleRow b"
    using F(2) by (auto simp: rowsAdded_def New_facts(3) list_all2_Cons1)
  then have "GetAllRows roleIndex = [b]" by simp
  moreover obtain core bid where "b = (ruleBinding roleRow core)\<lparr>b_ID := bid\<rparr>" "coreFor exampleExt roleRow core"
    using b(2) by (auto simp: bindingFor_def ruleBinding_fields)
  ultimately show "\<exists>b. GetAllRows roleIndex = [b] \<and> b_AllowActions b = Some [''view''] \<and> b_AllowActionGlobs b = [] \<and> b_Scope b = ''acme''
     \<and> b_Role b = ''user'' \<and> b_Resource b = ''doc'' \<and> b_Version b = ''default'' \<and> fc_PolicyKind (b_Core b) = KIND_RESOURCE
     \<and> b_Principal b = ''''"
    by (simp add: ruleBinding_def roleRow_def exampleRow_def setAllowActions_def set_add_def IsGlob_def zeroBinding_def coreFor_def Let_def)
qed

lemma doc_sanitized: "NewResourceKind ''doc'' = \<lparr>rk_raw = ''doc'', rk_sanitized = ''''\<rparr>"
  "NewResourceKind ''img'' = \<lparr>rk_raw = ''img'', rk_sanitized = ''''\<rparr>"
  by code_simp+

theorem role_policy_denies_witness:
  "\<exists>d \<in> set (Query exampleExt roleIndex ''default'' (NewResourceKind ''doc'') ''acme'' ''edit'' [''user''] KIND_RESOURCE '''' []).
     implicitDeny ''user'' ''edit'' d"
proof -
  obtain b where b: "GetAllRows roleIndex = [b]" "b_AllowActions b = Some [''view'']" "b_AllowActionGlobs b = []" "b_Scope b = ''acme''"
    "b_Role b = ''user''" "b_Resource b = ''doc''" "b_Version b = ''default''" "fc_PolicyKind (b_Core b) = KIND_RESOURCE" "b_Principal b = ''''"
    using roleIndex_facts(2) by blast
  have sel: "roleSel (ext_compile exampleExt) [''user''] b"
    using b by (simp add: roleSel_def keySel_def globKey_def indexable_def IsGlob_def keyMatches_def)
  moreover have "rowSel (ext_compile exampleExt) ''default'' (NewResourceKind ''doc'') ''acme'' [''user''] KIND_RESOURCE '''' b"
    using b sel by (simp add: rowSel_def versionSel_def resourceSel_def globKey_def indexable_def IsGlob_def keyMatches_def doc_sanitized)
  ultimately show ?thesis
    using role_policy_denies [OF roleIndex_facts(1), of "''edit''" "NewResourceKind ''doc''" b "''default''" "''acme''" "[''user'']" b "[]"] b
    by (simp add: doc_sanitized versionSel_def allowsAction_def)
qed

text \<open>C15 (error).  Where no row in the scope matches a query, \<^verbatim>\<open>Query\<close> returns no denial, although the role has a role policy
  there that does not cover the resource; \<^verbatim>\<open>QueryMulti\<close> does return one for the same arguments.\<close>

theorem role_policy_gap:
  assumes "bi_inv (ext_compile E) (ix_bi m)" and "action \<noteq> ''''" and "version \<noteq> ''''"
    and "\<forall>b \<in> set (GetAllRows m). \<not> (b_Scope b = scope \<and> resourceSel (ext_compile E) KIND_RESOURCE (NewResourceKind kind) b)"
    and "kind \<noteq> ''''"
    and "rp \<in> set (GetAllRows m)" and "b_AllowActions rp \<noteq> None" and "b_Version rp = version" and "b_Scope rp = scope"
    and "b_Role rp = role" and "roleSel (ext_compile E) [role] rp"
  shows "Query E m version (NewResourceKind kind) scope action [role] KIND_RESOURCE '''' [] = [] \<and>
    (\<exists>d. implicitDeny role action d \<and>
       toBinding d (EvalKey m (b_ID d)) \<in> set (QueryMulti E m [version] [kind] [scope] [role] [action] True))"
proof
  have raw: "rk_raw (NewResourceKind kind) = kind" by (simp add: NewResourceKind_def)
  show "Query E m version (NewResourceKind kind) scope action [role] KIND_RESOURCE '''' [] = []"
    unfolding Query_scan [OF assms(1)] append_Nil
    by (rule scanQuery_none) (use assms(4,5) raw in \<open>auto simp: rowSel_def\<close>)
  have "\<exists>d \<in> set (scanDenies (ext_compile E) (GetAllRows m) (newResourceKinds [kind]) [role] [action]
      (\<lambda>b. versionsSel [version] b \<and> scopesSel [scope] b) (roleSel (ext_compile E) [role])). implicitDeny (b_Role rp) action d"
    using assms(3,4,6-11)
    by (intro scanDenies_implicit [of rp _ _ _ _ _ "NewResourceKind kind"])
      (auto simp: versionsSel_def scopesSel_def newResourceKinds_def)
  then show "\<exists>d. implicitDeny role action d \<and>
       toBinding d (EvalKey m (b_ID d)) \<in> set (QueryMulti E m [version] [kind] [scope] [role] [action] True)"
    unfolding QueryMulti_scan [OF assms(1)] using assms(10) by (auto simp: scanQueryMulti_def Let_def)
qed

theorem role_policy_gap_witness:
  "Query exampleExt roleIndex ''default'' (NewResourceKind ''img'') ''acme'' ''view'' [''user''] KIND_RESOURCE '''' [] = []"
proof -
  obtain b where b: "GetAllRows roleIndex = [b]" "b_AllowActions b = Some [''view'']" "b_Scope b = ''acme''"
    "b_Role b = ''user''" "b_Resource b = ''doc''" "b_Version b = ''default''"
    using roleIndex_facts(2) by blast
  moreover have "roleSel (ext_compile exampleExt) [''user''] b"
    using b by (simp add: roleSel_def keySel_def globKey_def indexable_def IsGlob_def keyMatches_def)
  ultimately show ?thesis
    using role_policy_gap [OF roleIndex_facts(1), of "''view''" "''default''" "''acme''" "''img''" b "''user''"]
    by (simp add: doc_sanitized resourceSel_def globKey_def indexable_def IsGlob_def keyMatches_def)
qed

end
