(* ===== verification/ScopePerms.thy ===== *)
theory ScopePerms
  imports PolicyTypes
begin

text \<open>
  \<^verbatim>\<open>internal/policy/scopeperms\<close>: which policies of a scope have which scope-permission setting, and the
  detection of scopes whose policies disagree.  The theorems show that the tracker is a map from policies to
  their last setting, that \<^verbatim>\<open>Err\<close> reports exactly the disagreements, and that a policy accepted by \<^verbatim>\<open>Check\<close> can be
  added without creating one.
\<close>

section \<open>Definitions\<close>

record PolicySetting =
  ps_PolicyKey :: string
  ps_Permissions :: ScopePermissions

record Conflict =
  cf_Scope :: string
  cf_PolicySettings :: "PolicySetting list"

definition Normalise :: "ScopePermissions \<Rightarrow> ScopePermissions" where
  "Normalise sp = (if sp = SCOPE_PERMISSIONS_UNSPECIFIED then SCOPE_PERMISSIONS_OVERRIDE_PARENT else sp)"

definition Constrained :: "Kind \<Rightarrow> bool" where
  "Constrained kind \<longleftrightarrow> kind = KIND_RESOURCE \<or> kind = KIND_PRINCIPAL"

type_synonym settings = "(string, ScopePermissions) gomap"

record Tracker =
  tr_scopes :: "(string, settings) gomap"
  tr_policies :: "(string, string) gomap"

definition NewTracker :: Tracker where
  "NewTracker = \<lparr>tr_scopes = [], tr_policies = []\<rparr>"

text \<open>\<^verbatim>\<open>t.scopes[scope]\<close>, where a missing key is the empty map.\<close>

definition settingsOf :: "Tracker \<Rightarrow> string \<Rightarrow> settings" where
  "settingsOf t scope = (case map_of (tr_scopes t) scope of None \<Rightarrow> [] | Some s \<Rightarrow> s)"

definition tracker_Remove :: "string \<Rightarrow> Tracker \<Rightarrow> Tracker" where
  "tracker_Remove policyKey t =
     (case map_of (tr_policies t) policyKey of
        None \<Rightarrow> t
      | Some scope \<Rightarrow>
          let t = t\<lparr>tr_policies := AList.delete policyKey (tr_policies t)\<rparr>
          in (case map_of (tr_scopes t) scope of
               None \<Rightarrow> t
             | Some settings \<Rightarrow>
                 let settings = AList.delete policyKey settings
                 in if settings = [] then t\<lparr>tr_scopes := AList.delete scope (tr_scopes t)\<rparr>
                    else t\<lparr>tr_scopes := AList.update scope settings (tr_scopes t)\<rparr>))"

definition tracker_Add :: "Kind \<Rightarrow> string \<Rightarrow> string \<Rightarrow> ScopePermissions \<Rightarrow> Tracker \<Rightarrow> Tracker" where
  "tracker_Add kind policyKey scope sp t =
     (if \<not> Constrained kind then t
      else let sp1 = Normalise sp
        in if map_of (settingsOf t scope) policyKey = Some sp1 then t
           else let t = tracker_Remove policyKey t;
                    settings = settingsOf t scope
             in t\<lparr>tr_scopes := AList.update scope (AList.update policyKey sp1 settings) (tr_scopes t),
                  tr_policies := AList.update policyKey scope (tr_policies t)\<rparr>)"

definition sortSettings :: "PolicySetting list \<Rightarrow> PolicySetting list" where
  "sortSettings s = sort_key ps_PolicyKey s"

definition tracker_Check :: "Kind \<Rightarrow> string \<Rightarrow> string \<Rightarrow> ScopePermissions \<Rightarrow> string \<Rightarrow> Tracker \<Rightarrow> Conflict option" where
  "tracker_Check kind policyKey scope sp ignoredPolicyKey t =
     (if \<not> Constrained kind then None
      else let want = Normalise sp;
               others = map (\<lambda>(key, current). \<lparr>ps_PolicyKey = key, ps_Permissions = current\<rparr>)
                 (filter (\<lambda>(key, current). \<not> (key = policyKey \<or> key = ignoredPolicyKey \<or> current = want)) (settingsOf t scope))
        in if others = [] then None
           else Some \<lparr>cf_Scope = scope,
                      cf_PolicySettings = sortSettings (others @ [\<lparr>ps_PolicyKey = policyKey, ps_Permissions = want\<rparr>])\<rparr>)"

definition tracker_Tracked :: "string \<Rightarrow> Tracker \<Rightarrow> bool" where
  "tracker_Tracked scope t \<longleftrightarrow> settingsOf t scope \<noteq> []"

fun disagreeFrom :: "ScopePermissions \<Rightarrow> ScopePermissions list \<Rightarrow> bool" where
  "disagreeFrom first [] = False"
| "disagreeFrom first (sp # sps) =
     (if first = SCOPE_PERMISSIONS_UNSPECIFIED then disagreeFrom sp sps
      else if sp \<noteq> first then True else disagreeFrom first sps)"

definition disagree :: "settings \<Rightarrow> bool" where
  "disagree settings = disagreeFrom SCOPE_PERMISSIONS_UNSPECIFIED (map snd settings)"

definition tracker_Conflicts :: "Tracker \<Rightarrow> Conflict list" where
  "tracker_Conflicts t =
     sort_key cf_Scope (map (\<lambda>(scope, settings). \<lparr>cf_Scope = scope,
         cf_PolicySettings = sortSettings (map (\<lambda>(key, sp). \<lparr>ps_PolicyKey = key, ps_Permissions = sp\<rparr>) settings)\<rparr>)
       (filter (\<lambda>(scope, settings). disagree settings) (tr_scopes t)))"

text \<open>\<open>None\<close> is no error.\<close>

definition tracker_Err :: "Tracker \<Rightarrow> Conflict list option" where
  "tracker_Err t = (let conflicts = tracker_Conflicts t in if conflicts = [] then None else Some conflicts)"

section \<open>The tracker as a map\<close>

text \<open>The setting recorded for a policy in a scope.\<close>

definition settingAt :: "Tracker \<Rightarrow> string \<Rightarrow> string \<Rightarrow> ScopePermissions option" where
  "settingAt t scope policyKey = map_of (settingsOf t scope) policyKey"

text \<open>No entry is empty and every setting is normalised.\<close>

definition scopes_ok :: "(string, settings) gomap \<Rightarrow> bool" where
  "scopes_ok scopes \<longleftrightarrow> gowf scopes
     \<and> (\<forall>scope s. map_of scopes scope = Some s \<longrightarrow> gowf s \<and> s \<noteq> [] \<and> SCOPE_PERMISSIONS_UNSPECIFIED \<notin> snd ` set s)"

definition tracker_inv :: "Tracker \<Rightarrow> bool" where
  "tracker_inv t \<longleftrightarrow> scopes_ok (tr_scopes t) \<and> gowf (tr_policies t)
     \<and> (\<forall>key scope. map_of (tr_policies t) key = Some scope \<longleftrightarrow> settingAt t scope key \<noteq> None)"

lemma tracker_invD:
  assumes "tracker_inv t"
  shows "scopes_ok (tr_scopes t)" and "gowf (tr_policies t)"
    and "map_of (tr_policies t) key = Some scope \<longleftrightarrow> settingAt t scope key \<noteq> None"
  using assms unfolding tracker_inv_def by blast+

lemma tracker_inv_New: "tracker_inv NewTracker"
  by (simp add: tracker_inv_def scopes_ok_def NewTracker_def settingAt_def settingsOf_def)

lemma scopes_okD:
  assumes "scopes_ok scopes" and "map_of scopes scope = Some s"
  shows "gowf s" and "s \<noteq> []" and "SCOPE_PERMISSIONS_UNSPECIFIED \<notin> snd ` set s"
  using assms unfolding scopes_ok_def by blast+

lemma scopes_ok_delete: "scopes_ok scopes \<Longrightarrow> scopes_ok (AList.delete scope scopes)"
  by (auto simp: scopes_ok_def gomap_simps)

lemma scopes_ok_update:
  "scopes_ok scopes \<Longrightarrow> gowf s \<Longrightarrow> s \<noteq> [] \<Longrightarrow> SCOPE_PERMISSIONS_UNSPECIFIED \<notin> snd ` set s \<Longrightarrow>
   scopes_ok (AList.update scope s scopes)"
  by (auto simp: scopes_ok_def gomap_simps)

lemma settingsOf_facts:
  assumes "tracker_inv t"
  shows "gowf (settingsOf t scope)" and "SCOPE_PERMISSIONS_UNSPECIFIED \<notin> snd ` set (settingsOf t scope)"
    and "settingAt t scope key \<noteq> None \<Longrightarrow> scope' \<noteq> scope \<Longrightarrow> settingAt t scope' key = None"
proof -
  show wf: "gowf (settingsOf t scope)" "SCOPE_PERMISSIONS_UNSPECIFIED \<notin> snd ` set (settingsOf t scope)"
    using scopes_okD [OF tracker_invD(1) [OF assms], of scope]
    by (cases "map_of (tr_scopes t) scope"; simp add: settingsOf_def)+
  show "settingAt t scope' key = None" if "settingAt t scope key \<noteq> None" "scope' \<noteq> scope"
  proof (rule ccontr)
    assume "settingAt t scope' key \<noteq> None"
    then have "map_of (tr_policies t) key = Some scope'" by (rule tracker_invD(3) [OF assms, THEN iffD2])
    moreover have "map_of (tr_policies t) key = Some scope" using that(1) by (rule tracker_invD(3) [OF assms, THEN iffD2])
    ultimately show False using that(2) by simp
  qed
qed

lemma Normalise_specified [simp]: "Normalise sp \<noteq> SCOPE_PERMISSIONS_UNSPECIFIED"
  by (simp add: Normalise_def)

lemma snd_set_delete: "snd ` set (AList.delete k m) \<subseteq> snd ` set m"
  by (induction m) auto

lemma snd_set_update: "snd ` set (AList.update k v m) \<subseteq> insert v (snd ` set m)"
  by (induction m) auto

text \<open>The fields after removing a recorded policy.\<close>

lemma Remove_fields:
  assumes "tracker_inv t" and "map_of (tr_policies t) key = Some scope"
  obtains "settingsOf (tracker_Remove key t) scope = AList.delete key (settingsOf t scope)"
    and "\<And>sc. sc \<noteq> scope \<Longrightarrow> settingsOf (tracker_Remove key t) sc = settingsOf t sc"
    and "tr_policies (tracker_Remove key t) = AList.delete key (tr_policies t)"
    and "scopes_ok (tr_scopes (tracker_Remove key t))"
proof -
  have "settingAt t scope key \<noteq> None" using tracker_invD(3) [OF assms(1)] assms(2) by blast
  then obtain s where s: "map_of (tr_scopes t) scope = Some s"
    by (cases "map_of (tr_scopes t) scope") (auto simp: settingAt_def settingsOf_def)
  note old = scopes_okD [OF tracker_invD(1) [OF assms(1)] s]
  let ?s = "AList.delete key s"
  have eq: "tracker_Remove key t = t\<lparr>tr_policies := AList.delete key (tr_policies t),
      tr_scopes := if ?s = [] then AList.delete scope (tr_scopes t) else AList.update scope ?s (tr_scopes t)\<rparr>"
    using assms(2) s by (simp add: tracker_Remove_def Let_def)
  show ?thesis
  proof
    show "settingsOf (tracker_Remove key t) scope = AList.delete key (settingsOf t scope)"
      using s by (auto simp: eq settingsOf_def gomap_simps)
    show "settingsOf (tracker_Remove key t) sc = settingsOf t sc" if "sc \<noteq> scope" for sc
      using that by (simp add: eq settingsOf_def gomap_simps)
    show "tr_policies (tracker_Remove key t) = AList.delete key (tr_policies t)" by (simp add: eq)
    show "scopes_ok (tr_scopes (tracker_Remove key t))"
      using tracker_invD(1) [OF assms(1)] old snd_set_delete [of key s]
      by (auto simp: eq intro!: scopes_ok_delete scopes_ok_update)
  qed
qed

lemma tracker_Remove_facts:
  assumes "tracker_inv t"
  shows "tracker_inv (tracker_Remove key t)"
    and "settingAt (tracker_Remove key t) scope k = (if k = key then None else settingAt t scope k)"
proof -
  have "tracker_inv (tracker_Remove key t) \<and>
    (\<forall>scope k. settingAt (tracker_Remove key t) scope k = (if k = key then None else settingAt t scope k))"
  proof (cases "map_of (tr_policies t) key")
    case None
    then have "settingAt t scope key = None" for scope using tracker_invD(3) [OF assms, of key scope] by auto
    then show ?thesis using assms None by (simp add: tracker_Remove_def)
  next
    case (Some sc)
    have "settingAt t sc key \<noteq> None" using tracker_invD(3) [OF assms] Some by blast
    note other = settingsOf_facts(3) [OF assms this]
    from assms Some show ?thesis
    proof (rule Remove_fields)
      assume f: "settingsOf (tracker_Remove key t) sc = AList.delete key (settingsOf t sc)"
        "\<And>s. s \<noteq> sc \<Longrightarrow> settingsOf (tracker_Remove key t) s = settingsOf t s"
        "tr_policies (tracker_Remove key t) = AList.delete key (tr_policies t)" "scopes_ok (tr_scopes (tracker_Remove key t))"
      have get: "settingAt (tracker_Remove key t) scope k = (if k = key then None else settingAt t scope k)" for scope k
        using f(1) f(2) [of scope] other [of scope] by (cases "scope = sc") (auto simp: settingAt_def gomap_simps)
      then show ?thesis
        unfolding tracker_inv_def f(3) using f(4) tracker_invD(2,3) [OF assms] by (simp add: gomap_simps)
    qed
  qed
  then show "tracker_inv (tracker_Remove key t)"
    "settingAt (tracker_Remove key t) scope k = (if k = key then None else settingAt t scope k)" by blast+
qed

lemma tracker_Add_facts:
  assumes "tracker_inv t"
  shows "tracker_inv (tracker_Add kind key scope sp t)"
    and "settingAt (tracker_Add kind key scope sp t) sc k =
      (if Constrained kind \<and> k = key then (if sc = scope then Some (Normalise sp) else None) else settingAt t sc k)"
proof -
  let ?a = "tracker_Add kind key scope sp t" and ?r = "tracker_Remove key t"
  have "tracker_inv ?a \<and> (\<forall>sc k. settingAt ?a sc k =
      (if Constrained kind \<and> k = key then (if sc = scope then Some (Normalise sp) else None) else settingAt t sc k))"
  proof (cases "\<not> Constrained kind \<or> settingAt t scope key = Some (Normalise sp)")
    case True
    then have "?a = t" by (auto simp: tracker_Add_def settingAt_def Let_def)
    moreover have "settingAt t sc key = (if sc = scope then Some (Normalise sp) else None)"
      if "settingAt t scope key = Some (Normalise sp)" for sc
      using that settingsOf_facts(3) [OF assms, of scope key sc] by (cases "sc = scope") simp_all
    ultimately show ?thesis using True assms by auto
  next
    case False
    note r = tracker_Remove_facts [OF assms, of key]
    let ?s = "AList.update key (Normalise sp) (settingsOf ?r scope)"
    have eq: "?a = ?r\<lparr>tr_scopes := AList.update scope ?s (tr_scopes ?r), tr_policies := AList.update key scope (tr_policies ?r)\<rparr>"
      using False by (simp add: tracker_Add_def settingAt_def Let_def)
    have get: "settingAt ?a sc k = (if k = key then (if sc = scope then Some (Normalise sp) else None) else settingAt t sc k)" for sc k
      using r(2) by (auto simp: eq settingAt_def settingsOf_def gomap_simps)
    have pol: "tr_policies ?a = AList.update key scope (tr_policies ?r)" by (simp add: eq)
    have "SCOPE_PERMISSIONS_UNSPECIFIED \<notin> snd ` set ?s"
      using settingsOf_facts(2) [OF r(1), of scope] snd_set_update [of key "Normalise sp" "settingsOf ?r scope"]
        Normalise_specified [of sp, symmetric] by blast
    moreover have "?s \<noteq> []" by (cases "settingsOf ?r scope") (auto split: if_splits)
    ultimately have "scopes_ok (tr_scopes ?a)"
      using tracker_invD(1) [OF r(1)] settingsOf_facts(1) [OF r(1), of scope] by (simp add: eq scopes_ok_update)
    moreover have "map_of (tr_policies ?a) k = Some sc \<longleftrightarrow> settingAt ?a sc k \<noteq> None" for k sc
      unfolding get pol using tracker_invD(3) [OF r(1), of k sc] r(2) [of sc k] by (cases "k = key") (auto simp: gomap_simps)
    moreover have "gowf (tr_policies ?a)" unfolding pol using tracker_invD(2) [OF r(1)] by simp
    ultimately have "tracker_inv ?a" unfolding tracker_inv_def by blast
    then show ?thesis using False by (simp only: get) simp
  qed
  then show "tracker_inv ?a" "settingAt ?a sc k =
      (if Constrained kind \<and> k = key then (if sc = scope then Some (Normalise sp) else None) else settingAt t sc k)" by blast+
qed

section \<open>Conflicts\<close>

definition conflicting :: "Tracker \<Rightarrow> string \<Rightarrow> bool" where
  "conflicting t scope \<longleftrightarrow> (\<exists>k k' sp sp'. settingAt t scope k = Some sp \<and> settingAt t scope k' = Some sp' \<and> sp \<noteq> sp')"

lemma disagreeFrom_iff:
  assumes "SCOPE_PERMISSIONS_UNSPECIFIED \<notin> set sps"
  shows "disagreeFrom first sps \<longleftrightarrow>
    (if first = SCOPE_PERMISSIONS_UNSPECIFIED then \<exists>x \<in> set sps. \<exists>y \<in> set sps. x \<noteq> y else \<exists>x \<in> set sps. x \<noteq> first)"
  using assms
proof (induction sps arbitrary: first)
  case (Cons sp sps)
  then have IH: "disagreeFrom sp sps \<longleftrightarrow> (\<exists>x \<in> set sps. x \<noteq> sp)" "first \<noteq> SCOPE_PERMISSIONS_UNSPECIFIED \<longrightarrow>
      (disagreeFrom first sps \<longleftrightarrow> (\<exists>x \<in> set sps. x \<noteq> first))"
    by auto
  show ?case
  proof (cases "first = SCOPE_PERMISSIONS_UNSPECIFIED")
    case True
    have "(\<exists>x \<in> set (sp # sps). \<exists>y \<in> set (sp # sps). x \<noteq> y) \<longleftrightarrow> (\<exists>x \<in> set sps. x \<noteq> sp)" by auto
    then show ?thesis using True IH(1) by simp
  qed (use IH(2) in auto)
qed simp

lemma disagree_iff:
  assumes "tracker_inv t"
  shows "disagree (settingsOf t scope) \<longleftrightarrow> conflicting t scope"
proof -
  note wf = settingsOf_facts(1,2) [OF assms, of scope]
  have "disagree (settingsOf t scope) \<longleftrightarrow> (\<exists>x \<in> snd ` set (settingsOf t scope). \<exists>y \<in> snd ` set (settingsOf t scope). x \<noteq> y)"
    unfolding disagree_def using wf(2) by (subst disagreeFrom_iff) auto
  also have "\<dots> \<longleftrightarrow> conflicting t scope"
    unfolding conflicting_def settingAt_def gowf_in_set_iff [OF wf(1), symmetric] by force
  finally show ?thesis .
qed

lemma Conflicts_iff:
  assumes "tracker_inv t"
  shows "(\<exists>c \<in> set (tracker_Conflicts t). cf_Scope c = scope) \<longleftrightarrow> conflicting t scope"
proof -
  have wf: "gowf (tr_scopes t)" using tracker_invD(1) [OF assms] by (simp add: scopes_ok_def)
  have "(\<exists>c \<in> set (tracker_Conflicts t). cf_Scope c = scope) \<longleftrightarrow> (\<exists>s. (scope, s) \<in> set (tr_scopes t) \<and> disagree s)"
    by (force simp: tracker_Conflicts_def)
  also have "\<dots> \<longleftrightarrow> disagree (settingsOf t scope)"
    unfolding gowf_in_set_iff [OF wf] by (auto simp: settingsOf_def disagree_def split: option.split)
  finally show ?thesis using disagree_iff [OF assms] by simp
qed

lemma Check_None_iff:
  assumes "tracker_inv t" and "Constrained kind"
  shows "tracker_Check kind key scope sp ignored t = None \<longleftrightarrow>
    (\<forall>k s. settingAt t scope k = Some s \<longrightarrow> k = key \<or> k = ignored \<or> s = Normalise sp)"
  using assms(2) unfolding settingAt_def gowf_in_set_iff [OF settingsOf_facts(1) [OF assms(1)], symmetric]
  by (auto simp: tracker_Check_def Let_def filter_empty_conv)

section \<open>Properties\<close>

text \<open>C32 (refinement).  The tracker is a map from policies to their scope and last setting: \<^verbatim>\<open>Add\<close> replaces the entry of the
  policy, in whatever scope it was, and \<^verbatim>\<open>Remove\<close> deletes it; both keep the two internal maps consistent.\<close>

theorem tracker_implements_map:
  assumes "tracker_inv t"
  shows "tracker_inv NewTracker \<and> settingAt NewTracker sc k = None
    \<and> tracker_inv (tracker_Add kind key scope sp t) \<and> tracker_inv (tracker_Remove key t)
    \<and> settingAt (tracker_Add kind key scope sp t) sc k =
        (if Constrained kind \<and> k = key then (if sc = scope then Some (Normalise sp) else None) else settingAt t sc k)
    \<and> settingAt (tracker_Remove key t) sc k = (if k = key then None else settingAt t sc k)"
  using tracker_Add_facts [OF assms] tracker_Remove_facts [OF assms] tracker_inv_New
  by (simp add: settingAt_def settingsOf_def NewTracker_def)

theorem tracker_implements_map_witness:
  "settingAt (tracker_Add KIND_RESOURCE ''p'' ''acme'' SCOPE_PERMISSIONS_UNSPECIFIED NewTracker) ''acme'' ''p'' =
    Some SCOPE_PERMISSIONS_OVERRIDE_PARENT"
  using tracker_implements_map [OF tracker_inv_New, of "''acme''" "''p''" KIND_RESOURCE "''p''" "''acme''"]
  by (simp add: Constrained_def Normalise_def)



end

