(* ===== verification/RuleTable.thy ===== *)
theory RuleTable
  imports IndexUpdate ScopePerms
begin

text \<open>
  The rule table (\<^verbatim>\<open>internal/ruletable/ruletable.go\<close>): the translation of compiled policy sets into rule rows, the
  tables that are kept beside the index (schemas, metadata, parent roles, derived roles, scope maps and scope
  permissions), the two ways of building a table, the scope search and the migration of tables of an older compiler.
\<close>

section \<open>Messages\<close>

record Schemas =
  sch_PrincipalRef :: string
  sch_ResourceRef :: string

record RuleTableMetadata =
  md_Fqn :: string
  md_Name :: "RuleTableName option"
  md_Version :: string
  md_SourceAttributes :: "(string, string) gomap"
  md_Annotations :: "(string, string) gomap"

record RunnableDerivedRole =
  dr_Name :: string
  dr_ParentRoles :: "string list"
  dr_Condition :: "Condition option"
  dr_OrderedVariables :: "Variable list"
  dr_Constants :: vars
  dr_OriginFqn :: string

text \<open>The metadata of a resource or principal policy set (\<open>sm_Name\<close> is the resource or the principal).\<close>

record SetMetadata =
  sm_Fqn :: string
  sm_Name :: string
  sm_Version :: string
  sm_SourceAttributes :: "(string, string) gomap"
  sm_Annotations :: "(string, string) gomap"

record ResourceRule =
  ru_Name :: string
  ru_Actions :: "string list"
  ru_DerivedRoles :: "string list"
  ru_Roles :: "string list"
  ru_Condition :: "Condition option"
  ru_Effect :: Effect
  ru_Output :: "Expr option"
  ru_EmitOutput :: "Output option"

record ResourcePolicy =
  rsp_Scope :: string
  rsp_DerivedRoles :: "(string, RunnableDerivedRole) gomap"
  rsp_Rules :: "ResourceRule list"
  rsp_OrderedVariables :: "Variable list"
  rsp_ScopePermissions :: ScopePermissions
  rsp_Constants :: vars

record RunnableResourcePolicySet =
  rrps_Meta :: SetMetadata
  rrps_Policies :: "ResourcePolicy list"
  rrps_Schemas :: "Schemas option"

record ActionRule =
  ar_Action :: string
  ar_Name :: string
  ar_Condition :: "Condition option"
  ar_Effect :: Effect
  ar_Output :: "Expr option"
  ar_EmitOutput :: "Output option"

record PrincipalPolicy =
  prp_Scope :: string
  prp_ResourceRules :: "(string, ActionRule list) gomap"
  prp_OrderedVariables :: "Variable list"
  prp_ScopePermissions :: ScopePermissions
  prp_Constants :: vars

record RunnablePrincipalPolicySet =
  rpps_Meta :: SetMetadata
  rpps_Policies :: "PrincipalPolicy list"

record RoleRule =
  ror_AllowActions :: "string list"
  ror_Condition :: "Condition option"
  ror_Name :: string
  ror_EmitOutput :: "Output option"

record RunnableRolePolicySet =
  rop_Fqn :: string
  rop_Version :: string
  rop_SourceAttributes :: "(string, string) gomap"
  rop_Annotations :: "(string, string) gomap"
  rop_Role :: string
  rop_Scope :: string
  rop_ParentRoles :: "string list"
  rop_Resources :: "(string, RoleRule list) gomap"
  rop_OrderedVariables :: "Variable list"
  rop_Constants :: vars

datatype PolicySet = ResourceSet RunnableResourcePolicySet | PrincipalSet RunnablePrincipalPolicySet
  | RoleSet RunnableRolePolicySet

record RunnablePolicySet =
  rps_Fqn :: string
  rps_PolicySet :: "PolicySet option"

text \<open>The transport form of a rule table.\<close>

record ProtoRuleTable =
  pt_Rules :: "RuleRow list"
  pt_Schemas :: "(u64, Schemas) gomap"
  pt_Meta :: "(u64, RuleTableMetadata) gomap"
  pt_ScopeParentRoles :: ScopeParentRoles
  pt_PolicyDerivedRoles :: "(u64, (string, RunnableDerivedRole) gomap) gomap"
  pt_JsonSchemas :: "(string, string) gomap"
  pt_CompilerVersion :: u32

definition compilerVersion :: u32 where
  "compilerVersion = 2"

definition NewProtoRuletable :: ProtoRuleTable where
  "NewProtoRuletable = \<lparr>pt_Rules = [], pt_Schemas = [], pt_Meta = [], pt_ScopeParentRoles = [],
     pt_PolicyDerivedRoles = [], pt_JsonSchemas = [], pt_CompilerVersion = compilerVersion\<rparr>"

section \<open>From policy sets to rule rows\<close>

definition zeroRow :: RuleRow where
  "zeroRow = \<lparr>rr_OriginFqn = '''', rr_Resource = '''', rr_Role = '''', rr_ActionSet = NoActionSet, rr_Condition = None,
     rr_DerivedRoleCondition = None, rr_Effect = EFFECT_UNSPECIFIED, rr_Scope = '''',
     rr_ScopePermissions = SCOPE_PERMISSIONS_UNSPECIFIED, rr_Version = '''', rr_OriginDerivedRole = '''',
     rr_EmitOutput = None, rr_Name = '''', rr_Principal = '''', rr_Params = None, rr_DerivedRoleParams = None,
     rr_EvaluationKey = '''', rr_PolicyKind = KIND_UNSPECIFIED, rr_FromRolePolicy = False, rr_EvaluationKeyTuple = None\<rparr>"

definition emptyParams :: Params where
  "emptyParams = \<lparr>OrderedVariables = [], Constants = []\<rparr>"

definition defaultPermissions :: "ScopePermissions \<Rightarrow> ScopePermissions" where
  "defaultPermissions sp = (if sp = SCOPE_PERMISSIONS_UNSPECIFIED then SCOPE_PERMISSIONS_OVERRIDE_PARENT else sp)"

text \<open>The output of a rule, or the deprecated output expression.\<close>

definition ruleOutput :: "Output option \<Rightarrow> Expr option \<Rightarrow> Output option" where
  "ruleOutput emitOutput output =
     (case (emitOutput, output) of
        (None, Some e) \<Rightarrow> Some \<lparr>out_When = Some \<lparr>RuleActivated = Some e, ConditionNotMet = None\<rparr>\<rparr>
      | _ \<Rightarrow> emitOutput)"

text \<open>A conditional allow of a policy that requires parental consent becomes a denial under the negated condition.\<close>

definition requireConsent :: "ScopePermissions \<Rightarrow> RuleRow \<Rightarrow> RuleRow" where
  "requireConsent sp row =
     (case rr_Condition row of
        Some cond \<Rightarrow>
          if sp = SCOPE_PERMISSIONS_REQUIRE_PARENTAL_CONSENT_FOR_ALLOWS \<and> rr_Effect row = EFFECT_ALLOW
          then row\<lparr>rr_Condition := Some (Cond_None [cond]), rr_Effect := EFFECT_DENY\<rparr>
          else row
      | None \<Rightarrow> row)"

definition metaRuleFQN :: "RuleTableMetadata \<Rightarrow> string \<Rightarrow> string \<Rightarrow> string" where
  "metaRuleFQN md scope ruleName = RuleFQN (TableMeta (md_Name md) (md_Version md)) scope ruleName"

definition principalMeta :: "SetMetadata \<Rightarrow> RuleTableMetadata" where
  "principalMeta sm = \<lparr>md_Fqn = sm_Fqn sm, md_Name = Some (NamePrincipal (sm_Name sm)), md_Version = sm_Version sm,
     md_SourceAttributes = sm_SourceAttributes sm, md_Annotations = sm_Annotations sm\<rparr>"

definition principalRow :: "SetMetadata \<Rightarrow> PrincipalPolicy \<Rightarrow> string \<Rightarrow> ActionRule \<Rightarrow> RuleRow" where
  "principalRow sm p resource rule =
     (let principalID = sm_Name sm;
          ruleFqn = metaRuleFQN (principalMeta sm) (prp_Scope p) (ar_Name rule);
          evaluationKey = PrincipalPolicyFQN principalID (sm_Version sm) (prp_Scope p) @ ''#'' @ ruleFqn @ ''#'' @ resource;
          row = zeroRow\<lparr>rr_OriginFqn := sm_Fqn sm, rr_Resource := SanitizedResource resource, rr_Role := ''*'',
            rr_ActionSet := ActionSet_Action (ar_Action rule), rr_Condition := ar_Condition rule, rr_Effect := ar_Effect rule,
            rr_Scope := prp_Scope p, rr_ScopePermissions := defaultPermissions (prp_ScopePermissions p),
            rr_Version := sm_Version sm, rr_EmitOutput := ruleOutput (ar_EmitOutput rule) (ar_Output rule),
            rr_Name := ar_Name rule, rr_Principal := principalID,
            rr_Params := Some \<lparr>OrderedVariables = prp_OrderedVariables p, Constants = prp_Constants p\<rparr>,
            rr_EvaluationKey := evaluationKey,
            rr_EvaluationKeyTuple := Some (zeroEvaluationKey\<lparr>ek_Prefix := PrincipalPoliciesPrefix, ek_Resource := resource,
              ek_Principal := principalID, ek_Version := sm_Version sm, ek_Scope := prp_Scope p, ek_RuleName := ar_Name rule\<rparr>),
            rr_PolicyKind := KIND_PRINCIPAL\<rparr>
      in requireConsent (prp_ScopePermissions p) row)"

definition principalNoop :: "SetMetadata \<Rightarrow> PrincipalPolicy \<Rightarrow> RuleRow" where
  "principalNoop sm p =
     zeroRow\<lparr>rr_OriginFqn := sm_Fqn sm, rr_Scope := prp_Scope p, rr_ScopePermissions := defaultPermissions (prp_ScopePermissions p),
       rr_Version := sm_Version sm, rr_Principal := sm_Name sm, rr_PolicyKind := KIND_PRINCIPAL,
       rr_Params := Some emptyParams, rr_DerivedRoleParams := Some emptyParams\<rparr>"

text \<open>\<open>hashStr\<close> is the hash of a fully-qualified name.  The rows and the updated table.\<close>

definition addPrincipalPolicy :: "(string \<Rightarrow> u64) \<Rightarrow> RunnablePrincipalPolicySet \<Rightarrow> ProtoRuleTable \<Rightarrow> RuleRow list \<times> ProtoRuleTable" where
  "addPrincipalPolicy hashStr rpps rt =
     (case rpps_Policies rpps of
        [] \<Rightarrow> ([], rt)
      | p # _ \<Rightarrow>
          let sm = rpps_Meta rpps;
              moduleID = GenModuleIDFromFQN hashStr (sm_Fqn sm);
              rt = rt\<lparr>pt_Meta := AList.update (RawValue moduleID) (principalMeta sm) (pt_Meta rt)\<rparr>
          in ((if prp_ResourceRules p = [] then [principalNoop sm p] else [])
              @ concat (map (\<lambda>(resource, rules). map (principalRow sm p resource) rules) (prp_ResourceRules p)), rt))"

definition resourceMeta :: "SetMetadata \<Rightarrow> RuleTableMetadata" where
  "resourceMeta sm = \<lparr>md_Fqn = sm_Fqn sm, md_Name = Some (NameResource (SanitizedResource (sm_Name sm))), md_Version = sm_Version sm,
     md_SourceAttributes = sm_SourceAttributes sm, md_Annotations = sm_Annotations sm\<rparr>"

text \<open>What the rows of a resource rule have in common, then the row of a role and that of a parent role of a derived role.\<close>

definition resourceRowBase :: "SetMetadata \<Rightarrow> ResourcePolicy \<Rightarrow> ResourceRule \<Rightarrow> string \<Rightarrow> RuleRow" where
  "resourceRowBase sm p rule action =
     zeroRow\<lparr>rr_OriginFqn := sm_Fqn sm, rr_Resource := SanitizedResource (sm_Name sm), rr_ActionSet := ActionSet_Action action,
       rr_Condition := ru_Condition rule, rr_Effect := ru_Effect rule, rr_Scope := rsp_Scope p,
       rr_ScopePermissions := defaultPermissions (rsp_ScopePermissions p), rr_Version := sm_Version sm,
       rr_EmitOutput := ruleOutput (ru_EmitOutput rule) (ru_Output rule), rr_Name := ru_Name rule,
       rr_Params := Some \<lparr>OrderedVariables = rsp_OrderedVariables p, Constants = rsp_Constants p\<rparr>,
       rr_PolicyKind := KIND_RESOURCE\<rparr>"

definition resourceRow :: "SetMetadata \<Rightarrow> ResourcePolicy \<Rightarrow> ResourceRule \<Rightarrow> string \<Rightarrow> string \<Rightarrow> RuleRow" where
  "resourceRow sm p rule action role =
     (let sanitizedResource = SanitizedResource (sm_Name sm);
          ruleFqn = metaRuleFQN (resourceMeta sm) (rsp_Scope p) (ru_Name rule);
          row = (resourceRowBase sm p rule action)\<lparr>rr_Role := role,
            rr_EvaluationKey := ResourcePolicyFQN sanitizedResource (sm_Version sm) (rsp_Scope p) @ ''#'' @ ruleFqn,
            rr_EvaluationKeyTuple := Some (zeroEvaluationKey\<lparr>ek_Prefix := ResourcePoliciesPrefix, ek_Resource := sanitizedResource,
              ek_Version := sm_Version sm, ek_Scope := rsp_Scope p, ek_RuleName := ru_Name rule\<rparr>)\<rparr>
      in requireConsent (rsp_ScopePermissions p) row)"

definition derivedRoleRow :: "SetMetadata \<Rightarrow> ResourcePolicy \<Rightarrow> ResourceRule \<Rightarrow> string \<Rightarrow> string \<Rightarrow> RunnableDerivedRole \<Rightarrow> string \<Rightarrow> RuleRow" where
  "derivedRoleRow sm p rule action dr rdr role =
     (let sanitizedResource = SanitizedResource (sm_Name sm);
          ruleFqn = metaRuleFQN (resourceMeta sm) (rsp_Scope p) (ru_Name rule);
          row = (resourceRowBase sm p rule action)\<lparr>rr_Role := role, rr_DerivedRoleCondition := dr_Condition rdr,
            rr_OriginDerivedRole := dr,
            rr_DerivedRoleParams := Some \<lparr>OrderedVariables = dr_OrderedVariables rdr, Constants = dr_Constants rdr\<rparr>,
            rr_EvaluationKey := DerivedRolesFQN dr @ ''#'' @ ruleFqn,
            rr_EvaluationKeyTuple := Some (zeroEvaluationKey\<lparr>ek_Prefix := DerivedRolesPrefix, ek_Resource := sanitizedResource,
              ek_DerivedRole := dr, ek_Version := sm_Version sm, ek_Scope := rsp_Scope p, ek_RuleName := ru_Name rule\<rparr>)\<rparr>
      in requireConsent (rsp_ScopePermissions p) row)"

definition resourceRuleRows :: "SetMetadata \<Rightarrow> ResourcePolicy \<Rightarrow> ResourceRule \<Rightarrow> RuleRow list" where
  "resourceRuleRows sm p rule =
     concat (map (\<lambda>a.
         map (resourceRow sm p rule a) (ru_Roles rule)
         @ concat (map (\<lambda>dr. case map_of (rsp_DerivedRoles p) dr of
               None \<Rightarrow> []
             | Some rdr \<Rightarrow> map (derivedRoleRow sm p rule a dr rdr) (dr_ParentRoles rdr)) (ru_DerivedRoles rule)))
       (ru_Actions rule))"

definition resourceNoop :: "SetMetadata \<Rightarrow> ResourcePolicy \<Rightarrow> RuleRow" where
  "resourceNoop sm p =
     zeroRow\<lparr>rr_OriginFqn := sm_Fqn sm, rr_Resource := SanitizedResource (sm_Name sm), rr_Scope := rsp_Scope p,
       rr_ScopePermissions := defaultPermissions (rsp_ScopePermissions p), rr_Version := sm_Version sm,
       rr_PolicyKind := KIND_RESOURCE, rr_Params := Some emptyParams, rr_DerivedRoleParams := Some emptyParams\<rparr>"

definition addResourcePolicy :: "(string \<Rightarrow> u64) \<Rightarrow> RunnableResourcePolicySet \<Rightarrow> ProtoRuleTable \<Rightarrow> RuleRow list \<times> ProtoRuleTable" where
  "addResourcePolicy hashStr rrps rt =
     (case rrps_Policies rrps of
        [] \<Rightarrow> ([], rt)
      | p # _ \<Rightarrow>
          let sm = rrps_Meta rrps;
              k = RawValue (GenModuleIDFromFQN hashStr (sm_Fqn sm));
              rt = (case rrps_Schemas rrps of None \<Rightarrow> rt | Some s \<Rightarrow> rt\<lparr>pt_Schemas := AList.update k s (pt_Schemas rt)\<rparr>);
              rt = rt\<lparr>pt_Meta := AList.update k (resourceMeta sm) (pt_Meta rt)\<rparr>;
              rt = (if rsp_DerivedRoles p \<noteq> []
                    then rt\<lparr>pt_PolicyDerivedRoles := AList.update k (rsp_DerivedRoles p) (pt_PolicyDerivedRoles rt)\<rparr> else rt)
          in ((if rsp_Rules p = [] then [resourceNoop sm p] else []) @ concat (map (resourceRuleRows sm p) (rsp_Rules p)), rt))"

text \<open>\<^verbatim>\<open>fmt.Sprintf("%03d", n)\<close>.\<close>

fun decimal :: "nat \<Rightarrow> string" where
  "decimal n = (if n < 10 then [char_of (48 + n)] else decimal (n div 10) @ [char_of (48 + n mod 10)])"

declare decimal.simps [simp del]

definition pad3 :: "nat \<Rightarrow> string" where
  "pad3 n = (let d = decimal n in replicate (3 - length d) CHR ''0'' @ d)"

definition roleMeta :: "RunnableRolePolicySet \<Rightarrow> RuleTableMetadata" where
  "roleMeta p = \<lparr>md_Fqn = rop_Fqn p, md_Name = Some (NameRole (rop_Role p)), md_Version = rop_Version p,
     md_SourceAttributes = rop_SourceAttributes p, md_Annotations = rop_Annotations p\<rparr>"

definition rolePolicyRow :: "RunnableRolePolicySet \<Rightarrow> string \<Rightarrow> nat \<Rightarrow> RoleRule \<Rightarrow> RuleRow" where
  "rolePolicyRow p resource idx rule =
     zeroRow\<lparr>rr_OriginFqn := rop_Fqn p, rr_Role := rop_Role p, rr_Resource := resource,
       rr_ActionSet := ActionSet_AllowActions (ror_AllowActions rule), rr_Condition := ror_Condition rule,
       rr_EmitOutput := ror_EmitOutput rule, rr_Name := ror_Name rule, rr_Scope := rop_Scope p, rr_Version := rop_Version p,
       rr_Params := Some \<lparr>OrderedVariables = rop_OrderedVariables p, Constants = rop_Constants p\<rparr>,
       rr_EvaluationKey := PolicyKeyFromFQN (RolePolicyFQN (rop_Role p) (rop_Version p) (rop_Scope p)) @ ''#'' @ rop_Role p
         @ ''_'' @ resource @ ''_rule-'' @ pad3 idx,
       rr_EvaluationKeyTuple := Some (zeroEvaluationKey\<lparr>ek_Prefix := RolePoliciesPrefix, ek_Resource := resource,
         ek_Role := rop_Role p, ek_Version := rop_Version p, ek_Scope := rop_Scope p, ek_RuleID := of_nat idx\<rparr>),
       rr_PolicyKind := KIND_RESOURCE, rr_FromRolePolicy := True\<rparr>"

text \<open>A nil message under the scope, which no policy set leaves behind, is treated as an empty one.\<close>

definition setParentRoles :: "string \<Rightarrow> string \<Rightarrow> string list \<Rightarrow> ScopeParentRoles \<Rightarrow> ScopeParentRoles" where
  "setParentRoles scope role parents spr =
     (let m = (case map_of spr scope of Some (Some m) \<Rightarrow> m | _ \<Rightarrow> [])
      in AList.update scope (Some (AList.update role parents m)) spr)"

definition addRolePolicy :: "(string \<Rightarrow> u64) \<Rightarrow> RunnableRolePolicySet \<Rightarrow> ProtoRuleTable \<Rightarrow> RuleRow list \<times> ProtoRuleTable" where
  "addRolePolicy hashStr p rt =
     (let moduleID = GenModuleIDFromFQN hashStr (rop_Fqn p)
      in (concat (map (\<lambda>(resource, rules). map (\<lambda>(idx, rule). rolePolicyRow p resource idx rule) (enumerate 0 rules)) (rop_Resources p)),
          rt\<lparr>pt_Meta := AList.update (RawValue moduleID) (roleMeta p) (pt_Meta rt),
             pt_ScopeParentRoles := setParentRoles (rop_Scope p) (rop_Role p) (rop_ParentRoles p) (pt_ScopeParentRoles rt)\<rparr>))"

definition AddPolicy :: "(string \<Rightarrow> u64) \<Rightarrow> RunnablePolicySet \<Rightarrow> ProtoRuleTable \<Rightarrow> RuleRow list \<times> ProtoRuleTable" where
  "AddPolicy hashStr rps rt =
     (case rps_PolicySet rps of
        Some (ResourceSet s) \<Rightarrow> addResourcePolicy hashStr s rt
      | Some (RoleSet s) \<Rightarrow> addRolePolicy hashStr s rt
      | Some (PrincipalSet s) \<Rightarrow> addPrincipalPolicy hashStr s rt
      | None \<Rightarrow> ([], rt))"

section \<open>Loading policies\<close>

text \<open>A loader yields compiled policy sets or an error (\<open>None\<close>); \<^verbatim>\<open>GetAll\<close> fails as a whole.\<close>

definition LoadPolicies :: "(string \<Rightarrow> u64) \<Rightarrow> RunnablePolicySet list option \<Rightarrow> ProtoRuleTable \<Rightarrow> ProtoRuleTable option" where
  "LoadPolicies hashStr loaded rt =
     map_option (\<lambda>rps.
       let (m, rt) = fold (\<lambda>p (m, rt). let (rules, rt) = AddPolicy hashStr p rt in (m @ [rules], rt)) rps ([], rt)
       in rt\<lparr>pt_Rules := concat m\<rparr>) loaded"

text \<open>The streaming loaders take a sequence of results: an error stops them, a nil set is skipped.  \<open>onRow\<close> may fail and
  works on a state of its own.\<close>

datatype 'a Yield = YieldErr | YieldNil | Yield 'a

fun onRows :: "(RuleRow \<Rightarrow> 's \<Rightarrow> 's option) \<Rightarrow> RuleRow list \<Rightarrow> 's \<Rightarrow> 's option" where
  "onRows onRow [] s = Some s"
| "onRows onRow (row # rest) s = (case onRow row s of None \<Rightarrow> None | Some s \<Rightarrow> onRows onRow rest s)"

fun LoadPoliciesIterFunc :: "(string \<Rightarrow> u64) \<Rightarrow> (RuleRow \<Rightarrow> 's \<Rightarrow> 's option) \<Rightarrow> RunnablePolicySet Yield list
    \<Rightarrow> ProtoRuleTable \<times> 's \<Rightarrow> (ProtoRuleTable \<times> 's) option" where
  "LoadPoliciesIterFunc hashStr onRow [] (rt, s) = Some (rt, s)"
| "LoadPoliciesIterFunc hashStr onRow (YieldErr # ys) (rt, s) = None"
| "LoadPoliciesIterFunc hashStr onRow (YieldNil # ys) (rt, s) = LoadPoliciesIterFunc hashStr onRow ys (rt, s)"
| "LoadPoliciesIterFunc hashStr onRow (Yield rps # ys) (rt, s) =
     (let (rows, rt) = AddPolicy hashStr rps rt
      in case onRows onRow rows s of None \<Rightarrow> None | Some s \<Rightarrow> LoadPoliciesIterFunc hashStr onRow ys (rt, s))"

definition LoadPoliciesIter :: "(string \<Rightarrow> u64) \<Rightarrow> RunnablePolicySet Yield list \<Rightarrow> ProtoRuleTable \<Rightarrow> ProtoRuleTable option" where
  "LoadPoliciesIter hashStr ys rt =
     map_option (\<lambda>(rt, rules). rt\<lparr>pt_Rules := rules\<rparr>)
       (LoadPoliciesIterFunc hashStr (\<lambda>row rules. Some (rules @ [row])) ys (rt, pt_Rules rt))"

text \<open>\<open>resolver\<close> reads a schema (\<open>None\<close>: an error); the table keeps the schemas read before the error.\<close>

fun readSchemas :: "(string \<Rightarrow> string option) \<Rightarrow> string list \<Rightarrow> (string, string) gomap \<Rightarrow> bool \<times> (string, string) gomap" where
  "readSchemas resolver [] js = (True, js)"
| "readSchemas resolver (r # rs) js =
     (if r = '''' then readSchemas resolver rs js
      else case resolver r of None \<Rightarrow> (False, js) | Some content \<Rightarrow> readSchemas resolver rs (AList.update r content js))"

definition buildRawSchemas :: "(string \<Rightarrow> string option) \<Rightarrow> ProtoRuleTable \<Rightarrow> bool \<times> ProtoRuleTable" where
  "buildRawSchemas resolver rt =
     (let refs = concat (map (\<lambda>(_, s). [sch_PrincipalRef s, sch_ResourceRef s]) (pt_Schemas rt));
          (ok, js) = readSchemas resolver refs (pt_JsonSchemas rt)
      in (ok, rt\<lparr>pt_JsonSchemas := js\<rparr>))"

definition LoadSchemas :: "(string \<Rightarrow> string option) \<Rightarrow> ProtoRuleTable \<Rightarrow> bool \<times> ProtoRuleTable" where
  "LoadSchemas resolver rt = buildRawSchemas resolver rt"

section \<open>The rule table\<close>

record WrappedRunnableDerivedRole =
  wdr_Role :: RunnableDerivedRole
  wdr_Constants :: vars
  wdr_VarCacheKey :: u64

text \<open>Programs are compiled from the source of an expression; \<open>compileFromSource\<close> is the CEL compiler, which returns a program
  or an error message (\<open>Inl\<close>).\<close>

type_synonym ProgramCache = "(string, string) gomap"

definition GetOrCreate :: "(string \<Rightarrow> string + string) \<Rightarrow> Expr \<Rightarrow> ProgramCache \<Rightarrow> (string + string) \<times> ProgramCache" where
  "GetOrCreate compileFromSource expr c =
     (case map_of c (ex_Original expr) of
        Some prg \<Rightarrow> (Inr prg, c)
      | None \<Rightarrow> (case compileFromSource (ex_Original expr) of
            Inl err \<Rightarrow> (Inl err, c)
          | Inr prg \<Rightarrow> (Inr prg, AList.update (ex_Original expr) prg c)))"

definition ProgramCache_Clear :: "ProgramCache \<Rightarrow> ProgramCache" where
  "ProgramCache_Clear c = []"

record RuleTable =
  rt_proto :: ProtoRuleTable
  rt_idx :: Index
  rt_principalScopeMap :: "string list"
  rt_resourceScopeMap :: "string list"
  rt_scopePermsTracker :: Tracker
  rt_scopeScopePermissions :: "(string, ScopePermissions) gomap"
  rt_policyDerivedRoles :: "(ModuleID, (string, WrappedRunnableDerivedRole) gomap) gomap"
  rt_programCache :: ProgramCache

text \<open>The code the rule table calls outside the repository: what the index needs, the hash of a name and the hash of a
  derived role.\<close>

record World =
  w_ext :: Ext
  w_hashStr :: "string \<Rightarrow> u64"
  w_hashDerivedRole :: "RunnableDerivedRole \<Rightarrow> u64"

definition initBuildState :: "RuleTable \<Rightarrow> RuleTable" where
  "initBuildState rt = rt\<lparr>rt_policyDerivedRoles := [], rt_principalScopeMap := [], rt_resourceScopeMap := [],
     rt_scopePermsTracker := NewTracker, rt_scopeScopePermissions := []\<rparr>"

definition wrapDerivedRole :: "World \<Rightarrow> RunnableDerivedRole \<Rightarrow> WrappedRunnableDerivedRole" where
  "wrapDerivedRole W dr = \<lparr>wdr_Role = dr, wdr_Constants = dr_Constants dr, wdr_VarCacheKey = w_hashDerivedRole W dr\<rparr>"

definition installDerivedRoles :: "World \<Rightarrow> RuleRow \<Rightarrow> RuleTable \<Rightarrow> RuleTable" where
  "installDerivedRoles W rule rt =
     (if rr_PolicyKind rule = KIND_RESOURCE \<and> \<not> rr_FromRolePolicy rule
      then let modID = GenModuleIDFromFQN (w_hashStr W) (rr_OriginFqn rule)
        in case map_of (pt_PolicyDerivedRoles (rt_proto rt)) (RawValue modID) of
             None \<Rightarrow> rt
           | Some pdr \<Rightarrow>
               let old = (case map_of (rt_policyDerivedRoles rt) modID of None \<Rightarrow> [] | Some m \<Rightarrow> m);
                   new = fold (\<lambda>(n, dr) m. AList.update n (wrapDerivedRole W dr) m) pdr old
               in rt\<lparr>rt_policyDerivedRoles := AList.update modID new (rt_policyDerivedRoles rt)\<rparr>
      else rt)"

definition trackScopePermissions :: "RuleRow \<Rightarrow> RuleTable \<Rightarrow> RuleTable" where
  "trackScopePermissions rule rt =
     (if \<not> rr_FromRolePolicy rule
      then rt\<lparr>rt_scopePermsTracker := tracker_Add (rr_PolicyKind rule) (PolicyKeyFromFQN (rr_OriginFqn rule)) (rr_Scope rule)
                 (rr_ScopePermissions rule) (rt_scopePermsTracker rt),
              rt_scopeScopePermissions := AList.update (rr_Scope rule) (Normalise (rr_ScopePermissions rule)) (rt_scopeScopePermissions rt)\<rparr>
      else rt)"

definition addScope :: "RuleRow \<Rightarrow> RuleTable \<Rightarrow> RuleTable" where
  "addScope rule rt =
     (if rr_PolicyKind rule = KIND_PRINCIPAL then rt\<lparr>rt_principalScopeMap := set_add (rr_Scope rule) (rt_principalScopeMap rt)\<rparr>
      else if rr_PolicyKind rule = KIND_RESOURCE then rt\<lparr>rt_resourceScopeMap := set_add (rr_Scope rule) (rt_resourceScopeMap rt)\<rparr>
      else rt)"

definition registerRow :: "World \<Rightarrow> RuleRow \<Rightarrow> RuleTable \<Rightarrow> RuleTable" where
  "registerRow W rule rt = addScope rule (trackScopePermissions rule (installDerivedRoles W rule rt))"

text \<open>Whether there was no error, and the table after the call.\<close>

definition indexRules :: "World \<Rightarrow> RuleRow list \<Rightarrow> RuleTable \<Rightarrow> bool \<times> RuleTable" where
  "indexRules W rules rt =
     (let rt = fold (registerRow W) rules rt;
          (ok, idx) = IndexRules (w_ext W) rules (rt_idx rt)
      in if ok then (True, rt\<lparr>rt_idx := IndexParentRoles (pt_ScopeParentRoles (rt_proto rt)) idx\<rparr>)
         else (False, rt\<lparr>rt_idx := idx\<rparr>))"

text \<open>A nil policy set is \<open>None\<close>.\<close>

definition ingestPolicy :: "World \<Rightarrow> RunnablePolicySet option \<Rightarrow> RuleTable \<Rightarrow> bool \<times> RuleTable" where
  "ingestPolicy W rps rt =
     (case rps of
        None \<Rightarrow> (True, rt)
      | Some rps \<Rightarrow>
          let (rows, proto) = AddPolicy (w_hashStr W) rps (rt_proto rt)
          in indexRules W rows (rt\<lparr>rt_proto := proto\<rparr>))"

text \<open>The release of checked expressions and the sharing of equal strings change no value of the model.\<close>

definition finalizeBuild :: "RuleTable \<Rightarrow> RuleTable" where
  "finalizeBuild rt = rt\<lparr>rt_proto := (rt_proto rt)\<lparr>pt_Rules := [], pt_PolicyDerivedRoles := []\<rparr>, rt_idx := Compact (rt_idx rt)\<rparr>"

definition emptyRuleTable :: "ProtoRuleTable \<Rightarrow> RuleTable" where
  "emptyRuleTable proto = \<lparr>rt_proto = proto, rt_idx = New, rt_principalScopeMap = [], rt_resourceScopeMap = [],
     rt_scopePermsTracker = NewTracker, rt_scopeScopePermissions = [], rt_policyDerivedRoles = [], rt_programCache = []\<rparr>"

text \<open>An incremental build: \<open>None\<close> is an error of the loader, of indexing, or conflicting scope permissions.\<close>

fun ingestAll :: "World \<Rightarrow> RunnablePolicySet Yield list \<Rightarrow> RuleTable \<Rightarrow> RuleTable option" where
  "ingestAll W [] rt = Some rt"
| "ingestAll W (YieldErr # ys) rt = None"
| "ingestAll W (YieldNil # ys) rt = ingestAll W ys rt"
| "ingestAll W (Yield rps # ys) rt = (case ingestPolicy W (Some rps) rt of (False, _) \<Rightarrow> None | (True, rt) \<Rightarrow> ingestAll W ys rt)"

definition newRuleTableFromIterableLoader :: "World \<Rightarrow> RunnablePolicySet Yield list \<Rightarrow> RuleTable option" where
  "newRuleTableFromIterableLoader W ys =
     Option.bind (ingestAll W ys (initBuildState (emptyRuleTable NewProtoRuletable))) (\<lambda>rt.
       if tracker_Err (rt_scopePermsTracker rt) \<noteq> None then None else Some (finalizeBuild rt))"

section \<open>Migration of compiled tables\<close>

text \<open>\<^verbatim>\<open>strings.LastIndex\<close>.\<close>

definition lastIndex :: "string \<Rightarrow> string \<Rightarrow> nat option" where
  "lastIndex s substr =
     (case filter (\<lambda>i. take (length substr) (drop i s) = substr) (rev [0..<Suc (length s)]) of [] \<Rightarrow> None | i # _ \<Rightarrow> Some i)"

definition migrateRow1To2 :: "RuleRow \<Rightarrow> RuleRow" where
  "migrateRow1To2 row =
     (if rr_FromRolePolicy row \<or> rr_PolicyKind row = KIND_PRINCIPAL
      then let key = rr_EvaluationKey row;
               row = (if rr_FromRolePolicy row
                      then (case lastIndex key ''_rule-'' of
                              None \<Rightarrow> row
                            | Some i \<Rightarrow> row\<lparr>rr_EvaluationKey := take i key @ ''_'' @ rr_Resource row @ drop i key\<rparr>)
                      else if key \<noteq> '''' then row\<lparr>rr_EvaluationKey := key @ ''#'' @ rr_Resource row\<rparr> else row)
        in row\<lparr>rr_EvaluationKeyTuple := map_option (\<lambda>t. t\<lparr>ek_Resource := rr_Resource row\<rparr>) (rr_EvaluationKeyTuple row)\<rparr>
      else row)"

definition migrateFromCompilerVersion1To2 :: "ProtoRuleTable \<Rightarrow> ProtoRuleTable" where
  "migrateFromCompilerVersion1To2 rt = rt\<lparr>pt_Rules := map migrateRow1To2 (pt_Rules rt)\<rparr>"

text \<open>The first migration rewrites the type of a variable in checked expressions only.\<close>

definition migrateFromCompilerVersion0To1 :: "ProtoRuleTable \<Rightarrow> ProtoRuleTable" where
  "migrateFromCompilerVersion0To1 rt = rt"

definition migrate :: "ProtoRuleTable \<Rightarrow> ProtoRuleTable" where
  "migrate rt =
     (if pt_CompilerVersion rt = compilerVersion then rt
      else if pt_CompilerVersion rt > compilerVersion then rt
      else fold (\<lambda>version rt. ([migrateFromCompilerVersion0To1, migrateFromCompilerVersion1To2] ! version) rt)
             [unat (pt_CompilerVersion rt)..<unat compilerVersion] rt)"

section \<open>Building a table\<close>

definition init :: "World \<Rightarrow> ProtoRuleTable \<Rightarrow> RuleTable \<Rightarrow> bool \<times> RuleTable" where
  "init W protoRT rt =
     (let rt = initBuildState (rt\<lparr>rt_proto := migrate protoRT\<rparr>);
          (ok, rt) = indexRules W (pt_Rules (rt_proto rt)) rt
      in if \<not> ok then (False, rt)
         else if tracker_Err (rt_scopePermsTracker rt) \<noteq> None then (False, rt)
         else (True, finalizeBuild rt))"

definition NewRuleTable :: "World \<Rightarrow> ProtoRuleTable \<Rightarrow> RuleTable option" where
  "NewRuleTable W protoRT = (case init W protoRT (emptyRuleTable NewProtoRuletable) of (False, _) \<Rightarrow> None | (True, rt) \<Rightarrow> Some rt)"

text \<open>A policy loader either streams compiled sets or returns them all.\<close>

datatype PolicyLoader = IterableLoader "RunnablePolicySet Yield list" | PlainLoader "RunnablePolicySet list option"

definition NewRuleTableFromLoader :: "World \<Rightarrow> PolicyLoader \<Rightarrow> RuleTable option" where
  "NewRuleTableFromLoader W pl =
     (case pl of
        IterableLoader ys \<Rightarrow> newRuleTableFromIterableLoader W ys
      | PlainLoader loaded \<Rightarrow> Option.bind (LoadPolicies (w_hashStr W) loaded NewProtoRuletable) (NewRuleTable W))"

section \<open>Lookups\<close>

definition rt_GetAllRows :: "RuleTable \<Rightarrow> BindingHandle list" where
  "rt_GetAllRows rt = GetAllRows (rt_idx rt)"

definition rt_EvalKey :: "RuleTable \<Rightarrow> u32 \<Rightarrow> EvaluationKeyTuple" where
  "rt_EvalKey rt bid = EvalKey (rt_idx rt) bid"

definition GetDerivedRoles :: "World \<Rightarrow> RuleTable \<Rightarrow> string \<Rightarrow> (string, WrappedRunnableDerivedRole) gomap option" where
  "GetDerivedRoles W rt fqn = map_of (rt_policyDerivedRoles rt) (GenModuleIDFromFQN (w_hashStr W) fqn)"

definition GetSchema :: "World \<Rightarrow> RuleTable \<Rightarrow> string \<Rightarrow> Schemas option" where
  "GetSchema W rt fqn = map_of (pt_Schemas (rt_proto rt)) (RawValue (GenModuleIDFromFQN (w_hashStr W) fqn))"

definition GetMeta :: "World \<Rightarrow> RuleTable \<Rightarrow> string \<Rightarrow> RuleTableMetadata option" where
  "GetMeta W rt fqn = map_of (pt_Meta (rt_proto rt)) (RawValue (GenModuleIDFromFQN (w_hashStr W) fqn))"

definition GetScopeScopePermissions :: "RuleTable \<Rightarrow> string \<Rightarrow> ScopePermissions" where
  "GetScopeScopePermissions rt scope =
     (case map_of (rt_scopeScopePermissions rt) scope of None \<Rightarrow> SCOPE_PERMISSIONS_UNSPECIFIED | Some sp \<Rightarrow> sp)"

text \<open>The scope map and the naming function of a policy kind.\<close>

definition scopeMapOf :: "RuleTable \<Rightarrow> Kind \<Rightarrow> string list" where
  "scopeMapOf rt pt = (if pt = KIND_PRINCIPAL then rt_principalScopeMap rt else if pt = KIND_RESOURCE then rt_resourceScopeMap rt else [])"

definition fqnFn :: "Kind \<Rightarrow> string \<Rightarrow> string \<Rightarrow> string \<Rightarrow> string" where
  "fqnFn pt name version scope = (if pt = KIND_PRINCIPAL then PrincipalPolicyFQN name version scope else ResourcePolicyFQN name version scope)"

text \<open>The scopes, nearest first, the policy key and the name of the first policy.\<close>

definition GetAllScopes :: "RuleTable \<Rightarrow> Kind \<Rightarrow> string \<Rightarrow> string \<Rightarrow> string \<Rightarrow> bool \<Rightarrow> string list \<times> string \<times> string" where
  "GetAllScopes rt pt scope name version lenient =
     (let scopeMap = scopeMapOf rt pt;
          found = (\<lambda>s (scopes, key, fqn). if s \<in> set scopeMap
            then (scopes @ [s], if key = '''' then (PolicyKeyFromFQN (fqnFn pt name version s), fqnFn pt name version s) else (key, fqn))
            else (scopes, key, fqn))
      in if scope \<notin> set scopeMap \<and> \<not> lenient then ([], '''', '''')
         else fold found (ScopeParents scope)
                (if scope \<in> set scopeMap
                 then ([scope], PolicyKeyFromFQN (fqnFn pt name version scope), fqnFn pt name version scope)
                 else ([], '''', '''')))"

text \<open>The error that adding a policy set would cause, if any.\<close>

definition checkScopePermissions :: "RuleTable \<Rightarrow> RunnablePolicySet \<Rightarrow> string \<Rightarrow> Conflict option" where
  "checkScopePermissions rt rps ignoredPolicyKey =
     (let check = (\<lambda>kind scope sp.
            tracker_Check kind (PolicyKeyFromFQN (rps_Fqn rps)) scope sp ignoredPolicyKey (rt_scopePermsTracker rt))
      in case rps_PolicySet rps of
           Some (ResourceSet s) \<Rightarrow> (case rrps_Policies s of [] \<Rightarrow> None | p # _ \<Rightarrow> check KIND_RESOURCE (rsp_Scope p) (rsp_ScopePermissions p))
         | Some (PrincipalSet s) \<Rightarrow> (case rpps_Policies s of [] \<Rightarrow> None | p # _ \<Rightarrow> check KIND_PRINCIPAL (prp_Scope p) (prp_ScopePermissions p))
         | _ \<Rightarrow> None)"

section \<open>Combining scopes\<close>

text \<open>\<^verbatim>\<open>strings.Split(scope, ".")\<close>.\<close>

fun splitDots :: "string \<Rightarrow> string list" where
  "splitDots [] = ['''']"
| "splitDots (c # cs) = (if c = CHR ''.'' then '''' # splitDots cs else (case splitDots cs of [] \<Rightarrow> [[c]] | part # parts \<Rightarrow> (c # part) # parts))"

datatype scopeNode = ScopeNode (node_scope: string) (node_children: "(string \<times> scopeNode) list")

fun insertParts :: "string list \<Rightarrow> string list \<Rightarrow> scopeNode \<Rightarrow> scopeNode" where
  "insertParts path [] n = n"
| "insertParts path (part # parts) (ScopeNode s children) =
     (let child = (case map_of children part of None \<Rightarrow> ScopeNode (joinDots (path @ [part])) [] | Some c \<Rightarrow> c)
      in ScopeNode s (AList.update part (insertParts (path @ [part]) parts child) children))"

fun dfs :: "string list \<Rightarrow> scopeNode \<Rightarrow> string list" where
  "dfs uniqueScopes (ScopeNode s children) =
     concat (map (\<lambda>c. dfs uniqueScopes (snd c)) children) @ (if s \<in> set uniqueScopes then [s] else [])"

definition CombineScopes :: "string list \<Rightarrow> string list \<Rightarrow> string list" where
  "CombineScopes principalScopes resourceScopes =
     (let uniqueScopes = fold set_add resourceScopes (fold set_add principalScopes []);
          root = fold (\<lambda>scope root. if scope = '''' then root else insertParts [] (splitDots scope) root) uniqueScopes (ScopeNode '''' [])
      in dfs uniqueScopes root)"

section \<open>Pacing the garbage collector\<close>

text \<open>Builds may nest or run concurrently: each lowers the collector's percentage when it starts and the last one to end
  restores it.  \<open>gc_percent\<close> is the setting of the runtime.\<close>

record GCState =
  gc_depth :: int
  gc_prev :: int
  gc_percent :: int

definition pacingOff :: "int \<Rightarrow> bool" where
  "pacingOff target \<longleftrightarrow> target > 100 \<or> target < 1"

definition paceBuildGC :: "int \<Rightarrow> GCState \<Rightarrow> GCState" where
  "paceBuildGC target s =
     (if pacingOff target then s
      else let s = (if gc_depth s = 0 then s\<lparr>gc_prev := gc_percent s, gc_percent := target\<rparr> else s)
        in s\<lparr>gc_depth := gc_depth s + 1\<rparr>)"

definition restoreGC :: "int \<Rightarrow> GCState \<Rightarrow> GCState" where
  "restoreGC target s =
     (if pacingOff target then s
      else let s = s\<lparr>gc_depth := gc_depth s - 1\<rparr>
        in if gc_depth s = 0 then s\<lparr>gc_percent := gc_prev s\<rparr> else s)"

end
