(* ===== verification/TableBuild.thy ===== *)
theory TableBuild
  imports RuleTable
begin

text \<open>
  What the rule table promises: the rows of a policy set, the scope search, the agreement of the streaming and the batch
  build, the migration of old tables, and the restoration of the collector's setting after a build.
\<close>

section \<open>The scope search\<close>

lemma PolicyKeyFromFQN_nonempty: "PolicyKeyFromFQN (fqnFn pt name version scope) \<noteq> ''''"
  by (simp add: fqnFn_def PolicyKeyFromFQN_def trimPrefix_def PrincipalPolicyFQN_def ResourcePolicyFQN_def withScope_def prefix_defs)

text \<open>C23 (functional).  The scope search returns, nearest first, the scopes among the requested one and its ancestors that have
  a policy of the kind, with the key and the name of the policy of the first one; a strict search finds nothing when the
  requested scope itself has no policy.\<close>

theorem scope_search_exact:
  "GetAllScopes rt pt scope name version lenient =
     (let found = (if lenient \<or> scope \<in> set (scopeMapOf rt pt)
                   then filter (\<lambda>s. s \<in> set (scopeMapOf rt pt)) (scope # ScopeParents scope) else [])
      in (found, case found of
            [] \<Rightarrow> ('''', '''')
          | s # _ \<Rightarrow> (PolicyKeyFromFQN (fqnFn pt name version s), fqnFn pt name version s)))"
proof -
  let ?M = "set (scopeMapOf rt pt)" and ?k = "\<lambda>s. PolicyKeyFromFQN (fqnFn pt name version s)"
  let ?f = "\<lambda>s (scopes, key, fqn). if s \<in> ?M
    then (scopes @ [s], if key = '''' then (?k s, fqnFn pt name version s) else (key, fqn)) else (scopes, key, fqn)"
  have later: "fold ?f xs (ss, k, f) = (ss @ filter (\<lambda>s. s \<in> ?M) xs, k, f)" if "k \<noteq> ''''" for xs ss k f
    using that by (induction xs arbitrary: ss) auto
  have first: "fold ?f xs ([], '''', '''') = (filter (\<lambda>s. s \<in> ?M) xs, case filter (\<lambda>s. s \<in> ?M) xs of
      [] \<Rightarrow> ('''', '''') | s # _ \<Rightarrow> (?k s, fqnFn pt name version s))" for xs
    by (induction xs) (auto simp: later PolicyKeyFromFQN_nonempty)
  show ?thesis
    unfolding GetAllScopes_def Let_def by (auto simp: first later PolicyKeyFromFQN_nonempty)
qed

section \<open>Migration\<close>

lemma decimal_no_underscore: "CHR ''_'' \<notin> set (decimal n)"
proof (induction n rule: decimal.induct)
  case (1 n)
  have digit: "CHR ''_'' \<noteq> char_of (48 + k)" if "k < 10" for k :: nat
  proof
    assume "CHR ''_'' = char_of (48 + k)"
    then have "of_char (char_of (48 + k) :: char) = (of_char CHR ''_'' :: nat)" by simp
    then show False using that by simp
  qed
  show ?case
    using 1 digit [of n] digit [of "n mod 10"] by (subst decimal.simps) simp
qed

lemma pad3_no_underscore: "CHR ''_'' \<notin> set (pad3 n)"
  using decimal_no_underscore by (simp add: pad3_def Let_def)

lemma lastIndex_suffix:
  assumes "CHR ''_'' \<notin> set d"
  shows "lastIndex (a @ ''_rule-'' @ d) ''_rule-'' = Some (length a)"
proof -
  let ?s = "a @ ''_rule-'' @ d" and ?P = "\<lambda>i. take 6 (drop i (a @ ''_rule-'' @ d)) = ''_rule-''"
  have after: "\<not> ?P i" if "length a < i" "i \<le> length ?s" for i
  proof
    assume "?P i"
    then have "CHR ''_'' \<in> set (drop i ?s)" by (metis in_set_takeD list.set_intros(1))
    moreover have "drop i ?s = drop (i - length a - 1) (''rule-'' @ d)"
      using that(1) by (simp add: drop_Cons' flip: append_Cons)
    ultimately have "CHR ''_'' \<in> set (''rule-'' @ d)" by (metis in_set_dropD)
    then show False using assms by simp
  qed
  have at: "?P (length a)" by simp
  have split: "rev [0..<Suc (length ?s)] = rev [Suc (length a)..<Suc (length ?s)] @ length a # rev [0..<length a]"
  proof -
    have "[0..<Suc (length ?s)] = [0..<length a] @ [length a..<Suc (length ?s)]"
    proof -
      have "Suc (length ?s) = length a + (7 + length d)" by simp
      then show ?thesis by (metis le0 upt_add_eq_append)
    qed
    moreover have "[length a..<Suc (length ?s)] = length a # [Suc (length a)..<Suc (length ?s)]"
      by (rule upt_conv_Cons) simp
    ultimately show ?thesis by (simp del: upt_Suc)
  qed
  have none: "filter ?P (rev [Suc (length a)..<Suc (length ?s)]) = []"
    using after by (auto simp: filter_empty_conv simp del: upt_Suc)
  have "filter ?P (rev [0..<Suc (length ?s)]) = length a # filter ?P (rev [0..<length a])"
    unfolding split filter_append none using at by simp
  moreover have "length ''_rule-'' = 6" by simp
  ultimately show ?thesis unfolding lastIndex_def by (simp only: list.case)
qed

text \<open>The rows of a version-1 table, whose evaluation keys lack the resource.\<close>

definition rolePolicyRowV1 :: "RunnableRolePolicySet \<Rightarrow> string \<Rightarrow> nat \<Rightarrow> RoleRule \<Rightarrow> RuleRow" where
  "rolePolicyRowV1 p resource idx rule = (rolePolicyRow p resource idx rule)\<lparr>
     rr_EvaluationKey := PolicyKeyFromFQN (RolePolicyFQN (rop_Role p) (rop_Version p) (rop_Scope p)) @ ''#'' @ rop_Role p @ ''_rule-'' @ pad3 idx,
     rr_EvaluationKeyTuple := map_option (\<lambda>t. t\<lparr>ek_Resource := ''''\<rparr>) (rr_EvaluationKeyTuple (rolePolicyRow p resource idx rule))\<rparr>"

definition principalRowV1 :: "SetMetadata \<Rightarrow> PrincipalPolicy \<Rightarrow> string \<Rightarrow> ActionRule \<Rightarrow> RuleRow" where
  "principalRowV1 sm p resource rule = (principalRow sm p resource rule)\<lparr>
     rr_EvaluationKey := PrincipalPolicyFQN (sm_Name sm) (sm_Version sm) (prp_Scope p) @ ''#''
       @ metaRuleFQN (principalMeta sm) (prp_Scope p) (ar_Name rule),
     rr_EvaluationKeyTuple := map_option (\<lambda>t. t\<lparr>ek_Resource := ''''\<rparr>) (rr_EvaluationKeyTuple (principalRow sm p resource rule))\<rparr>"

lemma migrate_role_row: "migrateRow1To2 (rolePolicyRowV1 p resource idx rule) = rolePolicyRow p resource idx rule"
proof -
  let ?a = "PolicyKeyFromFQN (RolePolicyFQN (rop_Role p) (rop_Version p) (rop_Scope p)) @ ''#'' @ rop_Role p"
  have "lastIndex (?a @ ''_rule-'' @ pad3 idx) ''_rule-'' = Some (length ?a)"
    by (rule lastIndex_suffix) (rule pad3_no_underscore)
  then show ?thesis
    by (simp add: migrateRow1To2_def rolePolicyRowV1_def rolePolicyRow_def zeroRow_def zeroEvaluationKey_def Let_def)
qed


definition exampleMeta :: SetMetadata where
  "exampleMeta = \<lparr>sm_Fqn = ''f'', sm_Name = ''john'', sm_Version = ''v'', sm_SourceAttributes = [], sm_Annotations = []\<rparr>"

definition examplePrincipalPolicy :: PrincipalPolicy where
  "examplePrincipalPolicy = \<lparr>prp_Scope = '''', prp_ResourceRules = [], prp_OrderedVariables = [],
     prp_ScopePermissions = SCOPE_PERMISSIONS_UNSPECIFIED, prp_Constants = []\<rparr>"

definition exampleActionRule :: ActionRule where
  "exampleActionRule = \<lparr>ar_Action = ''view'', ar_Name = ''r'', ar_Condition = None, ar_Effect = EFFECT_ALLOW,
     ar_Output = None, ar_EmitOutput = None\<rparr>"


section \<open>Pacing the collector\<close>

datatype BuildEvent = BuildStart | BuildEnd

fun gcStep :: "int \<Rightarrow> BuildEvent \<Rightarrow> GCState \<Rightarrow> GCState" where
  "gcStep target BuildStart s = paceBuildGC target s"
| "gcStep target BuildEnd s = restoreGC target s"

text \<open>The builds that are running after the events, if no build ends before it starts.\<close>

fun running :: "BuildEvent list \<Rightarrow> nat option" where
  "running [] = Some 0"
| "running (e # es) = (case running es of None \<Rightarrow> None
     | Some n \<Rightarrow> (case e of BuildStart \<Rightarrow> Some (n + 1) | BuildEnd \<Rightarrow> if n = 0 then None else Some (n - 1)))"

lemma gc_running:
  assumes "gc_depth s = 0" and "\<not> pacingOff target" and "running (rev es) = Some n"
  shows "gc_depth (fold (gcStep target) es s) = int n \<and>
    gc_percent (fold (gcStep target) es s) = (if n = 0 then gc_percent s else target) \<and>
    (0 < n \<longrightarrow> gc_prev (fold (gcStep target) es s) = gc_percent s)"
  using assms(3)
proof (induction es arbitrary: n rule: rev_induct)
  case Nil
  then show ?case using assms(1) by simp
next
  case (snoc e es)
  then obtain k where k: "running (rev es) = Some k" by (auto split: option.splits)
  note ih = snoc.IH [OF k]
  show ?case
    using snoc.prems k ih assms(2)
    by (cases e) (auto simp: paceBuildGC_def restoreGC_def Let_def split: if_splits)
qed

text \<open>C26 (safety).  However builds nest or interleave, the collector runs at the build setting while a build is running and
  has its original setting back when none is.\<close>

theorem gc_setting_restored:
  assumes "gc_depth s = 0" and "running (rev es) = Some n"
  shows "gc_percent (fold (gcStep target) es s) = (if n = 0 \<or> pacingOff target then gc_percent s else target)"
proof (cases "pacingOff target")
  case True
  then have "gcStep target e s = s" for e s by (cases e) (simp_all add: paceBuildGC_def restoreGC_def)
  then have "fold (gcStep target) es s = s" by (induction es) auto
  then show ?thesis using True by simp
next
  case False
  then show ?thesis using gc_running [OF assms(1) False assms(2)] by simp
qed

theorem gc_setting_restored_witness:
  "gc_percent (fold (gcStep 10) [BuildStart, BuildStart, BuildEnd, BuildEnd] \<lparr>gc_depth = 0, gc_prev = 0, gc_percent = 100\<rparr>) = 100"
  using gc_setting_restored [of "\<lparr>gc_depth = 0, gc_prev = 0, gc_percent = 100\<rparr>" "[BuildStart, BuildStart, BuildEnd, BuildEnd]" 0 10]
  by simp

section \<open>The rows of a policy set\<close>

text \<open>What a rule's effect and condition become under the scope permissions of its policy.\<close>

definition consented :: "ScopePermissions \<Rightarrow> Effect \<Rightarrow> Condition option \<Rightarrow> Effect \<times> Condition option" where
  "consented sp effect cond =
     (if sp = SCOPE_PERMISSIONS_REQUIRE_PARENTAL_CONSENT_FOR_ALLOWS \<and> effect = EFFECT_ALLOW \<and> cond \<noteq> None
      then (EFFECT_DENY, Some (Cond_None [the cond])) else (effect, cond))"

lemma requireConsent_fields [simp]:
  "rr_OriginFqn (requireConsent sp row) = rr_OriginFqn row"
  "rr_Name (requireConsent sp row) = rr_Name row"
  "rr_ActionSet (requireConsent sp row) = rr_ActionSet row"
  "rr_Role (requireConsent sp row) = rr_Role row"
  "rr_Scope (requireConsent sp row) = rr_Scope row"
  "rr_Version (requireConsent sp row) = rr_Version row"
  "rr_Resource (requireConsent sp row) = rr_Resource row"
  "rr_PolicyKind (requireConsent sp row) = rr_PolicyKind row"
  "rr_FromRolePolicy (requireConsent sp row) = rr_FromRolePolicy row"
  "rr_ScopePermissions (requireConsent sp row) = rr_ScopePermissions row"
  "rr_OriginDerivedRole (requireConsent sp row) = rr_OriginDerivedRole row"
  "rr_DerivedRoleCondition (requireConsent sp row) = rr_DerivedRoleCondition row"
  "rr_EmitOutput (requireConsent sp row) = rr_EmitOutput row"
  "rr_Principal (requireConsent sp row) = rr_Principal row"
  by (simp_all add: requireConsent_def split: option.split)

lemma requireConsent_effect:
  "rr_Effect (requireConsent sp row) = fst (consented sp (rr_Effect row) (rr_Condition row))"
  "rr_Condition (requireConsent sp row) = snd (consented sp (rr_Effect row) (rr_Condition row))"
  by (simp_all add: requireConsent_def consented_def split: option.split)

lemma resourceRow_fields:
  "rr_OriginFqn (resourceRow sm p rule a x) = sm_Fqn sm" "rr_Name (resourceRow sm p rule a x) = ru_Name rule"
  "rr_ActionSet (resourceRow sm p rule a x) = ActionSet_Action a" "rr_Role (resourceRow sm p rule a x) = x"
  "rr_Scope (resourceRow sm p rule a x) = rsp_Scope p" "rr_Version (resourceRow sm p rule a x) = sm_Version sm"
  "rr_Resource (resourceRow sm p rule a x) = SanitizedResource (sm_Name sm)" "rr_PolicyKind (resourceRow sm p rule a x) = KIND_RESOURCE"
  "\<not> rr_FromRolePolicy (resourceRow sm p rule a x)" "rr_OriginDerivedRole (resourceRow sm p rule a x) = ''''"
  "rr_DerivedRoleCondition (resourceRow sm p rule a x) = None"
  "rr_Effect (resourceRow sm p rule a x) = fst (consented (rsp_ScopePermissions p) (ru_Effect rule) (ru_Condition rule))"
  "rr_Condition (resourceRow sm p rule a x) = snd (consented (rsp_ScopePermissions p) (ru_Effect rule) (ru_Condition rule))"
  by (simp_all add: resourceRow_def resourceRowBase_def zeroRow_def Let_def requireConsent_effect)

lemma derivedRoleRow_fields:
  "rr_OriginFqn (derivedRoleRow sm p rule a d rdr x) = sm_Fqn sm" "rr_Name (derivedRoleRow sm p rule a d rdr x) = ru_Name rule"
  "rr_ActionSet (derivedRoleRow sm p rule a d rdr x) = ActionSet_Action a" "rr_Role (derivedRoleRow sm p rule a d rdr x) = x"
  "rr_Scope (derivedRoleRow sm p rule a d rdr x) = rsp_Scope p" "rr_Version (derivedRoleRow sm p rule a d rdr x) = sm_Version sm"
  "rr_Resource (derivedRoleRow sm p rule a d rdr x) = SanitizedResource (sm_Name sm)"
  "rr_PolicyKind (derivedRoleRow sm p rule a d rdr x) = KIND_RESOURCE"
  "\<not> rr_FromRolePolicy (derivedRoleRow sm p rule a d rdr x)" "rr_OriginDerivedRole (derivedRoleRow sm p rule a d rdr x) = d"
  "rr_DerivedRoleCondition (derivedRoleRow sm p rule a d rdr x) = dr_Condition rdr"
  "rr_Effect (derivedRoleRow sm p rule a d rdr x) = fst (consented (rsp_ScopePermissions p) (ru_Effect rule) (ru_Condition rule))"
  "rr_Condition (derivedRoleRow sm p rule a d rdr x) = snd (consented (rsp_ScopePermissions p) (ru_Effect rule) (ru_Condition rule))"
  by (simp_all add: derivedRoleRow_def resourceRowBase_def zeroRow_def Let_def requireConsent_effect)

lemma mem_resourceRuleRows:
  "row \<in> set (resourceRuleRows sm p rule) \<longleftrightarrow>
     (\<exists>a \<in> set (ru_Actions rule).
        (\<exists>x \<in> set (ru_Roles rule). row = resourceRow sm p rule a x)
        \<or> (\<exists>d \<in> set (ru_DerivedRoles rule). \<exists>rdr. map_of (rsp_DerivedRoles p) d = Some rdr
             \<and> (\<exists>x \<in> set (dr_ParentRoles rdr). row = derivedRoleRow sm p rule a d rdr x)))"
proof -
  have opt: "row \<in> set (case m of None \<Rightarrow> [] | Some r \<Rightarrow> f r) \<longleftrightarrow> (\<exists>r. m = Some r \<and> row \<in> set (f r))" for m and f :: "RunnableDerivedRole \<Rightarrow> RuleRow list"
    by (cases m) auto
  show ?thesis
    unfolding resourceRuleRows_def set_concat set_map set_append UN_iff Un_iff image_iff opt bex_simps(7)
    by (simp only: image_iff opt set_map)
qed

text \<open>C21 (functional).  The rows of a resource policy are exactly the pairs of an action and a role that some rule names, directly
  or through the parent roles of a derived role of the policy, with the rule's effect and condition (a conditional allow
  that needs parental consent becomes a denial under the negated condition) and the derived role's condition.\<close>

theorem resource_rows_exact:
  assumes "rrps_Policies s = p # ps"
  shows "(\<exists>row \<in> set (fst (addResourcePolicy hashStr s rt)). rr_ActionSet row = ActionSet_Action a \<and> rr_Name row = n
        \<and> rr_Role row = x \<and> rr_OriginDerivedRole row = d \<and> rr_Effect row = e \<and> rr_Condition row = c \<and> rr_DerivedRoleCondition row = dc)
    \<longleftrightarrow> (\<exists>rule \<in> set (rsp_Rules p). ru_Name rule = n \<and> a \<in> set (ru_Actions rule)
        \<and> (e, c) = consented (rsp_ScopePermissions p) (ru_Effect rule) (ru_Condition rule)
        \<and> (d = '''' \<and> x \<in> set (ru_Roles rule) \<and> dc = None
           \<or> d \<in> set (ru_DerivedRoles rule) \<and> (\<exists>rdr. map_of (rsp_DerivedRoles p) d = Some rdr
               \<and> x \<in> set (dr_ParentRoles rdr) \<and> dc = dr_Condition rdr)))"
  (is "(\<exists>row \<in> ?R. ?P row) \<longleftrightarrow> (\<exists>rule \<in> ?S. ?Q rule)")
proof -
  let ?sm = "rrps_Meta s"
  have R: "?R = set ((if rsp_Rules p = [] then [resourceNoop ?sm p] else []) @ concat (map (resourceRuleRows ?sm p) (rsp_Rules p)))"
    by (simp add: addResourcePolicy_def assms Let_def)
  have noop: "\<not> ?P (resourceNoop ?sm p)" by (simp add: resourceNoop_def zeroRow_def)
  have rules: "(\<exists>row \<in> ?R. ?P row) \<longleftrightarrow> (\<exists>rule \<in> ?S. \<exists>row \<in> set (resourceRuleRows ?sm p rule). ?P row)"
    unfolding R using noop by auto
  have "(\<exists>row \<in> set (resourceRuleRows ?sm p rule). ?P row) \<longleftrightarrow> ?Q rule" for rule
    unfolding mem_resourceRuleRows Bex_def [of "set (resourceRuleRows ?sm p rule)"]
  proof
    assume "\<exists>row. (\<exists>a \<in> set (ru_Actions rule). (\<exists>x \<in> set (ru_Roles rule). row = resourceRow ?sm p rule a x)
        \<or> (\<exists>d \<in> set (ru_DerivedRoles rule). \<exists>rdr. map_of (rsp_DerivedRoles p) d = Some rdr
             \<and> (\<exists>x \<in> set (dr_ParentRoles rdr). row = derivedRoleRow ?sm p rule a d rdr x))) \<and> ?P row"
    then show "?Q rule"
      by (elim exE conjE bexE disjE) (auto simp: resourceRow_fields derivedRoleRow_fields prod_eq_iff)
  next
    assume Q: "?Q rule"
    show "\<exists>row. (\<exists>a \<in> set (ru_Actions rule). (\<exists>x \<in> set (ru_Roles rule). row = resourceRow ?sm p rule a x)
        \<or> (\<exists>d \<in> set (ru_DerivedRoles rule). \<exists>rdr. map_of (rsp_DerivedRoles p) d = Some rdr
             \<and> (\<exists>x \<in> set (dr_ParentRoles rdr). row = derivedRoleRow ?sm p rule a d rdr x))) \<and> ?P row"
    proof (cases "d = '''' \<and> x \<in> set (ru_Roles rule) \<and> dc = None")
      case True
      then show ?thesis using Q by (intro exI [of _ "resourceRow ?sm p rule a x"]) (auto simp: resourceRow_fields prod_eq_iff)
    next
      case False
      then obtain rdr where "d \<in> set (ru_DerivedRoles rule)" "map_of (rsp_DerivedRoles p) d = Some rdr"
        "x \<in> set (dr_ParentRoles rdr)" "dc = dr_Condition rdr" using Q by auto
      moreover from this Q have "?P (derivedRoleRow ?sm p rule a d rdr x)" by (simp add: derivedRoleRow_fields prod_eq_iff)
      moreover have "a \<in> set (ru_Actions rule)" using Q by simp
      ultimately show ?thesis by blast
    qed
  qed
  then show ?thesis unfolding rules by (rule bex_cong [OF refl])
qed

definition exampleResourceSet :: "string \<Rightarrow> RunnableResourcePolicySet" where
  "exampleResourceSet fqn = \<lparr>rrps_Meta = exampleMeta\<lparr>sm_Fqn := fqn, sm_Name := ''doc''\<rparr>,
     rrps_Policies = [\<lparr>rsp_Scope = '''', rsp_DerivedRoles = [], rsp_Rules = [\<lparr>ru_Name = ''r'', ru_Actions = [''view''],
       ru_DerivedRoles = [], ru_Roles = [''user''], ru_Condition = None, ru_Effect = EFFECT_ALLOW, ru_Output = None,
       ru_EmitOutput = None\<rparr>], rsp_OrderedVariables = [], rsp_ScopePermissions = SCOPE_PERMISSIONS_UNSPECIFIED, rsp_Constants = []\<rparr>],
     rrps_Schemas = None\<rparr>"

theorem resource_rows_exact_witness:
  "\<exists>row \<in> set (fst (addResourcePolicy (\<lambda>_. 0) (exampleResourceSet ''f'') NewProtoRuletable)).
     rr_ActionSet row = ActionSet_Action ''view'' \<and> rr_Role row = ''user'' \<and> rr_Effect row = EFFECT_ALLOW"
  using resource_rows_exact [of "exampleResourceSet ''f''" "hd (rrps_Policies (exampleResourceSet ''f''))" "[]" "\<lambda>_. 0"
      NewProtoRuletable "''view''" "''r''" "''user''" "''''" EFFECT_ALLOW None None]
  by (auto simp: exampleResourceSet_def consented_def)

section \<open>Streaming and batch builds agree\<close>

text \<open>The name under which a policy set is recorded.\<close>

definition setFqn :: "RunnablePolicySet \<Rightarrow> string option" where
  "setFqn rps = (case rps_PolicySet rps of
      Some (ResourceSet s) \<Rightarrow> Some (sm_Fqn (rrps_Meta s))
    | Some (PrincipalSet s) \<Rightarrow> Some (sm_Fqn (rpps_Meta s))
    | Some (RoleSet s) \<Rightarrow> Some (rop_Fqn s)
    | None \<Rightarrow> None)"

lemma AddPolicy_origin:
  assumes "AddPolicy hashStr rps P = (rs, P')" and "row \<in> set rs"
  shows "setFqn rps = Some (rr_OriginFqn row)"
proof (cases "rps_PolicySet rps")
  case None
  then show ?thesis using assms by (auto simp: AddPolicy_def)
next
  case (Some ps)
  show ?thesis
  proof (cases ps)
    case (ResourceSet s)
    then show ?thesis
      using assms Some
      by (auto simp: AddPolicy_def addResourcePolicy_def setFqn_def Let_def mem_resourceRuleRows resourceRow_fields
          derivedRoleRow_fields resourceNoop_def zeroRow_def split: list.splits if_splits)
  next
    case (PrincipalSet s)
    then show ?thesis
      using assms Some
      by (auto simp: AddPolicy_def addPrincipalPolicy_def setFqn_def Let_def principalRow_def principalNoop_def zeroRow_def
          split: list.splits if_splits)
  next
    case (RoleSet s)
    then show ?thesis
      using assms Some by (auto simp: AddPolicy_def addRolePolicy_def setFqn_def Let_def rolePolicyRow_def zeroRow_def)
  qed
qed

lemma AddPolicy_derivedRoles:
  assumes "AddPolicy hashStr rps P = (rs, P')" and "k \<notin> hashStr ` set_option (setFqn rps)"
  shows "map_of (pt_PolicyDerivedRoles P') k = map_of (pt_PolicyDerivedRoles P) k"
  using assms
  by (auto simp: AddPolicy_def addResourcePolicy_def addPrincipalPolicy_def addRolePolicy_def setFqn_def Let_def
      GenModuleIDFromFQN_def RawValue_def map_of_goupdate split: option.splits PolicySet.splits list.splits if_splits)

text \<open>Registering a row reads only the derived roles of its policy and writes neither the proto table nor the index.\<close>

lemma registerRow_frame [simp]:
  "rt_proto (registerRow W row rt) = rt_proto rt" "rt_idx (registerRow W row rt) = rt_idx rt"
  "rt_programCache (registerRow W row rt) = rt_programCache rt"
  by (simp_all add: registerRow_def addScope_def trackScopePermissions_def installDerivedRoles_def Let_def split: option.split)

lemma registerRow_idx: "registerRow W row (rt\<lparr>rt_idx := i\<rparr>) = (registerRow W row rt)\<lparr>rt_idx := i\<rparr>"
  by (simp add: registerRow_def addScope_def trackScopePermissions_def installDerivedRoles_def Let_def split: option.split)

lemma registerRow_proto:
  assumes "map_of (pt_PolicyDerivedRoles P) (w_hashStr W (rr_OriginFqn row)) =
    map_of (pt_PolicyDerivedRoles (rt_proto rt)) (w_hashStr W (rr_OriginFqn row))"
  shows "registerRow W row (rt\<lparr>rt_proto := P\<rparr>) = (registerRow W row rt)\<lparr>rt_proto := P\<rparr>"
  using assms
  by (simp add: registerRow_def addScope_def trackScopePermissions_def installDerivedRoles_def Let_def
      GenModuleIDFromFQN_def RawValue_def split: option.split)

lemma fold_registerRow_frame [simp]:
  "rt_proto (fold (registerRow W) rs rt) = rt_proto rt" "rt_idx (fold (registerRow W) rs rt) = rt_idx rt"
  by (induction rs arbitrary: rt) simp_all

lemma fold_registerRow_idx: "fold (registerRow W) rs (rt\<lparr>rt_idx := i\<rparr>) = (fold (registerRow W) rs rt)\<lparr>rt_idx := i\<rparr>"
  by (induction rs arbitrary: rt) (simp_all add: registerRow_idx)

lemma fold_registerRow_proto:
  assumes "\<And>row. row \<in> set rs \<Longrightarrow> map_of (pt_PolicyDerivedRoles P) (w_hashStr W (rr_OriginFqn row)) =
    map_of (pt_PolicyDerivedRoles (rt_proto rt)) (w_hashStr W (rr_OriginFqn row))"
  shows "fold (registerRow W) rs (rt\<lparr>rt_proto := P\<rparr>) = (fold (registerRow W) rs rt)\<lparr>rt_proto := P\<rparr>"
  using assms by (induction rs arbitrary: rt) (simp_all add: registerRow_proto)

text \<open>Indexing never looks at the parent roles.\<close>

lemma IndexRule_parentRoles:
  "IndexRule E rule (m\<lparr>ix_parentRoles := p\<rparr>) = map_prod (\<lambda>ok. ok) (\<lambda>m. m\<lparr>ix_parentRoles := p\<rparr>) (IndexRule E rule m)"
proof -
  have params: "indexParams E rule (m\<lparr>ix_parentRoles := p\<rparr>) = (fst (indexParams E rule m), (snd (indexParams E rule m))\<lparr>ix_parentRoles := p\<rparr>)"
    by (simp add: indexParams_def Let_def split: prod.split option.split)
  have core: "getCore E rule a b (m\<lparr>ix_parentRoles := p\<rparr>) = (fst (getCore E rule a b m), (snd (getCore E rule a b m))\<lparr>ix_parentRoles := p\<rparr>)"
    for a b m
    by (simp add: getCore_def Let_def split: prod.split option.split)
  obtain pr m1 where m1: "indexParams E rule m = (pr, m1)" by (cases "indexParams E rule m")
  show ?thesis
  proof (cases pr)
    case None
    then show ?thesis by (simp add: IndexRule_def params m1)
  next
    case (Some ab)
    obtain a b where ab: "ab = (a, b)" by (cases ab)
    obtain c m2 where m2: "getCore E rule a b m1 = (c, m2)" by (cases "getCore E rule a b m1")
    show ?thesis by (simp add: IndexRule_def params m1 Some ab core m2)
  qed
qed

lemma IndexRules_parentRoles:
  "IndexRules E rs (m\<lparr>ix_parentRoles := p\<rparr>) = map_prod (\<lambda>ok. ok) (\<lambda>m. m\<lparr>ix_parentRoles := p\<rparr>) (IndexRules E rs m)"
proof (induction rs arbitrary: m)
  case (Cons r rs)
  then show ?case by (cases "IndexRule E r m") (auto simp: IndexRule_parentRoles split: bool.split)
qed simp

lemma IndexRules_append:
  "IndexRules E (rs @ ss) m = (case IndexRules E rs m of (False, m) \<Rightarrow> (False, m) | (True, m) \<Rightarrow> IndexRules E ss m)"
proof (induction rs arbitrary: m)
  case (Cons r rs)
  then show ?case by (cases "IndexRule E r m") (auto split: bool.split)
qed simp

lemma IndexParentRoles_idem [simp]: "IndexParentRoles q (IndexParentRoles p m) = IndexParentRoles q m"
  by (simp add: IndexParentRoles_def)

lemma IndexRules_IndexParentRoles:
  "IndexRules E rs (IndexParentRoles p m) = map_prod (\<lambda>ok. ok) (IndexParentRoles p) (IndexRules E rs m)"
  unfolding IndexParentRoles_def [abs_def] by (rule IndexRules_parentRoles)

text \<open>The rows and the table that adding the policy sets one after the other gives.\<close>

fun addAll :: "(string \<Rightarrow> u64) \<Rightarrow> RunnablePolicySet list \<Rightarrow> ProtoRuleTable \<Rightarrow> RuleRow list \<times> ProtoRuleTable" where
  "addAll hashStr [] P = ([], P)"
| "addAll hashStr (rps # rest) P =
     (let (rs, P) = AddPolicy hashStr rps P; (ss, P) = addAll hashStr rest P in (rs @ ss, P))"

lemma LoadPolicies_addAll: "LoadPolicies hashStr (Some sets) P = Some ((snd (addAll hashStr sets P))\<lparr>pt_Rules := fst (addAll hashStr sets P)\<rparr>)"
proof -
  let ?f = "\<lambda>p (m, rt). let (rules, rt) = AddPolicy hashStr p rt in (m @ [rules], rt)"
  have "concat (fst (fold ?f sets (m, P))) = concat m @ fst (addAll hashStr sets P)
      \<and> snd (fold ?f sets (m, P)) = snd (addAll hashStr sets P)" for m
  proof (induction sets arbitrary: m P)
    case (Cons p sets)
    then show ?case by (cases "AddPolicy hashStr p P") (simp add: split_beta)
  qed simp
  from this [of "[]"] show ?thesis by (simp add: LoadPolicies_def split_beta)
qed

lemma addAll_derivedRoles:
  assumes "k \<notin> hashStr ` (\<Union>rps \<in> set sets. set_option (setFqn rps))"
  shows "map_of (pt_PolicyDerivedRoles (snd (addAll hashStr sets P))) k = map_of (pt_PolicyDerivedRoles P) k"
  using assms
proof (induction sets arbitrary: P)
  case (Cons rps sets)
  obtain rs P1 where add: "AddPolicy hashStr rps P = (rs, P1)" by (cases "AddPolicy hashStr rps P")
  show ?case
    using Cons.prems Cons.IH [of P1] AddPolicy_derivedRoles [OF add, of k] by (simp add: add split_beta image_Un)
qed simp

text \<open>Different policy sets have names with different hashes.\<close>

definition distinctSets :: "(string \<Rightarrow> u64) \<Rightarrow> RunnablePolicySet list \<Rightarrow> bool" where
  "distinctSets hashStr sets \<longleftrightarrow> distinct (map hashStr (List.map_filter setFqn sets))"

lemma distinctSets_Cons:
  assumes "distinctSets hashStr (rps # sets)" and "setFqn rps = Some f"
  shows "distinctSets hashStr sets \<and> hashStr f \<notin> hashStr ` (\<Union>rps \<in> set sets. set_option (setFqn rps))"
proof -
  have "set (List.map_filter setFqn sets) = (\<Union>rps \<in> set sets. set_option (setFqn rps))"
    by (induction sets) (auto simp: split: option.splits)
  then show ?thesis using assms by (auto simp: distinctSets_def)
qed

lemma ingestAll_batch:
  assumes "distinctSets (w_hashStr W) sets" and "IndexParentRoles (pt_ScopeParentRoles (rt_proto rt)) (rt_idx rt) = rt_idx rt"
  shows "ingestAll W (map Yield sets) rt =
    (let (rs, P) = addAll (w_hashStr W) sets (rt_proto rt)
     in case IndexRules (w_ext W) rs (rt_idx rt) of
          (False, _) \<Rightarrow> None
        | (True, idx) \<Rightarrow> Some ((fold (registerRow W) rs (rt\<lparr>rt_proto := P\<rparr>))\<lparr>rt_idx := IndexParentRoles (pt_ScopeParentRoles P) idx\<rparr>))"
  using assms
proof (induction sets arbitrary: rt)
  case Nil
  then show ?case by simp
next
  case (Cons rps sets)
  obtain rs P1 where add: "AddPolicy (w_hashStr W) rps (rt_proto rt) = (rs, P1)"
    by (cases "AddPolicy (w_hashStr W) rps (rt_proto rt)")
  obtain ss P2 where rest: "addAll (w_hashStr W) sets P1 = (ss, P2)" by (cases "addAll (w_hashStr W) sets P1")
  obtain ok idx1 where ix: "IndexRules (w_ext W) rs (rt_idx rt) = (ok, idx1)" by (cases "IndexRules (w_ext W) rs (rt_idx rt)")
  have dist: "distinctSets (w_hashStr W) sets"
    using Cons.prems(1) by (cases "setFqn rps") (auto simp: distinctSets_def)
  have keys: "map_of (pt_PolicyDerivedRoles P2) (w_hashStr W (rr_OriginFqn row)) =
      map_of (pt_PolicyDerivedRoles P1) (w_hashStr W (rr_OriginFqn row))" if "row \<in> set rs" for row
    using addAll_derivedRoles [of "w_hashStr W (rr_OriginFqn row)" "w_hashStr W" sets P1] rest
      distinctSets_Cons [OF Cons.prems(1) AddPolicy_origin [OF add that]] by simp
  show ?case
  proof (cases ok)
    case False
    then show ?thesis
      by (simp add: ingestPolicy_def add indexRules_def ix rest IndexRules_append split_beta)
  next
    case True
    let ?rt = "(fold (registerRow W) rs (rt\<lparr>rt_proto := P1\<rparr>))\<lparr>rt_idx := IndexParentRoles (pt_ScopeParentRoles P1) idx1\<rparr>"
    have step: "ingestPolicy W (Some rps) rt = (True, ?rt)"
      using True by (simp add: ingestPolicy_def add indexRules_def ix)
    have "fold (registerRow W) ss (?rt\<lparr>rt_proto := P2\<rparr>) =
      (fold (registerRow W) (rs @ ss) (rt\<lparr>rt_proto := P2\<rparr>))\<lparr>rt_idx := IndexParentRoles (pt_ScopeParentRoles P1) idx1\<rparr>"
    proof -
      have "fold (registerRow W) rs (rt\<lparr>rt_proto := P2\<rparr>) = (fold (registerRow W) rs (rt\<lparr>rt_proto := P1\<rparr>))\<lparr>rt_proto := P2\<rparr>"
        using fold_registerRow_proto [of rs P2 W "rt\<lparr>rt_proto := P1\<rparr>"] by (simp add: keys)
      moreover have "?rt\<lparr>rt_proto := P2\<rparr> = (fold (registerRow W) rs (rt\<lparr>rt_proto := P1\<rparr>))\<lparr>rt_proto := P2\<rparr>
          \<lparr>rt_idx := IndexParentRoles (pt_ScopeParentRoles P1) idx1\<rparr>"
        by (cases "fold (registerRow W) rs (rt\<lparr>rt_proto := P1\<rparr>)") simp
      ultimately show ?thesis by (simp only: fold_registerRow_idx fold_append comp_def)
    qed
    then show ?thesis
      using Cons.IH [OF dist, of ?rt] True
      by (cases "IndexRules (w_ext W) ss idx1")
        (simp add: step add rest ix IndexRules_append IndexRules_IndexParentRoles split: bool.split)
  qed
qed

lemma compile_no_parents: "IndexParentRoles [] New = New"
  by (simp add: IndexParentRoles_def compileParentRoleAncestors_def New_def)

lemma migrate_current: "pt_CompilerVersion P = compilerVersion \<Longrightarrow> migrate P = P"
  by (simp add: migrate_def)

lemma AddPolicy_version: "AddPolicy hashStr rps P = (rs, P') \<Longrightarrow> pt_CompilerVersion P' = pt_CompilerVersion P"
  by (auto simp: AddPolicy_def addResourcePolicy_def addPrincipalPolicy_def addRolePolicy_def Let_def
      split: option.splits PolicySet.splits list.splits if_splits)

lemma addAll_version: "pt_CompilerVersion (snd (addAll hashStr sets P)) = pt_CompilerVersion P"
proof (induction sets arbitrary: P)
  case (Cons rps sets)
  obtain rs P1 where add: "AddPolicy hashStr rps P = (rs, P1)" by (cases "AddPolicy hashStr rps P")
  then show ?case using Cons [of P1] AddPolicy_version [OF add] by (simp add: split_beta)
qed simp

text \<open>C22 (equivalence).  Building the table from a stream of policy sets, row by row, gives the table that loading all sets first
  gives, errors included, when different sets have names with different hashes.\<close>

theorem streaming_build_is_batch_build:
  assumes "distinctSets (w_hashStr W) sets"
  shows "NewRuleTableFromLoader W (IterableLoader (map Yield sets)) = NewRuleTableFromLoader W (PlainLoader (Some sets))"
proof -
  let ?e = "emptyRuleTable NewProtoRuletable"
  obtain rs P where all: "addAll (w_hashStr W) sets NewProtoRuletable = (rs, P)" by (cases "addAll (w_hashStr W) sets NewProtoRuletable")
  have "migrate (P\<lparr>pt_Rules := rs\<rparr>) = P\<lparr>pt_Rules := rs\<rparr>"
    using addAll_version [of "w_hashStr W" sets NewProtoRuletable] all
    by (intro migrate_current) (simp add: NewProtoRuletable_def)
  moreover have "ingestAll W (map Yield sets) ?e = (case IndexRules (w_ext W) rs New of
      (False, _) \<Rightarrow> None
    | (True, idx) \<Rightarrow> Some ((fold (registerRow W) rs (?e\<lparr>rt_proto := P\<rparr>))\<lparr>rt_idx := IndexParentRoles (pt_ScopeParentRoles P) idx\<rparr>))"
    using ingestAll_batch [OF assms, of ?e] all
    by (simp add: emptyRuleTable_def NewProtoRuletable_def compile_no_parents)
  moreover have "initBuildState ?e = ?e" "initBuildState (?e\<lparr>rt_proto := Q\<rparr>) = ?e\<lparr>rt_proto := Q\<rparr>" for Q
    by (simp_all add: initBuildState_def emptyRuleTable_def)
  moreover have "fold (registerRow W) rs (?e\<lparr>rt_proto := P\<lparr>pt_Rules := rs\<rparr>\<rparr>) = (fold (registerRow W) rs (?e\<lparr>rt_proto := P\<rparr>))\<lparr>rt_proto := P\<lparr>pt_Rules := rs\<rparr>\<rparr>"
    using fold_registerRow_proto [of rs "P\<lparr>pt_Rules := rs\<rparr>" W "?e\<lparr>rt_proto := P\<rparr>"] by simp
  moreover have "rt_idx ?e = New" by (simp add: emptyRuleTable_def)
  ultimately show ?thesis
    by (cases "IndexRules (w_ext W) rs New")
      (simp add: NewRuleTableFromLoader_def newRuleTableFromIterableLoader_def LoadPolicies_addAll all NewRuleTable_def init_def
        indexRules_def finalizeBuild_def Let_def split: bool.split)
qed

definition exampleWorld :: World where
  "exampleWorld = \<lparr>w_ext = exampleExt, w_hashStr = (\<lambda>s. of_nat (length s)), w_hashDerivedRole = (\<lambda>_. 0)\<rparr>"

definition exampleSets :: "RunnablePolicySet list" where
  "exampleSets = [\<lparr>rps_Fqn = ''a'', rps_PolicySet = Some (ResourceSet (exampleResourceSet ''a''))\<rparr>,
     \<lparr>rps_Fqn = ''bb'', rps_PolicySet = Some (ResourceSet (exampleResourceSet ''bb''))\<rparr>]"

theorem streaming_build_is_batch_build_witness:
  "NewRuleTableFromLoader exampleWorld (IterableLoader (map Yield exampleSets)) =
   NewRuleTableFromLoader exampleWorld (PlainLoader (Some exampleSets))"
proof -
  have "distinctSets (w_hashStr exampleWorld) exampleSets"
    by (simp add: distinctSets_def exampleWorld_def exampleSets_def setFqn_def exampleResourceSet_def exampleMeta_def)
  then show ?thesis by (rule streaming_build_is_batch_build)
qed

end
