(* ===== verification/ScopeTree.thy ===== *)
theory ScopeTree
  imports RuleTable "HOL-Library.Sublist"
begin

text \<open>
  Correctness of \<^verbatim>\<open>CombineScopes\<close>: the tree of scope segments it builds is characterised by the list of its paths in
  post-order, from which the result is read off.
\<close>

section \<open>Splitting and joining\<close>

definition segs_ok :: "string list \<Rightarrow> bool" where
  "segs_ok segs \<longleftrightarrow> (\<forall>x \<in> set segs. x \<noteq> [] \<and> CHR ''.'' \<notin> set x)"

text \<open>A scope is empty or has no empty segment.\<close>

definition scope_ok :: "string \<Rightarrow> bool" where
  "scope_ok s \<longleftrightarrow> s = '''' \<or> [] \<notin> set (splitDots s)"

definition pathOf :: "string \<Rightarrow> string list" where
  "pathOf s = (if s = '''' then [] else splitDots s)"

lemma splitDots_nonempty [simp]: "splitDots s \<noteq> []"
  by (induction s rule: splitDots.induct) (auto split: list.split)

lemma splitDots_dotfree: "x \<in> set (splitDots s) \<Longrightarrow> CHR ''.'' \<notin> set x"
proof (induction s arbitrary: x rule: splitDots.induct)
  case (2 c cs)
  obtain p ps where "splitDots cs = p # ps" by (cases "splitDots cs") auto
  then show ?case using 2 by (auto split: if_splits)
qed simp

lemma joinDots_Cons: "ps \<noteq> [] \<Longrightarrow> joinDots (p # ps) = p @ ''.'' @ joinDots ps"
  by (cases ps) auto

lemma joinDots_splitDots [simp]: "joinDots (splitDots s) = s"
proof (induction s rule: splitDots.induct)
  case (2 c cs)
  obtain p ps where s: "splitDots cs = p # ps" by (cases "splitDots cs") auto
  then show ?case
    using 2 by (cases "ps = []") (auto simp: joinDots_Cons)
qed simp

lemma splitDots_dotfree_prefix:
  "CHR ''.'' \<notin> set x \<Longrightarrow> splitDots x = [x]"
  "CHR ''.'' \<notin> set x \<Longrightarrow> splitDots (x @ CHR ''.'' # s) = x # splitDots s"
  by (induction x) auto

lemma splitDots_joinDots: "segs \<noteq> [] \<Longrightarrow> segs_ok segs \<Longrightarrow> splitDots (joinDots segs) = segs"
proof (induction segs rule: joinDots.induct)
  case (3 x y ys)
  then show ?case by (simp add: splitDots_dotfree_prefix segs_ok_def)
qed (simp_all add: splitDots_dotfree_prefix segs_ok_def)

lemma pathOf_joinDots: "segs_ok segs \<Longrightarrow> pathOf (joinDots segs) = segs"
  by (cases "segs = []") (auto simp: pathOf_def splitDots_joinDots joinDots_Nil_iff segs_ok_def)

lemma joinDots_pathOf [simp]: "joinDots (pathOf s) = s"
  by (simp add: pathOf_def)

lemma segs_ok_pathOf: "scope_ok s \<Longrightarrow> segs_ok (pathOf s)"
  by (auto simp: scope_ok_def segs_ok_def pathOf_def dest: splitDots_dotfree)

lemma segs_ok_take: "segs_ok segs \<Longrightarrow> segs_ok (take n segs)"
  by (auto simp: segs_ok_def dest: in_set_takeD)

section \<open>The tree and its paths\<close>

fun nodePaths :: "string list \<Rightarrow> scopeNode \<Rightarrow> string list list" where
  "nodePaths path (ScopeNode s children) = concat (map (\<lambda>c. nodePaths (path @ [fst c]) (snd c)) children) @ [path]"

fun node_ok :: "string list \<Rightarrow> scopeNode \<Rightarrow> bool" where
  "node_ok path (ScopeNode s children) \<longleftrightarrow>
     s = joinDots path \<and> gowf children \<and> (\<forall>c \<in> set children. node_ok (path @ [fst c]) (snd c))"

lemma dfs_paths: "node_ok path n \<Longrightarrow> dfs u n = filter (\<lambda>s. s \<in> set u) (map joinDots (nodePaths path n))"
proof (induction path n rule: nodePaths.induct)
  case (1 path s children)
  have "concat (map (\<lambda>c. dfs u (snd c)) children) =
      concat (map (\<lambda>c. filter (\<lambda>s. s \<in> set u) (map joinDots (nodePaths (path @ [fst c]) (snd c)))) children)"
    using 1 by (intro arg_cong [of _ _ concat] map_cong) auto
  then show ?case using 1(2) by (simp add: filter_concat map_concat comp_def del: map_eq_conv)
qed

lemma nodePaths_prefix: "p \<in> set (nodePaths path n) \<Longrightarrow> prefix path p"
proof (induction path n rule: nodePaths.induct)
  case (1 path s children)
  from 1(2) consider "p = path" | c where "c \<in> set children" "p \<in> set (nodePaths (path @ [fst c]) (snd c))" by auto
  then show ?case
  proof cases
    case 2
    then show ?thesis using 1(1) append_prefixD by blast
  qed simp
qed

text \<open>Paths are distinct, and no path comes before one that extends it.\<close>

lemma nodePaths_order: "node_ok path n \<Longrightarrow> distinct (nodePaths path n) \<and> sorted_wrt (\<lambda>p q. \<not> strict_prefix p q) (nodePaths path n)"
proof (induction path n rule: nodePaths.induct)
  case (1 path s children)
  let ?sub = "\<lambda>c. nodePaths (path @ [fst c]) (snd c)"
  have sub: "distinct (?sub c) \<and> sorted_wrt (\<lambda>p q. \<not> strict_prefix p q) (?sub c)" if "c \<in> set children" for c
    using 1 that by simp
  have pre: "prefix (path @ [fst c]) p" if "p \<in> set (?sub c)" for c p
    using nodePaths_prefix that by blast
  have apart: "p \<noteq> q \<and> \<not> strict_prefix p q" if "fst c \<noteq> fst d" "p \<in> set (?sub c)" "q \<in> set (?sub d)" for c d p q
  proof -
    note pq = pre [OF that(2)] pre [OF that(3)]
    obtain u v where "p = path @ fst c # u" "q = path @ fst d # v"
      using pq by (auto simp: prefix_def)
    then show ?thesis using that(1) by (auto simp: strict_prefix_def)
  qed
  have list: "distinct (concat (map ?sub cs)) \<and> sorted_wrt (\<lambda>p q. \<not> strict_prefix p q) (concat (map ?sub cs))"
    if "set cs \<subseteq> set children" "gowf cs" for cs
    using that
  proof (induction cs)
    case (Cons c cs)
    have "fst c \<noteq> fst d" if "d \<in> set cs" for d using Cons.prems(2) that by (force simp: gowf_def)
    then have "\<forall>p \<in> set (?sub c). \<forall>q \<in> set (concat (map ?sub cs)). p \<noteq> q \<and> \<not> strict_prefix p q"
      using apart by fastforce
    moreover have "c \<in> set children" using Cons.prems(1) by simp
    ultimately show ?case
      using Cons sub [of c] by (auto simp: sorted_wrt_append gowf_def)
  qed simp
  have "gowf children" using 1(2) by simp
  moreover have "\<not> strict_prefix p path \<and> p \<noteq> path" if "p \<in> set (concat (map ?sub children))" for p
  proof -
    from that obtain c where "p \<in> set (?sub c)" by auto
    then show ?thesis using pre [of p c] by (auto simp: prefix_def strict_prefix_def)
  qed
  ultimately show ?case using list [of children] by (auto simp: sorted_wrt_append)
qed

lemma insertParts_facts:
  assumes "node_ok path n"
  shows "node_ok path (insertParts path parts n) \<and>
    set (nodePaths path (insertParts path parts n)) = set (nodePaths path n) \<union> {path @ take i parts | i. i \<le> length parts}"
  using assms
proof (induction path parts n rule: insertParts.induct)
  case (1 path n)
  have "path \<in> set (nodePaths path n)" by (cases n) simp
  then show ?case using 1 by auto
next
  case (2 path part parts s children)
  define child where "child = (case map_of children part of None \<Rightarrow> ScopeNode (joinDots (path @ [part])) [] | Some c \<Rightarrow> c)"
  let ?new = "insertParts (path @ [part]) parts child"
  have wf: "gowf children" using 2(2) by simp
  have "node_ok (path @ [part]) child"
    using 2(2) by (cases "map_of children part") (auto simp: child_def dest!: map_of_SomeD bspec)
  from 2(1) [OF child_def this]
  have new: "node_ok (path @ [part]) ?new"
    "set (nodePaths (path @ [part]) ?new) = set (nodePaths (path @ [part]) child) \<union> {(path @ [part]) @ take i parts | i. i \<le> length parts}"
    by blast+
  have mem: "c \<in> set (AList.update part ?new children) \<longleftrightarrow> c = (part, ?new) \<or> c \<in> set children \<and> fst c \<noteq> part" for c
    using gowf_in_set_iff [OF wf, of "fst c" "snd c"] gowf_in_set_iff [OF gowf_update [OF wf], of "fst c" "snd c" part ?new]
    by (cases c) (auto simp: map_of_goupdate)
  have paths: "set (concat (map (\<lambda>c. nodePaths (path @ [fst c]) (snd c)) (AList.update part ?new children))) =
      set (concat (map (\<lambda>c. nodePaths (path @ [fst c]) (snd c)) children)) \<union> {path @ part # take i parts | i. i \<le> length parts}"
    (is "?L = ?R \<union> ?T")
  proof -
    let ?O = "\<Union>c \<in> {c \<in> set children. fst c \<noteq> part}. set (nodePaths (path @ [fst c]) (snd c))"
    have "set (AList.update part ?new children) = insert (part, ?new) {c \<in> set children. fst c \<noteq> part}"
      using mem by blast
    then have "?L = ?O \<union> set (nodePaths (path @ [part]) ?new)" by auto
    moreover have "?R \<union> ?T = ?O \<union> set (nodePaths (path @ [part]) child) \<union> ?T"
    proof (cases "map_of children part")
      case None
      then have "fst c \<noteq> part" if "c \<in> set children" for c using that by (auto simp: map_of_eq_None_iff)
      then have "{c \<in> set children. fst c \<noteq> part} = set children" by blast
      then have "?R = ?O" by simp
      moreover have "path @ [part] \<in> ?T" by (rule CollectI, rule exI [of _ 0]) simp
      ultimately show ?thesis using None by (simp add: child_def insert_absorb)
    next
      case (Some c)
      then have "d \<in> set children \<longleftrightarrow> d = (part, c) \<or> d \<in> set children \<and> fst d \<noteq> part" for d
        using gowf_in_set_iff [OF wf, of part "snd d"] by (cases d) auto
      then have "set children = insert (part, c) {c \<in> set children. fst c \<noteq> part}" by blast
      then have "?R = (\<Union>d \<in> insert (part, c) {c \<in> set children. fst c \<noteq> part}. set (nodePaths (path @ [fst d]) (snd d)))" by simp
      then have "?R = ?O \<union> set (nodePaths (path @ [part]) c)" by (simp add: Un_commute)
      then show ?thesis using Some by (simp add: child_def)
    qed
    moreover have "set (nodePaths (path @ [part]) ?new) = set (nodePaths (path @ [part]) child) \<union> ?T" using new(2) by simp
    ultimately show ?thesis by (simp only: Un_assoc)
  qed
  have "{path @ take i (part # parts) | i. i \<le> length (part # parts)} = insert path {path @ part # take i parts | i. i \<le> length parts}"
    (is "?A = ?B")
  proof (rule set_eqI)
    fix p
    show "p \<in> ?A \<longleftrightarrow> p \<in> ?B"
    proof
      assume "p \<in> ?A"
      then obtain i where "p = path @ take i (part # parts)" "i \<le> Suc (length parts)" by auto
      then show "p \<in> ?B" by (cases i) auto
    next
      assume "p \<in> ?B"
      then consider "p = path @ take 0 (part # parts)" | i where "p = path @ take (Suc i) (part # parts)" "i \<le> length parts" by auto
      then have "\<exists>i \<le> length (part # parts). p = path @ take i (part # parts)"
      proof cases
        case 1
        then show ?thesis by (intro exI [of _ 0]) simp
      next
        case (2 i)
        then show ?thesis by (intro exI [of _ "Suc i"]) simp
      qed
      then show "p \<in> ?A" by blast
    qed
  qed
  moreover have "node_ok path (insertParts path (part # parts) (ScopeNode s children))"
    using 2(2) new(1) wf by (auto simp: mem Let_def child_def [symmetric])
  ultimately show ?case using paths by (simp add: Let_def child_def [symmetric])
qed

section \<open>Combining scopes\<close>

definition scopeTree :: "string list \<Rightarrow> scopeNode" where
  "scopeTree scopes = fold (\<lambda>scope root. if scope = '''' then root else insertParts [] (splitDots scope) root) scopes (ScopeNode '''' [])"

lemma scopeTree_facts:
  "node_ok [] (scopeTree scopes) \<and>
   set (nodePaths [] (scopeTree scopes)) = insert [] {take i (pathOf s) | s i. s \<in> set scopes \<and> i \<le> length (pathOf s)}"
proof (induction scopes rule: rev_induct)
  case Nil
  then show ?case by (simp add: scopeTree_def)
next
  case (snoc s scopes)
  have snoc': "scopeTree (scopes @ [s]) = (if s = '''' then scopeTree scopes else insertParts [] (splitDots s) (scopeTree scopes))"
    by (simp add: scopeTree_def)
  have split: "{take i (pathOf t) | t i. t \<in> set (scopes @ [s]) \<and> i \<le> length (pathOf t)} =
      {take i (pathOf t) | t i. t \<in> set scopes \<and> i \<le> length (pathOf t)} \<union> {take i (pathOf s) | i. i \<le> length (pathOf s)}"
    by auto
  show ?case
  proof (cases "s = ''''")
    case True
    then have "{take i (pathOf s) | i. i \<le> length (pathOf s)} = {[]}" by (simp add: pathOf_def)
    then show ?thesis unfolding snoc' split using snoc True by simp
  next
    case False
    then show ?thesis
      unfolding snoc' split using insertParts_facts [of "[]" "scopeTree scopes" "splitDots s"] snoc by (simp add: pathOf_def)
  qed
qed

lemma sorted_wrt_map_filter:
  assumes "sorted_wrt R xs" and "\<And>x y. x \<in> set xs \<Longrightarrow> y \<in> set xs \<Longrightarrow> R x y \<Longrightarrow> S (f x) (f y)"
  shows "sorted_wrt S (filter P (map f xs))"
proof (rule sorted_wrt_filter)
  have "sorted_wrt (\<lambda>x y. S (f x) (f y)) xs"
    by (rule sorted_wrt_mono_rel [OF _ assms(1)]) (use assms(2) in blast)
  then show "sorted_wrt S (map f xs)" by (simp add: sorted_wrt_map)
qed

lemma CombineScopes_tree:
  "CombineScopes ps rs = filter (\<lambda>s. s \<in> set ps \<union> set rs) (map joinDots (nodePaths [] (scopeTree (fold set_add rs (fold set_add ps [])))))"
proof -
  have "set (fold set_add xs ys) = set ys \<union> set xs" for xs ys :: "string list"
    by (induction xs arbitrary: ys) auto
  then show ?thesis
    unfolding CombineScopes_def Let_def scopeTree_def [symmetric]
    by (subst dfs_paths [OF conjunct1 [OF scopeTree_facts]]) simp
qed

text \<open>C24 (functional).  \<^verbatim>\<open>CombineScopes\<close> returns every scope of the two lists exactly once, and never a scope before one of its
  descendants.\<close>

theorem combine_scopes_exact:
  assumes "\<forall>s \<in> set ps \<union> set rs. scope_ok s"
  shows "distinct (CombineScopes ps rs) \<and> set (CombineScopes ps rs) = set ps \<union> set rs
    \<and> sorted_wrt (\<lambda>x y. x \<notin> set (ScopeParents y)) (CombineScopes ps rs)"
proof -
  let ?u = "fold set_add rs (fold set_add ps [])"
  let ?paths = "nodePaths [] (scopeTree ?u)"
  have u: "set ?u = set ps \<union> set rs"
  proof -
    have "set (fold set_add xs ys) = set ys \<union> set xs" for xs ys :: "string list"
      by (induction xs arbitrary: ys) auto
    then show ?thesis by simp
  qed
  note tree = scopeTree_facts [of ?u] nodePaths_order [OF conjunct1 [OF scopeTree_facts [of ?u]]]
  have ok: "segs_ok p" if "p \<in> set ?paths" for p
    using that assms tree(1) u by (auto simp: segs_ok_take segs_ok_pathOf) (simp add: segs_ok_def)
  have inj: "inj_on joinDots (set ?paths)"
    by (rule inj_on_inverseI [of _ pathOf]) (rule pathOf_joinDots [OF ok])
  have "joinDots p \<notin> set (ScopeParents (joinDots q))" if "p \<in> set ?paths" "q \<in> set ?paths" "\<not> strict_prefix p q" for p q
  proof
    assume "joinDots p \<in> set (ScopeParents (joinDots q))"
    moreover have "ScopeParents (joinDots q) = map (\<lambda>n. joinDots (take n q)) (rev [0..<length q])"
      using ScopeParents_joinDots [of q] ok [OF that(2)] by (simp add: segs_ok_def)
    ultimately obtain n where n: "n < length q" "joinDots p = joinDots (take n q)" by auto
    have "p = pathOf (joinDots p)" by (rule pathOf_joinDots [OF ok [OF that(1)], symmetric])
    also have "\<dots> = take n q" unfolding n(2) by (rule pathOf_joinDots [OF segs_ok_take [OF ok [OF that(2)]]])
    finally have "p = take n q" .
    then have "prefix p q" "length p < length q" using n(1) by (simp_all add: take_is_prefix)
    then show False using that(3) by (auto simp: strict_prefix_def)
  qed
  then have "sorted_wrt (\<lambda>x y. x \<notin> set (ScopeParents y)) (CombineScopes ps rs)"
    unfolding CombineScopes_tree by (rule sorted_wrt_map_filter [OF conjunct2 [OF tree(2)]])
  moreover have "distinct (CombineScopes ps rs)"
    unfolding CombineScopes_tree using tree(2) inj by (intro distinct_filter) (simp add: distinct_map)
  moreover have "s \<in> joinDots ` set ?paths" if "s \<in> set ps \<union> set rs" for s
  proof (rule image_eqI [of _ _ "pathOf s"])
    have "take (length (pathOf s)) (pathOf s) \<in> set ?paths" using tree(1) that u by blast
    then show "pathOf s \<in> set ?paths" by simp
  qed simp
  then have "set (CombineScopes ps rs) = set ps \<union> set rs" unfolding CombineScopes_tree by auto
  ultimately show ?thesis by blast
qed

theorem combine_scopes_exact_witness:
  "set (CombineScopes [''acme'', ''''] [''acme.hr'', ''acme'']) = {''acme'', '''', ''acme.hr''}"
  using combine_scopes_exact [of "[''acme'', '''']" "[''acme.hr'', ''acme'']"] by (auto simp: scope_ok_def)

end
