(* ===== verification/Check.thy ===== *)
theory Check
  imports RuleTable
begin

text \<open>
  The evaluation of a request (\<^verbatim>\<open>internal/ruletable/check.go\<close>): variables, conditions and outputs are evaluated through a
  CEL engine, which is a parameter, and the nested loops over actions, policy types, roles, scopes and bindings decide the
  effect of every action.  The caches, the errors collected on the way and the audit trail are part of the state.
\<close>

section \<open>Requests\<close>

record PrincipalIn =
  pi_Id :: string
  pi_PolicyVersion :: string
  pi_Roles :: "string list"
  pi_Attr :: string
  pi_Scope :: string

record ResourceIn =
  ri_Kind :: string
  ri_PolicyVersion :: string
  ri_Id :: string
  ri_Attr :: string
  ri_Scope :: string

record CheckInput =
  ci_RequestId :: string
  ci_Resource :: ResourceIn
  ci_Principal :: PrincipalIn
  ci_Actions :: "string list"
  ci_AuxData :: string

text \<open>The request object that expressions see.\<close>

record Request =
  rq_Principal :: PrincipalIn
  rq_Resource :: ResourceIn
  rq_AuxData :: string

definition checkInputToRequest :: "CheckInput \<Rightarrow> Request" where
  "checkInputToRequest input =
     \<lparr>rq_Principal = (ci_Principal input)\<lparr>pi_Scope := ScopeValue (pi_Scope (ci_Principal input))\<rparr>,
      rq_Resource = (ci_Resource input)\<lparr>ri_Scope := ScopeValue (ri_Scope (ci_Resource input))\<rparr>,
      rq_AuxData = ci_AuxData input\<rparr>"

text \<open>\<open>ep_Now\<close> is the timestamp that \<^verbatim>\<open>NowFunc\<close> returns; the level at which CEL errors are logged is left out.\<close>

record EvalParams =
  ep_Globals :: vars
  ep_Now :: string
  ep_DefaultPolicyVersion :: string
  ep_DefaultScope :: string
  ep_LenientScopeSearch :: bool
  ep_StrictEvaluation :: bool

definition PolicyVersion :: "string \<Rightarrow> EvalParams \<Rightarrow> string" where
  "PolicyVersion version params = (if version = '''' then ep_DefaultPolicyVersion params else version)"

definition Scope :: "string \<Rightarrow> EvalParams \<Rightarrow> string" where
  "Scope scope params = ScopeValue (if scope = '''' then ep_DefaultScope params else scope)"

section \<open>The CEL engine\<close>

text \<open>The runtime object is computed when an expression accesses it: an error when some derived role could not be evaluated in
  strict mode, the sorted effective derived roles otherwise.\<close>

datatype RuntimeVal = RuntimeErr "string list" | RuntimeRoles "string list"

record Activation =
  ac_request :: Request
  ac_runtime :: RuntimeVal
  ac_constants :: vars
  ac_variables :: vars
  ac_globals :: vars
  ac_now :: string

text \<open>The result of a program: a value, a CEL runtime error, or a failure of the engine.\<close>

datatype EvalResult = EvalOK Val | EvalCelErr string | EvalFail string

text \<open>\<open>cw_compile\<close> compiles a source text, \<open>cw_eval\<close> runs a program, \<open>cw_convert\<close> converts a value for an output entry
  (\<open>Inl\<close> is an error message).\<close>

record CelWorld =
  cw_compile :: "string \<Rightarrow> string + string"
  cw_eval :: "string \<Rightarrow> Activation \<Rightarrow> EvalResult"
  cw_convert :: "Val \<Rightarrow> string + string"

record EvalContext =
  ec_params :: EvalParams
  ec_request :: Request
  ec_effectiveDerivedRoles :: "string list"
  ec_errDerivedRoles :: "string list"

text \<open>What an evaluation changes: the program cache and the set of CEL errors, as pairs of expression and message.\<close>

record EvalMem =
  em_programs :: ProgramCache
  em_celErrors :: "(string \<times> string) list"

definition CELErrors_Add :: "string \<Rightarrow> string \<Rightarrow> (string \<times> string) list \<Rightarrow> (string \<times> string) list" where
  "CELErrors_Add expression message errs = set_add (expression, message) errs"

definition CELErrors_All :: "(string \<times> string) list \<Rightarrow> (string \<times> string) list" where
  "CELErrors_All errs = sort_key fst (sort_key snd errs)"

definition NewEvalContext :: "EvalParams \<Rightarrow> Request \<Rightarrow> EvalContext" where
  "NewEvalContext ep request = \<lparr>ec_params = ep, ec_request = request, ec_effectiveDerivedRoles = [], ec_errDerivedRoles = []\<rparr>"

definition withEffectiveDerivedRoles :: "EvalContext \<Rightarrow> string list \<Rightarrow> string list \<Rightarrow> EvalContext" where
  "withEffectiveDerivedRoles ec roles errRoles = ec\<lparr>ec_effectiveDerivedRoles := roles, ec_errDerivedRoles := errRoles\<rparr>"

definition lazyRuntime :: "EvalContext \<Rightarrow> RuntimeVal" where
  "lazyRuntime ec =
     (if ec_errDerivedRoles ec \<noteq> [] then RuntimeErr (ec_errDerivedRoles ec)
      else RuntimeRoles (sort (ec_effectiveDerivedRoles ec)))"

definition buildEvalVars :: "EvalContext \<Rightarrow> vars \<Rightarrow> vars \<Rightarrow> Activation" where
  "buildEvalVars ec constants variables =
     \<lparr>ac_request = ec_request ec, ac_runtime = lazyRuntime ec, ac_constants = constants, ac_variables = variables,
      ac_globals = ep_Globals (ec_params ec), ac_now = ep_Now (ec_params ec)\<rparr>"

section \<open>Evaluating expressions and conditions\<close>

definition evaluateCELExpr :: "CelWorld \<Rightarrow> EvalContext \<Rightarrow> Expr \<Rightarrow> vars \<Rightarrow> vars \<Rightarrow> EvalMem \<Rightarrow> EvalResult \<times> EvalMem" where
  "evaluateCELExpr C ec expr constants variables mem =
     (case GetOrCreate (cw_compile C) expr (em_programs mem) of
        (Inl err, c) \<Rightarrow> (EvalFail err, mem\<lparr>em_programs := c\<rparr>)
      | (Inr prg, c) \<Rightarrow> (cw_eval C prg (buildEvalVars ec constants variables), mem\<lparr>em_programs := c\<rparr>))"

text \<open>A value, an error of strict evaluation, or another error.\<close>

datatype RawResult = RawVal Val | RawStrict | RawErr string

definition evaluateCELExprToRaw :: "CelWorld \<Rightarrow> EvalContext \<Rightarrow> Expr \<Rightarrow> vars \<Rightarrow> vars \<Rightarrow> EvalMem \<Rightarrow> RawResult \<times> EvalMem" where
  "evaluateCELExprToRaw C ec expr constants variables mem =
     (case evaluateCELExpr C ec expr constants variables mem of
        (EvalOK v, mem) \<Rightarrow> (RawVal v, mem)
      | (EvalCelErr err, mem) \<Rightarrow>
          (if ep_StrictEvaluation (ec_params ec) then RawStrict else RawVal NilVal,
           mem\<lparr>em_celErrors := CELErrors_Add (ex_Original expr) err (em_celErrors mem)\<rparr>)
      | (EvalFail err, mem) \<Rightarrow> (RawErr err, mem))"

text \<open>The value is \<open>None\<close> when there is an error.\<close>

definition evaluateBoolCELExpr :: "CelWorld \<Rightarrow> EvalContext \<Rightarrow> Expr \<Rightarrow> vars \<Rightarrow> vars \<Rightarrow> EvalMem \<Rightarrow> bool option \<times> EvalMem" where
  "evaluateBoolCELExpr C ec expr constants variables mem =
     (case evaluateCELExprToRaw C ec expr constants variables mem of
        (RawVal (BoolVal b), mem) \<Rightarrow> (Some b, mem)
      | (RawVal _, mem) \<Rightarrow> (Some False, mem)
      | (_, mem) \<Rightarrow> (None, mem))"

fun satisfies :: "CelWorld \<Rightarrow> EvalContext \<Rightarrow> vars \<Rightarrow> vars \<Rightarrow> Condition \<Rightarrow> EvalMem \<Rightarrow> bool option \<times> EvalMem"
  and satisfiesAll :: "CelWorld \<Rightarrow> EvalContext \<Rightarrow> vars \<Rightarrow> vars \<Rightarrow> Condition list \<Rightarrow> EvalMem \<Rightarrow> bool option \<times> EvalMem"
  and satisfiesAny :: "CelWorld \<Rightarrow> EvalContext \<Rightarrow> vars \<Rightarrow> vars \<Rightarrow> Condition list \<Rightarrow> EvalMem \<Rightarrow> bool option \<times> EvalMem" where
  "satisfies C ec k v (Cond_Expr e) mem = evaluateBoolCELExpr C ec e k v mem"
| "satisfies C ec k v (Cond_All cs) mem = satisfiesAll C ec k v cs mem"
| "satisfies C ec k v (Cond_Any cs) mem = satisfiesAny C ec k v cs mem"
| "satisfies C ec k v (Cond_None cs) mem = (case satisfiesAny C ec k v cs mem of (r, mem) \<Rightarrow> (map_option Not r, mem))"
| "satisfies C ec k v Cond_Unset mem = (None, mem)"
| "satisfiesAll C ec k v [] mem = (Some True, mem)"
| "satisfiesAll C ec k v (c # cs) mem =
     (case satisfies C ec k v c mem of
        (Some True, mem) \<Rightarrow> satisfiesAll C ec k v cs mem
      | (Some False, mem) \<Rightarrow> (Some False, mem)
      | (None, mem) \<Rightarrow> (None, mem))"
| "satisfiesAny C ec k v [] mem = (Some False, mem)"
| "satisfiesAny C ec k v (c # cs) mem =
     (case satisfies C ec k v c mem of
        (Some True, mem) \<Rightarrow> (Some True, mem)
      | (Some False, mem) \<Rightarrow> satisfiesAny C ec k v cs mem
      | (None, mem) \<Rightarrow> (None, mem))"

definition SatisfiesCondition :: "CelWorld \<Rightarrow> EvalContext \<Rightarrow> Condition option \<Rightarrow> vars \<Rightarrow> vars \<Rightarrow> EvalMem \<Rightarrow> bool option \<times> EvalMem" where
  "SatisfiesCondition C ec cond constants variables mem =
     (case cond of None \<Rightarrow> (Some True, mem) | Some c \<Rightarrow> satisfies C ec constants variables c mem)"

text \<open>Variables are evaluated in order, each seeing the ones before; the flag says whether some error is returned.\<close>

fun evaluateVariablesFrom :: "CelWorld \<Rightarrow> EvalContext \<Rightarrow> vars \<Rightarrow> Variable list \<Rightarrow> vars \<times> bool \<times> EvalMem \<Rightarrow> vars \<times> bool \<times> EvalMem" where
  "evaluateVariablesFrom C ec constants [] (evalVars, failed, mem) = (evalVars, failed, mem)"
| "evaluateVariablesFrom C ec constants (variable # rest) (evalVars, failed, mem) =
     evaluateVariablesFrom C ec constants rest
       (case evaluateCELExprToRaw C ec (var_Expr variable) constants evalVars mem of
          (RawVal val, mem) \<Rightarrow> (AList.update (var_Name variable) val evalVars, failed, mem)
        | (RawStrict, mem) \<Rightarrow> (evalVars, failed, mem)
        | (RawErr _, mem) \<Rightarrow> (evalVars, True, mem))"

definition evaluateVariables :: "CelWorld \<Rightarrow> EvalContext \<Rightarrow> vars \<Rightarrow> Variable list \<Rightarrow> EvalMem \<Rightarrow> vars option \<times> EvalMem" where
  "evaluateVariables C ec constants variables mem =
     (case evaluateVariablesFrom C ec constants variables ([], False, mem) of
        (evalVars, failed, mem) \<Rightarrow> (if failed then None else Some evalVars, mem))"

fun evaluateProgramsFrom :: "CelWorld \<Rightarrow> EvalContext \<Rightarrow> vars \<Rightarrow> CelProgram list \<Rightarrow> vars \<times> bool \<times> EvalMem \<Rightarrow> vars \<times> bool \<times> EvalMem" where
  "evaluateProgramsFrom C ec constants [] (evalVars, failed, mem) = (evalVars, failed, mem)"
| "evaluateProgramsFrom C ec constants (prg # rest) (evalVars, failed, mem) =
     evaluateProgramsFrom C ec constants rest
       (case cw_eval C (cp_Prog prg) (buildEvalVars ec constants evalVars) of
          EvalOK val \<Rightarrow> (AList.update (cp_Name prg) val evalVars, failed, mem)
        | EvalCelErr err \<Rightarrow> (evalVars, failed, mem\<lparr>em_celErrors := CELErrors_Add (cp_Expr prg) err (em_celErrors mem)\<rparr>)
        | EvalFail _ \<Rightarrow> (evalVars, True, mem))"

definition evaluatePrograms :: "CelWorld \<Rightarrow> EvalContext \<Rightarrow> vars \<Rightarrow> CelProgram list \<Rightarrow> EvalMem \<Rightarrow> vars option \<times> EvalMem" where
  "evaluatePrograms C ec constants celPrograms mem =
     (case evaluateProgramsFrom C ec constants celPrograms ([], False, mem) of
        (evalVars, failed, mem) \<Rightarrow> (if failed then None else Some evalVars, mem))"

section \<open>Outputs\<close>

text \<open>The value of an output entry or its error message.\<close>

record OutputEntry =
  oe_Src :: string
  oe_Action :: string
  oe_Val :: "string + string"

definition evaluateOutputExpr :: "CelWorld \<Rightarrow> EvalContext \<Rightarrow> Expr \<Rightarrow> vars \<Rightarrow> vars \<Rightarrow> EvalMem \<Rightarrow> (string + string) \<times> EvalMem" where
  "evaluateOutputExpr C ec expr constants variables mem =
     (case evaluateCELExpr C ec expr constants variables mem of
        (EvalOK v, mem) \<Rightarrow> (cw_convert C v, mem)
      | (EvalCelErr err, mem) \<Rightarrow> (Inl err, mem)
      | (EvalFail err, mem) \<Rightarrow> (Inl err, mem))"

definition evaluateOutput :: "CelWorld \<Rightarrow> EvalContext \<Rightarrow> string \<Rightarrow> string \<Rightarrow> Expr \<Rightarrow> vars \<Rightarrow> vars \<Rightarrow> EvalMem \<Rightarrow> OutputEntry \<times> EvalMem" where
  "evaluateOutput C ec src action expr constants variables mem =
     (case evaluateOutputExpr C ec expr constants variables mem of
        (val, mem) \<Rightarrow> (\<lparr>oe_Src = src, oe_Action = action, oe_Val = val\<rparr>, mem))"

section \<open>Results\<close>

record EffectInfo =
  ei_Policy :: string
  ei_Scope :: string
  ei_Effect :: Effect

record policyEvalResult =
  per_effects :: "(string, EffectInfo) gomap"
  per_effectiveDerivedRoles :: "string list"
  per_toResolve :: "string list"
  per_auditTrail :: "(string, string) gomap"
  per_celErrors :: "(string \<times> string) list"
  per_validationErrors :: "string list"
  per_outputs :: "OutputEntry list"
  per_actions :: "string list"

definition newEvalResult :: "string list \<Rightarrow> policyEvalResult" where
  "newEvalResult actions = \<lparr>per_effects = [], per_effectiveDerivedRoles = [], per_toResolve = fold set_add actions [],
     per_auditTrail = [], per_celErrors = [], per_validationErrors = [], per_outputs = [], per_actions = actions\<rparr>"

definition unresolvedActions :: "policyEvalResult \<Rightarrow> string list" where
  "unresolvedActions er = filter (\<lambda>a. a \<in> set (per_toResolve er)) (per_actions er)"

definition setEffect :: "string \<Rightarrow> EffectInfo \<Rightarrow> policyEvalResult \<Rightarrow> policyEvalResult" where
  "setEffect action effect er =
     (let er = er\<lparr>per_toResolve := removeAll action (per_toResolve er)\<rparr>;
          set = er\<lparr>per_effects := AList.update action effect (per_effects er)\<rparr>
      in if ei_Effect effect = EFFECT_DENY then set
         else case map_of (per_effects er) action of
             None \<Rightarrow> set
           | Some current \<Rightarrow> if ei_Effect current \<noteq> EFFECT_DENY then set else er)"

section \<open>The state of a check\<close>

record scopedDerivedRoles =
  sd_roles :: "string list"
  sd_errDerivedRoles :: "string list"

text \<open>Everything the loops share: the evaluation context in force, the memory of evaluations, the three caches and what goes
  into the result.\<close>

record CheckState =
  cs_ctx :: EvalContext
  cs_mem :: EvalMem
  cs_varCache :: "(u64, vars) gomap"
  cs_conditionCache :: "(EvaluationKeyTuple, bool) gomap"
  cs_processed :: "(string, scopedDerivedRoles) gomap"
  cs_effectiveDerivedRoles :: "string list"
  cs_outputs :: "OutputEntry list"
  cs_auditTrail :: "(string, string) gomap"

text \<open>How a check fails: the validator failed, a variable could not be evaluated, or the metadata of a policy is missing where
  its name is needed (a nil dereference).\<close>

datatype CheckErr = ErrValidation | ErrVariables | PanicNilMeta

text \<open>What a check depends on besides the table: the request's derived values.\<close>

record CheckEnv =
  ce_world :: World
  ce_cel :: CelWorld
  ce_rt :: RuleTable
  ce_input :: CheckInput
  ce_resourceScope :: string
  ce_resourceVersion :: string
  ce_resourceKind :: ResourceKind
  ce_includingParentRoles :: "string list"
  ce_scopedPrincipalExists :: bool
  ce_scopedResourceExists :: bool
  ce_principalPolicyKey :: string
  ce_resourcePolicyKey :: string
  ce_principalScopes :: "string list"
  ce_resourceScopes :: "string list"

abbreviation strictMode :: "CheckState \<Rightarrow> bool" where
  "strictMode s \<equiv> ep_StrictEvaluation (ec_params (cs_ctx s))"

section \<open>Effective derived roles of a scope\<close>

definition SetIntersects :: "string list \<Rightarrow> string list \<Rightarrow> bool" where
  "SetIntersects s1 s2 \<longleftrightarrow> (\<exists>v \<in> set s1. v = ''*'' \<or> v \<in> set s2)"

text \<open>The variables under a key of the cache, evaluated by \<open>eval\<close> when they are not there; \<open>None\<close> is an error.\<close>

definition cachedVariables :: "(EvalMem \<Rightarrow> vars option \<times> EvalMem) \<Rightarrow> u64 \<Rightarrow> CheckState \<Rightarrow> vars option \<times> CheckState" where
  "cachedVariables eval key s =
     (case map_of (cs_varCache s) key of
        Some c \<Rightarrow> (Some c, s)
      | None \<Rightarrow> (case eval (cs_mem s) of
            (None, mem) \<Rightarrow> (None, s\<lparr>cs_mem := mem\<rparr>)
          | (Some variables, mem) \<Rightarrow> (Some variables, s\<lparr>cs_mem := mem, cs_varCache := AList.update key variables (cs_varCache s)\<rparr>)))"

text \<open>One derived role of the policy in the scope.\<close>

definition addDerivedRole :: "CheckEnv \<Rightarrow> string \<Rightarrow> WrappedRunnableDerivedRole \<Rightarrow> scopedDerivedRoles \<Rightarrow> CheckState
    \<Rightarrow> CheckErr + scopedDerivedRoles \<times> CheckState" where
  "addDerivedRole E name dr sdr s =
     (if \<not> SetIntersects (dr_ParentRoles (wdr_Role dr)) (ce_includingParentRoles E) then Inr (sdr, s)
      else case cachedVariables (evaluateVariables (ce_cel E) (cs_ctx s) (wdr_Constants dr) (dr_OrderedVariables (wdr_Role dr)))
                  (wdr_VarCacheKey dr) s of
          (None, s) \<Rightarrow> Inl ErrVariables
        | (Some variables, s) \<Rightarrow>
            (case SatisfiesCondition (ce_cel E) (cs_ctx s) (dr_Condition (wdr_Role dr)) (wdr_Constants dr) variables (cs_mem s) of
               (None, mem) \<Rightarrow>
                 Inr (if strictMode s then sdr\<lparr>sd_errDerivedRoles := sd_errDerivedRoles sdr @ [name]\<rparr> else sdr, s\<lparr>cs_mem := mem\<rparr>)
             | (Some True, mem) \<Rightarrow>
                 Inr (sdr\<lparr>sd_roles := set_add name (sd_roles sdr)\<rparr>,
                      s\<lparr>cs_mem := mem, cs_effectiveDerivedRoles := set_add name (cs_effectiveDerivedRoles s)\<rparr>)
             | (Some False, mem) \<Rightarrow> Inr (sdr, s\<lparr>cs_mem := mem\<rparr>)))"

fun addDerivedRoles :: "CheckEnv \<Rightarrow> (string, WrappedRunnableDerivedRole) gomap \<Rightarrow> scopedDerivedRoles \<Rightarrow> CheckState
    \<Rightarrow> CheckErr + scopedDerivedRoles \<times> CheckState" where
  "addDerivedRoles E [] sdr s = Inr (sdr, s)"
| "addDerivedRoles E ((name, dr) # drs) sdr s =
     (case addDerivedRole E name dr sdr s of Inl err \<Rightarrow> Inl err | Inr (sdr, s) \<Rightarrow> addDerivedRoles E drs sdr s)"

definition enterScope :: "CheckEnv \<Rightarrow> string \<Rightarrow> CheckState \<Rightarrow> CheckErr + CheckState" where
  "enterScope E scope s =
     (let install = (\<lambda>sdr s. s\<lparr>cs_ctx := withEffectiveDerivedRoles (cs_ctx s) (sd_roles sdr) (sd_errDerivedRoles sdr)\<rparr>)
      in case map_of (cs_processed s) scope of
           Some sdr \<Rightarrow> Inr (install sdr s)
         | None \<Rightarrow>
             let drs = (case GetDerivedRoles (ce_world E) (ce_rt E)
                          (ResourcePolicyFQN (ri_Kind (ci_Resource (ce_input E))) (ce_resourceVersion E) scope) of None \<Rightarrow> [] | Some m \<Rightarrow> m)
             in (case addDerivedRoles E drs \<lparr>sd_roles = [], sd_errDerivedRoles = []\<rparr> s of
                   Inl err \<Rightarrow> Inl err
                 | Inr (sdr, s) \<Rightarrow>
                     let sdr = sdr\<lparr>sd_errDerivedRoles := sort (sd_errDerivedRoles sdr)\<rparr>
                     in Inr (install sdr (s\<lparr>cs_processed := AList.update scope sdr (cs_processed s)\<rparr>))))"

section \<open>One binding\<close>

text \<open>The constants and variables of a binding; nil parameters have none.\<close>

definition paramsVariables :: "CheckEnv \<Rightarrow> RowParams option \<Rightarrow> CheckState \<Rightarrow> (vars \<times> vars) option \<times> CheckState" where
  "paramsVariables E params s =
     (case params of
        None \<Rightarrow> (Some ([], []), s)
      | Some p \<Rightarrow>
          (case cachedVariables (evaluatePrograms (ce_cel E) (cs_ctx s) (rp_Constants p) (rp_CelPrograms p)) (rp_Key p) s of
             (v, s) \<Rightarrow> (map_option (\<lambda>v. (rp_Constants p, v)) v, s)))"

text \<open>Whether a binding's condition holds; it may also be skipped, be an error that denies the action in strict mode, or fail
  the request.\<close>

datatype CondOutcome = CondIs bool | CondSkip | CondStrictDeny | CondFail

definition ruleCondition :: "CheckEnv \<Rightarrow> BindingHandle \<Rightarrow> EvaluationKeyTuple \<Rightarrow> vars \<Rightarrow> vars \<Rightarrow> CheckState \<Rightarrow> CondOutcome \<times> CheckState" where
  "ruleCondition E b key constants variables s =
     (case SatisfiesCondition (ce_cel E) (cs_ctx s) (fc_Condition (b_Core b)) constants variables (cs_mem s) of
        (None, mem) \<Rightarrow> (if strictMode s then CondStrictDeny else CondSkip, s\<lparr>cs_mem := mem\<rparr>)
      | (Some sat, mem) \<Rightarrow> (CondIs sat, s\<lparr>cs_mem := mem, cs_conditionCache := AList.update key sat (cs_conditionCache s)\<rparr>))"

definition bindingCondition :: "CheckEnv \<Rightarrow> BindingHandle \<Rightarrow> EvaluationKeyTuple \<Rightarrow> vars \<Rightarrow> vars \<Rightarrow> CheckState \<Rightarrow> CondOutcome \<times> CheckState" where
  "bindingCondition E b key constants variables s =
     (case map_of (cs_conditionCache s) key of
        Some c \<Rightarrow> (CondIs c, s)
      | None \<Rightarrow>
          (case fc_DerivedRoleCondition (b_Core b) of
             None \<Rightarrow> ruleCondition E b key constants variables s
           | Some drc \<Rightarrow>
               (case paramsVariables E (fc_DerivedRoleParams (b_Core b)) s of
                  (None, s) \<Rightarrow> (CondFail, s)
                | (Some (drConstants, drVariables), s) \<Rightarrow>
                    (case SatisfiesCondition (ce_cel E) (cs_ctx s) (Some drc) drConstants drVariables (cs_mem s) of
                       (None, mem) \<Rightarrow> (if strictMode s then CondStrictDeny else CondSkip, s\<lparr>cs_mem := mem\<rparr>)
                     | (Some False, mem) \<Rightarrow> (CondSkip, s\<lparr>cs_mem := mem, cs_conditionCache := AList.update key False (cs_conditionCache s)\<rparr>)
                     | (Some True, mem) \<Rightarrow> ruleCondition E b key constants variables (s\<lparr>cs_mem := mem\<rparr>)))))"

text \<open>The output of a binding for its outcome, if it has one; the metadata of its policy gives the name of the rule.\<close>

definition bindingOutput :: "CheckEnv \<Rightarrow> BindingHandle \<Rightarrow> string \<Rightarrow> bool \<Rightarrow> vars \<Rightarrow> vars \<Rightarrow> CheckState \<Rightarrow> CheckErr + CheckState" where
  "bindingOutput E b action activated constants variables s =
     (case Option.bind (fc_EmitOutput (b_Core b)) (\<lambda>out. Option.bind (out_When out)
             (\<lambda>w. if activated then RuleActivated w else ConditionNotMet w)) of
        None \<Rightarrow> Inr s
      | Some expr \<Rightarrow>
          (case GetMeta (ce_world E) (ce_rt E) (b_OriginFqn b) of
             None \<Rightarrow> Inl PanicNilMeta
           | Some md \<Rightarrow>
               (case evaluateOutput (ce_cel E) (cs_ctx s) (metaRuleFQN md (b_Scope b) (b_Name b)) action expr constants variables (cs_mem s) of
                  (entry, mem) \<Rightarrow> Inr (s\<lparr>cs_mem := mem, cs_outputs := cs_outputs s @ [entry]\<rparr>))))"

definition auditBinding :: "CheckEnv \<Rightarrow> BindingHandle \<Rightarrow> CheckState \<Rightarrow> CheckState" where
  "auditBinding E b s =
     (case GetMeta (ce_world E) (ce_rt E) (b_OriginFqn b) of
        None \<Rightarrow> s
      | Some md \<Rightarrow> s\<lparr>cs_auditTrail := fold (\<lambda>(k, v). AList.update k v) (md_SourceAttributes md) (cs_auditTrail s)\<rparr>)"

text \<open>The state of a role's evaluation, and how a step of the inner loops ends: it goes on, it leaves the loop over scopes, it
  leaves the loop over policy types with a final effect, or the check fails.\<close>

record RoleState =
  ro_info :: EffectInfo
  ro_hasAllow :: bool

datatype StepResult = Continue RoleState | BreakScopes RoleState | BreakPolicies EffectInfo | Fail CheckErr

definition noMatchScopePermissions :: string where
  "noMatchScopePermissions = ''NO_MATCH_FOR_SCOPE_PERMISSIONS''"

definition noPolicyMatch :: string where
  "noPolicyMatch = ''NO_MATCH''"

text \<open>What a satisfied binding does to the role's state.\<close>

definition applyEffect :: "BindingHandle \<Rightarrow> string \<Rightarrow> RoleState \<Rightarrow> StepResult" where
  "applyEffect b scope r =
     (let r = (if fc_Effect (b_Core b) = EFFECT_ALLOW then r\<lparr>ro_hasAllow := True\<rparr> else r);
          info = ro_info r
      in if fc_Effect (b_Core b) = EFFECT_DENY
         then BreakScopes (r\<lparr>ro_info := info\<lparr>ei_Effect := EFFECT_DENY, ei_Scope := scope,
                ei_Policy := (if fc_FromRolePolicy (b_Core b) then PolicyKeyFromFQN (b_OriginFqn b) else ei_Policy info)\<rparr>\<rparr>)
         else if b_NoMatchForScopePermissions b
         then Continue (r\<lparr>ro_info := info\<lparr>ei_Policy := noMatchScopePermissions, ei_Scope := scope\<rparr>\<rparr>)
         else Continue r)"

definition processBinding :: "CheckEnv \<Rightarrow> string \<Rightarrow> string \<Rightarrow> BindingHandle \<Rightarrow> RoleState \<Rightarrow> CheckState \<Rightarrow> StepResult \<times> CheckState" where
  "processBinding E action scope b r s =
     (let key = rt_EvalKey (ce_rt E) (b_ID b);
          s = auditBinding E b s
      in case paramsVariables E (fc_Params (b_Core b)) s of
           (None, s) \<Rightarrow> (Fail ErrVariables, s)
         | (Some (constants, variables), s) \<Rightarrow>
             (case bindingCondition E b key constants variables s of
                (CondFail, s) \<Rightarrow> (Fail ErrVariables, s)
              | (CondSkip, s) \<Rightarrow> (Continue r, s)
              | (CondStrictDeny, s) \<Rightarrow>
                  (BreakPolicies \<lparr>ei_Policy = PolicyKeyFromFQN (b_OriginFqn b), ei_Scope = scope, ei_Effect = EFFECT_DENY\<rparr>, s)
              | (CondIs sat, s) \<Rightarrow>
                  (case bindingOutput E b action sat constants variables s of
                     Inl err \<Rightarrow> (Fail err, s)
                   | Inr s \<Rightarrow> (if sat then applyEffect b scope r else Continue r, s))))"

fun bindingsLoop :: "CheckEnv \<Rightarrow> string \<Rightarrow> string \<Rightarrow> BindingHandle list \<Rightarrow> RoleState \<Rightarrow> CheckState \<Rightarrow> StepResult \<times> CheckState" where
  "bindingsLoop E action scope [] r s = (Continue r, s)"
| "bindingsLoop E action scope (b # bs) r s =
     (case processBinding E action scope b r s of
        (Continue r, s) \<Rightarrow> bindingsLoop E action scope bs r s
      | (res, s) \<Rightarrow> (res, s))"

section \<open>Scopes, roles, policy types\<close>

text \<open>After the bindings of a scope: an allow counts unless the scope requires the consent of its parent.\<close>

definition endScope :: "CheckEnv \<Rightarrow> string \<Rightarrow> RoleState \<Rightarrow> StepResult" where
  "endScope E scope r =
     (if ro_hasAllow r
      then (case GetScopeScopePermissions (ce_rt E) scope of
          SCOPE_PERMISSIONS_REQUIRE_PARENTAL_CONSENT_FOR_ALLOWS \<Rightarrow> Continue (r\<lparr>ro_hasAllow := False\<rparr>)
        | SCOPE_PERMISSIONS_OVERRIDE_PARENT \<Rightarrow>
            BreakScopes (r\<lparr>ro_info := (ro_info r)\<lparr>ei_Effect := EFFECT_ALLOW, ei_Scope := scope\<rparr>\<rparr>)
        | SCOPE_PERMISSIONS_UNSPECIFIED \<Rightarrow> Continue r)
      else Continue r)"

definition queryBindings :: "CheckEnv \<Rightarrow> Kind \<Rightarrow> string \<Rightarrow> string \<Rightarrow> string list \<Rightarrow> BindingHandle list" where
  "queryBindings E pt action scope parentRoles =
     Query (w_ext (ce_world E)) (rt_idx (ce_rt E)) (ce_resourceVersion E) (ce_resourceKind E) scope action parentRoles pt
       (if pt = KIND_PRINCIPAL then pi_Id (ci_Principal (ce_input E)) else '''') []"

definition scopeStep :: "CheckEnv \<Rightarrow> Kind \<Rightarrow> string \<Rightarrow> string list \<Rightarrow> string \<Rightarrow> RoleState \<Rightarrow> CheckState \<Rightarrow> StepResult \<times> CheckState" where
  "scopeStep E pt action parentRoles scope r s =
     (case (if pt = KIND_RESOURCE then enterScope E scope s else Inr s) of
        Inl err \<Rightarrow> (Fail err, s)
      | Inr s \<Rightarrow>
          if ei_Effect (ro_info r) \<noteq> EFFECT_NO_MATCH then (BreakScopes r, s)
          else (case bindingsLoop E action scope (queryBindings E pt action scope parentRoles) r s of
              (Continue r, s) \<Rightarrow> (endScope E scope r, s)
            | (res, s) \<Rightarrow> (res, s)))"

fun scopesLoop :: "CheckEnv \<Rightarrow> Kind \<Rightarrow> string \<Rightarrow> string list \<Rightarrow> string list \<Rightarrow> RoleState \<Rightarrow> CheckState \<Rightarrow> StepResult \<times> CheckState" where
  "scopesLoop E pt action parentRoles [] r s = (Continue r, s)"
| "scopesLoop E pt action parentRoles (scope # scopes) r s =
     (case scopeStep E pt action parentRoles scope r s of
        (Continue r, s) \<Rightarrow> scopesLoop E pt action parentRoles scopes r s
      | (res, s) \<Rightarrow> (res, s))"

definition scopesOf :: "CheckEnv \<Rightarrow> Kind \<Rightarrow> string list" where
  "scopesOf E pt = (if pt = KIND_PRINCIPAL then ce_principalScopes E else ce_resourceScopes E)"

definition newRoleState :: "CheckEnv \<Rightarrow> Kind \<Rightarrow> RoleState" where
  "newRoleState E pt =
     \<lparr>ro_info = \<lparr>ei_Policy = (if pt = KIND_RESOURCE \<and> ce_scopedResourceExists E \<or> pt = KIND_PRINCIPAL \<and> ce_scopedPrincipalExists E
                            then (if pt = KIND_PRINCIPAL then ce_principalPolicyKey E else ce_resourcePolicyKey E) else noPolicyMatch),
                ei_Scope = '''', ei_Effect = EFFECT_NO_MATCH\<rparr>,
      ro_hasAllow = False\<rparr>"

text \<open>The effect of one role, combined with that of the roles before it; the loop over roles stops at an allow, and after the
  first role for principal policies.\<close>

definition mergeRole :: "EffectInfo \<Rightarrow> EffectInfo \<Rightarrow> EffectInfo" where
  "mergeRole action role =
     (let action = (if ei_Effect action = EFFECT_NO_MATCH then role else action)
      in if ei_Effect role = EFFECT_ALLOW then role
         else if ei_Effect role = EFFECT_DENY \<and> ei_Policy action = noMatchScopePermissions \<and> ei_Policy role \<noteq> noMatchScopePermissions
         then role else action)"

datatype RolesResult = RolesDone EffectInfo | RolesFinal EffectInfo | RolesFail CheckErr

fun rolesLoop :: "CheckEnv \<Rightarrow> Kind \<Rightarrow> string \<Rightarrow> string list \<Rightarrow> EffectInfo \<Rightarrow> CheckState \<Rightarrow> RolesResult \<times> CheckState" where
  "rolesLoop E pt action [] info s = (RolesDone info, s)"
| "rolesLoop E pt action (role # roles) info s =
     (let parentRoles = AddParentRoles (rt_idx (ce_rt E)) [ce_resourceScope E] [role];
          finish = (\<lambda>r s. let info = mergeRole info (ro_info r)
            in if ei_Effect (ro_info r) = EFFECT_ALLOW \<or> pt = KIND_PRINCIPAL then (RolesDone info, s)
               else rolesLoop E pt action roles info s)
      in case scopesLoop E pt action parentRoles (scopesOf E pt) (newRoleState E pt) s of
           (Continue r, s) \<Rightarrow> finish r s
         | (BreakScopes r, s) \<Rightarrow> finish r s
         | (BreakPolicies i, s) \<Rightarrow> (RolesFinal i, s)
         | (Fail err, s) \<Rightarrow> (RolesFail err, s))"

fun policiesLoop :: "CheckEnv \<Rightarrow> string \<Rightarrow> Kind list \<Rightarrow> EffectInfo \<Rightarrow> CheckState \<Rightarrow> (CheckErr + EffectInfo) \<times> CheckState" where
  "policiesLoop E action [] info s = (Inr info, s)"
| "policiesLoop E action (pt # pts) info s =
     (case rolesLoop E pt action (pi_Roles (ci_Principal (ce_input E))) (info\<lparr>ei_Effect := EFFECT_NO_MATCH\<rparr>) s of
        (RolesFail err, s) \<Rightarrow> (Inl err, s)
      | (RolesFinal info, s) \<Rightarrow> (Inr info, s)
      | (RolesDone info, s) \<Rightarrow>
          if ei_Effect info = EFFECT_ALLOW \<or> ei_Effect info = EFFECT_DENY then (Inr info, s)
          else policiesLoop E action pts info s)"

definition zeroEffectInfo :: EffectInfo where
  "zeroEffectInfo = \<lparr>ei_Policy = '''', ei_Scope = '''', ei_Effect = EFFECT_UNSPECIFIED\<rparr>"

definition checkAction :: "CheckEnv \<Rightarrow> string \<Rightarrow> CheckState \<Rightarrow> (CheckErr + EffectInfo) \<times> CheckState" where
  "checkAction E action s =
     (case policiesLoop E action [KIND_PRINCIPAL, KIND_RESOURCE] zeroEffectInfo s of
        (Inl err, s) \<Rightarrow> (Inl err, s)
      | (Inr info, s) \<Rightarrow> (Inr (if ei_Effect info = EFFECT_NO_MATCH then info\<lparr>ei_Effect := EFFECT_DENY\<rparr> else info), s))"

fun actionsLoop :: "CheckEnv \<Rightarrow> string list \<Rightarrow> policyEvalResult \<Rightarrow> CheckState \<Rightarrow> (CheckErr + policyEvalResult) \<times> CheckState" where
  "actionsLoop E [] result s = (Inr result, s)"
| "actionsLoop E (action # actions) result s =
     (case checkAction E action s of
        (Inl err, s) \<Rightarrow> (Inl err, s)
      | (Inr info, s) \<Rightarrow> actionsLoop E actions (setEffect action info result) s)"

section \<open>A whole request\<close>

text \<open>The schema validator: an error, or the validation errors and whether they reject the request.\<close>

type_synonym Validator = "Schemas option \<Rightarrow> CheckInput \<Rightarrow> (string list \<times> bool) option"

definition initialState :: "EvalParams \<Rightarrow> CheckInput \<Rightarrow> RuleTable \<Rightarrow> CheckState" where
  "initialState ep input rt =
     \<lparr>cs_ctx = NewEvalContext ep (checkInputToRequest input), cs_mem = \<lparr>em_programs = rt_programCache rt, em_celErrors = []\<rparr>,
      cs_varCache = [], cs_conditionCache = [], cs_processed = [], cs_effectiveDerivedRoles = [], cs_outputs = [], cs_auditTrail = []\<rparr>"

definition checkEnv :: "World \<Rightarrow> CelWorld \<Rightarrow> RuleTable \<Rightarrow> EvalParams \<Rightarrow> CheckInput \<Rightarrow> CheckEnv" where
  "checkEnv W C rt ep input =
     (let p = ci_Principal input; r = ci_Resource input;
          principalVersion = PolicyVersion (pi_PolicyVersion p) ep;
          resourceVersion = PolicyVersion (ri_PolicyVersion r) ep;
          (principalScopes, principalPolicyKey, _) =
            GetAllScopes rt KIND_PRINCIPAL (Scope (pi_Scope p) ep) (pi_Id p) principalVersion (ep_LenientScopeSearch ep);
          (resourceScopes, resourcePolicyKey, _) =
            GetAllScopes rt KIND_RESOURCE (Scope (ri_Scope r) ep) (ri_Kind r) resourceVersion (ep_LenientScopeSearch ep);
          resourceKind = NewResourceKind (ri_Kind r)
      in \<lparr>ce_world = W, ce_cel = C, ce_rt = rt, ce_input = input, ce_resourceScope = Scope (ri_Scope r) ep,
          ce_resourceVersion = resourceVersion, ce_resourceKind = resourceKind,
          ce_includingParentRoles = AddParentRoles (rt_idx rt) [Scope (ri_Scope r) ep] (pi_Roles p),
          ce_scopedPrincipalExists = ScopedPrincipalExists (rt_idx rt) principalVersion principalScopes,
          ce_scopedResourceExists = ScopedResourceExists (rt_idx rt) resourceVersion resourceKind resourceScopes,
          ce_principalPolicyKey = principalPolicyKey, ce_resourcePolicyKey = resourcePolicyKey,
          ce_principalScopes = principalScopes, ce_resourceScopes = resourceScopes\<rparr>)"

definition resourcePolicyFQN :: "RuleTable \<Rightarrow> EvalParams \<Rightarrow> CheckInput \<Rightarrow> string" where
  "resourcePolicyFQN rt ep input =
     (let r = ci_Resource input
      in snd (snd (GetAllScopes rt KIND_RESOURCE (Scope (ri_Scope r) ep) (ri_Kind r) (PolicyVersion (ri_PolicyVersion r) ep)
           (ep_LenientScopeSearch ep))))"

text \<open>The result and the program cache after the request.\<close>

definition check :: "World \<Rightarrow> CelWorld \<Rightarrow> Validator \<Rightarrow> RuleTable \<Rightarrow> EvalParams \<Rightarrow> CheckInput
    \<Rightarrow> (CheckErr + policyEvalResult) \<times> ProgramCache" where
  "check W C validate rt ep input =
     (let E = checkEnv W C rt ep input;
          result = newEvalResult (ci_Actions input);
          programs = rt_programCache rt
      in if ce_principalScopes E = [] \<and> ce_resourceScopes E = [] then (Inr result, programs)
         else case validate (GetSchema W rt (resourcePolicyFQN rt ep input)) input of
             None \<Rightarrow> (Inl ErrValidation, programs)
           | Some (errs, reject) \<Rightarrow>
               let result = (if errs \<noteq> [] then result\<lparr>per_validationErrors := errs\<rparr> else result)
               in if errs \<noteq> [] \<and> reject
                  then (Inr (fold (\<lambda>action. setEffect action \<lparr>ei_Policy = ce_resourcePolicyKey E, ei_Scope = '''', ei_Effect = EFFECT_DENY\<rparr>)
                          (ci_Actions input) result), programs)
                  else if unresolvedActions result = [] then (Inr result, programs)
                  else if \<not> ce_scopedPrincipalExists E \<and> \<not> ce_scopedResourceExists E then (Inr result, programs)
                  else (case actionsLoop E (unresolvedActions result) result (initialState ep input rt) of
                      (Inl err, s) \<Rightarrow> (Inl err, em_programs (cs_mem s))
                    | (Inr result, s) \<Rightarrow>
                        (Inr (result\<lparr>per_effectiveDerivedRoles := cs_effectiveDerivedRoles s, per_outputs := cs_outputs s,
                                per_auditTrail := cs_auditTrail s, per_celErrors := em_celErrors (cs_mem s)\<rparr>), em_programs (cs_mem s))))"

record ActionEffect =
  ae_Effect :: Effect
  ae_Policy :: string
  ae_Scope :: string

record CheckOutput =
  co_RequestId :: string
  co_ResourceId :: string
  co_Actions :: "(string, ActionEffect) gomap"
  co_EffectiveDerivedRoles :: "string list"
  co_ValidationErrors :: "string list"
  co_Outputs :: "OutputEntry list"
  co_EvaluationErrors :: "(string \<times> string) list"

definition actionEffect :: "policyEvalResult \<Rightarrow> string \<Rightarrow> ActionEffect" where
  "actionEffect result action =
     (case map_of (per_effects result) action of
        None \<Rightarrow> \<lparr>ae_Effect = EFFECT_DENY, ae_Policy = noPolicyMatch, ae_Scope = ''''\<rparr>
      | Some einfo \<Rightarrow> \<lparr>ae_Effect = ei_Effect einfo, ae_Policy = ei_Policy einfo, ae_Scope = ei_Scope einfo\<rparr>)"

definition checkWithAuditTrail :: "World \<Rightarrow> CelWorld \<Rightarrow> Validator \<Rightarrow> RuleTable \<Rightarrow> EvalParams \<Rightarrow> CheckInput
    \<Rightarrow> (CheckErr + CheckOutput \<times> (string, string) gomap) \<times> ProgramCache" where
  "checkWithAuditTrail W C validate rt ep input =
     (case check W C validate rt ep input of
        (Inl err, programs) \<Rightarrow> (Inl err, programs)
      | (Inr result, programs) \<Rightarrow>
          (Inr (\<lparr>co_RequestId = ci_RequestId input, co_ResourceId = ri_Id (ci_Resource input),
                 co_Actions = fold (\<lambda>action m. AList.update action (actionEffect result action) m) (ci_Actions input) [],
                 co_EffectiveDerivedRoles = per_effectiveDerivedRoles result, co_ValidationErrors = per_validationErrors result,
                 co_Outputs = per_outputs result, co_EvaluationErrors = CELErrors_All (per_celErrors result)\<rparr>,
                per_auditTrail result), programs))"

text \<open>Merging audit trails: a trail without policies is dropped.\<close>

definition MergeTrails :: "(string, string) gomap \<Rightarrow> (string, string) gomap \<Rightarrow> (string, string) gomap" where
  "MergeTrails a b = (if a = [] then b else if b = [] then a else fold (\<lambda>(k, v). AList.update k v) b a)"

text \<open>Several requests, one after the other, sharing the program cache.\<close>

fun checkInputs :: "World \<Rightarrow> CelWorld \<Rightarrow> Validator \<Rightarrow> EvalParams \<Rightarrow> CheckInput list \<Rightarrow> CheckOutput list \<times> (string, string) gomap \<Rightarrow> RuleTable
    \<Rightarrow> (CheckErr + CheckOutput list \<times> (string, string) gomap) \<times> RuleTable" where
  "checkInputs W C validate ep [] (outputs, trail) rt = (Inr (outputs, trail), rt)"
| "checkInputs W C validate ep (input # inputs) (outputs, trail) rt =
     (case checkWithAuditTrail W C validate rt ep input of
        (Inl err, programs) \<Rightarrow> (Inl err, rt\<lparr>rt_programCache := programs\<rparr>)
      | (Inr (out, t), programs) \<Rightarrow>
          checkInputs W C validate ep inputs (outputs @ [out], MergeTrails trail t) (rt\<lparr>rt_programCache := programs\<rparr>))"

definition Check :: "World \<Rightarrow> CelWorld \<Rightarrow> Validator \<Rightarrow> RuleTable \<Rightarrow> EvalParams \<Rightarrow> CheckInput list
    \<Rightarrow> (CheckErr + CheckOutput list \<times> (string, string) gomap) \<times> RuleTable" where
  "Check W C validate rt ep inputs = checkInputs W C validate ep inputs ([], []) rt"

end
