(* ===== verification/CheckEval.thy ===== *)
theory CheckEval
  imports Check
begin

text \<open>
  Evaluation without its caches: the program cache never changes a result, conditions compute the boolean function their
  operators stand for, and every decision is an allow or a deny.
\<close>

section \<open>The program cache is transparent\<close>

definition mem_ok :: "CelWorld \<Rightarrow> EvalMem \<Rightarrow> bool" where
  "mem_ok C mem \<longleftrightarrow> (\<forall>e p. map_of (em_programs mem) e = Some p \<longrightarrow> cw_compile C e = Inr p)"

text \<open>The result of an expression compiled afresh, and the boolean it is taken for (\<open>None\<close>: an error).\<close>

definition evalOf :: "CelWorld \<Rightarrow> EvalContext \<Rightarrow> Expr \<Rightarrow> vars \<Rightarrow> vars \<Rightarrow> EvalResult" where
  "evalOf C ec expr k v =
     (case cw_compile C (ex_Original expr) of Inl err \<Rightarrow> EvalFail err | Inr p \<Rightarrow> cw_eval C p (buildEvalVars ec k v))"

definition boolOf :: "bool \<Rightarrow> EvalResult \<Rightarrow> bool option" where
  "boolOf strict r = (case r of EvalOK (BoolVal b) \<Rightarrow> Some b | EvalOK _ \<Rightarrow> Some False
     | EvalCelErr _ \<Rightarrow> (if strict then None else Some False) | EvalFail _ \<Rightarrow> None)"

fun condOf :: "(Expr \<Rightarrow> bool option) \<Rightarrow> Condition \<Rightarrow> bool option"
  and allOf :: "(Expr \<Rightarrow> bool option) \<Rightarrow> Condition list \<Rightarrow> bool option"
  and anyOf :: "(Expr \<Rightarrow> bool option) \<Rightarrow> Condition list \<Rightarrow> bool option" where
  "condOf f (Cond_Expr e) = f e"
| "condOf f (Cond_All cs) = allOf f cs"
| "condOf f (Cond_Any cs) = anyOf f cs"
| "condOf f (Cond_None cs) = map_option Not (anyOf f cs)"
| "condOf f Cond_Unset = None"
| "allOf f [] = Some True"
| "allOf f (c # cs) = (case condOf f c of Some True \<Rightarrow> allOf f cs | Some False \<Rightarrow> Some False | None \<Rightarrow> None)"
| "anyOf f [] = Some False"
| "anyOf f (c # cs) = (case condOf f c of Some True \<Rightarrow> Some True | Some False \<Rightarrow> anyOf f cs | None \<Rightarrow> None)"

lemma evaluateCELExpr_ok:
  assumes "mem_ok C mem"
  shows "\<exists>mem'. evaluateCELExpr C ec expr k v mem = (evalOf C ec expr k v, mem') \<and> mem_ok C mem'"
  using assms
  by (auto simp: evaluateCELExpr_def GetOrCreate_def evalOf_def mem_ok_def map_of_goupdate split: option.split sum.split)

lemma evaluateCELExprToRaw_ok:
  assumes "mem_ok C mem"
  shows "\<exists>mem'. evaluateCELExprToRaw C ec expr k v mem = ((case evalOf C ec expr k v of EvalOK x \<Rightarrow> RawVal x
      | EvalCelErr _ \<Rightarrow> if ep_StrictEvaluation (ec_params ec) then RawStrict else RawVal NilVal
      | EvalFail err \<Rightarrow> RawErr err), mem') \<and> mem_ok C mem'"
proof -
  obtain mem' where "evaluateCELExpr C ec expr k v mem = (evalOf C ec expr k v, mem')" "mem_ok C mem'"
    using evaluateCELExpr_ok [OF assms] by blast
  then show ?thesis by (cases "evalOf C ec expr k v") (auto simp: evaluateCELExprToRaw_def mem_ok_def)
qed

lemma evaluateBoolCELExpr_ok:
  assumes "mem_ok C mem"
  shows "\<exists>mem'. evaluateBoolCELExpr C ec expr k v mem =
      (boolOf (ep_StrictEvaluation (ec_params ec)) (evalOf C ec expr k v), mem') \<and> mem_ok C mem'"
proof -
  obtain mem' where "evaluateCELExprToRaw C ec expr k v mem = ((case evalOf C ec expr k v of EvalOK x \<Rightarrow> RawVal x
      | EvalCelErr _ \<Rightarrow> if ep_StrictEvaluation (ec_params ec) then RawStrict else RawVal NilVal
      | EvalFail err \<Rightarrow> RawErr err), mem')" "mem_ok C mem'"
    using evaluateCELExprToRaw_ok [OF assms] by blast
  then show ?thesis by (auto simp: evaluateBoolCELExpr_def boolOf_def split: EvalResult.split Val.split)
qed

definition exprBool :: "CelWorld \<Rightarrow> EvalContext \<Rightarrow> vars \<Rightarrow> vars \<Rightarrow> Expr \<Rightarrow> bool option" where
  "exprBool C ec k v e = boolOf (ep_StrictEvaluation (ec_params ec)) (evalOf C ec e k v)"

lemma satisfies_ok:
  "mem_ok C mem \<Longrightarrow> fst (satisfies C ec k v c mem) = condOf (exprBool C ec k v) c \<and> mem_ok C (snd (satisfies C ec k v c mem))"
  "mem_ok C mem \<Longrightarrow> fst (satisfiesAll C ec k v cs mem) = allOf (exprBool C ec k v) cs \<and> mem_ok C (snd (satisfiesAll C ec k v cs mem))"
  "mem_ok C mem \<Longrightarrow> fst (satisfiesAny C ec k v cs mem) = anyOf (exprBool C ec k v) cs \<and> mem_ok C (snd (satisfiesAny C ec k v cs mem))"
proof (induction C ec k v c mem and C ec k v cs mem and C ec k v cs mem rule: satisfies_satisfiesAll_satisfiesAny.induct)
  case (1 C ec k v e mem)
  then show ?case using evaluateBoolCELExpr_ok [of C mem ec e k v] by (auto simp: exprBool_def)
next
  case (4 C ec k v cs mem)
  then show ?case by (cases "satisfiesAny C ec k v cs mem") auto
next
  case (7 C ec k v c cs mem)
  show ?case
  proof (cases "satisfies C ec k v c mem")
    case (Pair r mem')
    then show ?thesis using 7 by (cases "condOf (exprBool C ec k v) c") (auto split: bool.split)
  qed
next
  case (9 C ec k v c cs mem)
  show ?case
  proof (cases "satisfies C ec k v c mem")
    case (Pair r mem')
    then show ?thesis using 9 by (cases "condOf (exprBool C ec k v) c") (auto split: bool.split)
  qed
qed simp_all

lemma SatisfiesCondition_ok:
  assumes "mem_ok C mem"
  shows "\<exists>mem'. SatisfiesCondition C ec cond k v mem =
      (case cond of None \<Rightarrow> Some True | Some c \<Rightarrow> condOf (exprBool C ec k v) c, mem') \<and> mem_ok C mem'"
proof (cases cond)
  case None
  then show ?thesis using assms by (simp add: SatisfiesCondition_def)
next
  case (Some c)
  then show ?thesis
    using satisfies_ok(1) [OF assms, of ec k v c]
    by (cases "satisfies C ec k v c mem") (auto simp: SatisfiesCondition_def)
qed

section \<open>Conditions are boolean functions\<close>

text \<open>The meaning of a condition under a valuation of its expressions, and the expressions in it.\<close>

fun holds :: "(Expr \<Rightarrow> bool) \<Rightarrow> Condition \<Rightarrow> bool" where
  "holds f (Cond_Expr e) \<longleftrightarrow> f e"
| "holds f (Cond_All cs) \<longleftrightarrow> (\<forall>c \<in> set cs. holds f c)"
| "holds f (Cond_Any cs) \<longleftrightarrow> (\<exists>c \<in> set cs. holds f c)"
| "holds f (Cond_None cs) \<longleftrightarrow> \<not> (\<exists>c \<in> set cs. holds f c)"
| "holds f Cond_Unset \<longleftrightarrow> False"

fun exprsOf :: "Condition \<Rightarrow> Expr set" where
  "exprsOf (Cond_Expr e) = {e}"
| "exprsOf (Cond_All cs) = (\<Union>c \<in> set cs. exprsOf c)"
| "exprsOf (Cond_Any cs) = (\<Union>c \<in> set cs. exprsOf c)"
| "exprsOf (Cond_None cs) = (\<Union>c \<in> set cs. exprsOf c)"
| "exprsOf Cond_Unset = {}"

fun wellFormed :: "Condition \<Rightarrow> bool" where
  "wellFormed (Cond_Expr e) \<longleftrightarrow> True"
| "wellFormed (Cond_All cs) \<longleftrightarrow> (\<forall>c \<in> set cs. wellFormed c)"
| "wellFormed (Cond_Any cs) \<longleftrightarrow> (\<forall>c \<in> set cs. wellFormed c)"
| "wellFormed (Cond_None cs) \<longleftrightarrow> (\<forall>c \<in> set cs. wellFormed c)"
| "wellFormed Cond_Unset \<longleftrightarrow> False"

lemma condOf_holds:
  "wellFormed c \<Longrightarrow> (\<And>e. e \<in> exprsOf c \<Longrightarrow> f e = Some (g e)) \<Longrightarrow> condOf f c = Some (holds g c)"
  "(\<And>c. c \<in> set cs \<Longrightarrow> wellFormed c) \<Longrightarrow> (\<And>c e. c \<in> set cs \<Longrightarrow> e \<in> exprsOf c \<Longrightarrow> f e = Some (g e))
    \<Longrightarrow> allOf f cs = Some (\<forall>c \<in> set cs. holds g c)"
  "(\<And>c. c \<in> set cs \<Longrightarrow> wellFormed c) \<Longrightarrow> (\<And>c e. c \<in> set cs \<Longrightarrow> e \<in> exprsOf c \<Longrightarrow> f e = Some (g e))
    \<Longrightarrow> anyOf f cs = Some (\<exists>c \<in> set cs. holds g c)"
proof (induction f c and f cs and f cs rule: condOf_allOf_anyOf.induct)
  case (2 f cs)
  then show ?case by fastforce
next
  case (3 f cs)
  then show ?case by fastforce
next
  case (4 f cs)
  then show ?case by fastforce
next
  case (7 f c cs)
  have c: "condOf f c = Some (holds g c)" using 7(3,4) by (intro 7(1)) auto
  show ?case
  proof (cases "holds g c")
    case True
    then have "allOf f cs = Some (\<forall>c \<in> set cs. holds g c)" using c 7(3,4) by (intro 7(2)) auto
    then show ?thesis using c True by simp
  qed (simp add: c)
next
  case (9 f c cs)
  have c: "condOf f c = Some (holds g c)" using 9(3,4) by (intro 9(1)) auto
  show ?case
  proof (cases "holds g c")
    case False
    then have "anyOf f cs = Some (\<exists>c \<in> set cs. holds g c)" using c 9(3,4) by (intro 9(2)) auto
    then show ?thesis using c False by simp
  qed (simp add: c)
qed simp_all

text \<open>C20 (equivalence).  When none of its expressions fails, a condition evaluates to the boolean combination it denotes (all, any,
  none, nested), whatever programs are cached, and a value that is not a boolean counts as false.\<close>

theorem conditions_are_boolean:
  assumes "mem_ok C mem" and "wellFormed c" and "\<forall>e \<in> exprsOf c. \<exists>x. evalOf C ec e k v = EvalOK x"
  shows "fst (SatisfiesCondition C ec (Some c) k v mem) = Some (holds (\<lambda>e. evalOf C ec e k v = EvalOK (BoolVal True)) c)"
proof -
  have "exprBool C ec k v e = Some (evalOf C ec e k v = EvalOK (BoolVal True))" if "e \<in> exprsOf c" for e
    using assms(3) that by (auto simp: exprBool_def boolOf_def split: Val.split)
  then show ?thesis
    using SatisfiesCondition_ok [OF assms(1), of ec "Some c" k v] condOf_holds(1) [OF assms(2)] by auto
qed

definition exampleCel :: CelWorld where
  "exampleCel = \<lparr>cw_compile = Inr, cw_eval = (\<lambda>p a. EvalOK (if p = ''true'' then BoolVal True else if p = ''false'' then BoolVal False else OtherVal p)),
     cw_convert = (\<lambda>_. Inr ''v'')\<rparr>"

definition exampleParams :: EvalParams where
  "exampleParams = \<lparr>ep_Globals = [], ep_Now = [], ep_DefaultPolicyVersion = ''default'', ep_DefaultScope = [],
     ep_LenientScopeSearch = False, ep_StrictEvaluation = False\<rparr>"

definition exampleInput :: CheckInput where
  "exampleInput = \<lparr>ci_RequestId = ''1'', ci_Resource = \<lparr>ri_Kind = ''doc'', ri_PolicyVersion = [], ri_Id = ''d1'', ri_Attr = [], ri_Scope = []\<rparr>,
     ci_Principal = \<lparr>pi_Id = ''john'', pi_PolicyVersion = [], pi_Roles = [''user''], pi_Attr = [], pi_Scope = []\<rparr>,
     ci_Actions = [''view''], ci_AuxData = []\<rparr>"

theorem conditions_are_boolean_witness:
  "fst (SatisfiesCondition exampleCel (NewEvalContext exampleParams (checkInputToRequest exampleInput))
     (Some (Cond_None [Cond_Expr \<lparr>ex_Original = ''false''\<rparr>, Cond_All [Cond_Expr \<lparr>ex_Original = ''true''\<rparr>, Cond_Expr \<lparr>ex_Original = ''x''\<rparr>]]))
     [] [] \<lparr>em_programs = [], em_celErrors = []\<rparr>) = Some True"
  using conditions_are_boolean [of exampleCel "\<lparr>em_programs = [], em_celErrors = []\<rparr>"
      "Cond_None [Cond_Expr \<lparr>ex_Original = ''false''\<rparr>, Cond_All [Cond_Expr \<lparr>ex_Original = ''true''\<rparr>, Cond_Expr \<lparr>ex_Original = ''x''\<rparr>]]"
      "NewEvalContext exampleParams (checkInputToRequest exampleInput)" "[]" "[]"]
  by (simp add: mem_ok_def evalOf_def exampleCel_def)

end

