(* ===== verification/CheckSteps.thy ===== *)
theory CheckSteps
  imports CheckEval
begin

text \<open>
  A relational account of a decision: which bindings may evaluate to what, and how outcomes combine over the bindings of a
  scope, over scopes, roles and policy types.  The stateful loops of \<^verbatim>\<open>check\<close>, with their caches, are shown to follow it.
\<close>

section \<open>What a binding evaluates to\<close>

definition keyOf :: "CheckEnv \<Rightarrow> BindingHandle \<Rightarrow> EvaluationKeyTuple" where
  "keyOf E b = rt_EvalKey (ce_rt E) (b_ID b)"

text \<open>The bindings a check of the request may come across.\<close>

definition seen :: "CheckEnv \<Rightarrow> BindingHandle \<Rightarrow> bool" where
  "seen E b \<longleftrightarrow> (\<exists>pt action scope rs. b \<in> set (queryBindings E pt action scope rs))"

definition ctxOf :: "CheckEnv \<Rightarrow> EvalParams \<Rightarrow> EvalContext \<Rightarrow> bool" where
  "ctxOf E ep ec \<longleftrightarrow> ec_request ec = checkInputToRequest (ce_input E) \<and> ec_params ec = ep"

definition paramsOf :: "BindingHandle \<Rightarrow> RowParams set" where
  "paramsOf b = set_option (fc_Params (b_Core b)) \<union> set_option (fc_DerivedRoleParams (b_Core b))"

definition derivedRolesAt :: "CheckEnv \<Rightarrow> string \<Rightarrow> (string, WrappedRunnableDerivedRole) gomap" where
  "derivedRolesAt E scope = (case GetDerivedRoles (ce_world E) (ce_rt E)
     (ResourcePolicyFQN (ri_Kind (ci_Resource (ce_input E))) (ce_resourceVersion E) scope) of None \<Rightarrow> [] | Some m \<Rightarrow> m)"

text \<open>The values that may be cached for a key: the variables of a binding, or those of a derived role.\<close>

inductive varsFor :: "CheckEnv \<Rightarrow> EvalParams \<Rightarrow> u64 \<Rightarrow> vars \<Rightarrow> bool" for E ep where
  vars_params: "seen E b \<Longrightarrow> p \<in> paramsOf b \<Longrightarrow> ctxOf E ep ec \<Longrightarrow>
    evaluatePrograms (ce_cel E) ec (rp_Constants p) (rp_CelPrograms p) mem = (Some v, mem') \<Longrightarrow> varsFor E ep (rp_Key p) v"
| vars_derived: "(n, dr) \<in> set (derivedRolesAt E scope) \<Longrightarrow> ctxOf E ep ec \<Longrightarrow> mem_ok (ce_cel E) mem \<Longrightarrow>
    evaluateVariables (ce_cel E) ec (wdr_Constants dr) (dr_OrderedVariables (wdr_Role dr)) mem = (Some v, mem') \<Longrightarrow>
    varsFor E ep (wdr_VarCacheKey dr) v"

fun paramVals :: "CheckEnv \<Rightarrow> EvalParams \<Rightarrow> RowParams option \<Rightarrow> vars \<Rightarrow> vars \<Rightarrow> bool" where
  "paramVals E ep None k v \<longleftrightarrow> k = [] \<and> v = []"
| "paramVals E ep (Some p) k v \<longleftrightarrow> k = rp_Constants p \<and> varsFor E ep (rp_Key p) v"

definition condVal :: "CheckEnv \<Rightarrow> EvalContext \<Rightarrow> Condition option \<Rightarrow> vars \<Rightarrow> vars \<Rightarrow> bool option" where
  "condVal E ec cond k v = (case cond of None \<Rightarrow> Some True | Some c \<Rightarrow> condOf (exprBool (ce_cel E) ec k v) c)"

text \<open>A possible value of one of the binding's two conditions; a binding that has no derived-role condition satisfies it.\<close>

definition derivedVal :: "CheckEnv \<Rightarrow> EvalParams \<Rightarrow> BindingHandle \<Rightarrow> bool option \<Rightarrow> bool" where
  "derivedVal E ep b x \<longleftrightarrow> (case fc_DerivedRoleCondition (b_Core b) of
      None \<Rightarrow> x = Some True
    | Some c \<Rightarrow> \<exists>ec k v. ctxOf E ep ec \<and> paramVals E ep (fc_DerivedRoleParams (b_Core b)) k v \<and> x = condVal E ec (Some c) k v)"

definition ruleVal :: "CheckEnv \<Rightarrow> EvalParams \<Rightarrow> BindingHandle \<Rightarrow> bool option \<Rightarrow> bool" where
  "ruleVal E ep b x \<longleftrightarrow> (\<exists>ec k v. ctxOf E ep ec \<and> paramVals E ep (fc_Params (b_Core b)) k v \<and> x = condVal E ec (fc_Condition (b_Core b)) k v)"

definition errorOutcome :: "EvalParams \<Rightarrow> CondOutcome" where
  "errorOutcome ep = (if ep_StrictEvaluation ep then CondStrictDeny else CondSkip)"

inductive evaluates :: "CheckEnv \<Rightarrow> EvalParams \<Rightarrow> BindingHandle \<Rightarrow> CondOutcome \<Rightarrow> bool" for E ep b where
  ev_derived_err: "derivedVal E ep b None \<Longrightarrow> evaluates E ep b (errorOutcome ep)"
| ev_derived_false: "derivedVal E ep b (Some False) \<Longrightarrow> evaluates E ep b (CondIs False)"
| ev_rule_err: "derivedVal E ep b (Some True) \<Longrightarrow> ruleVal E ep b None \<Longrightarrow> evaluates E ep b (errorOutcome ep)"
| ev_rule: "derivedVal E ep b (Some True) \<Longrightarrow> ruleVal E ep b (Some c) \<Longrightarrow> evaluates E ep b (CondIs c)"

text \<open>An outcome may also come from another binding with the same evaluation key.\<close>

definition outcome :: "CheckEnv \<Rightarrow> EvalParams \<Rightarrow> BindingHandle \<Rightarrow> CondOutcome \<Rightarrow> bool" where
  "outcome E ep b out \<longleftrightarrow> evaluates E ep b out
     \<or> (\<exists>c b'. out = CondIs c \<and> seen E b' \<and> keyOf E b' = keyOf E b \<and> evaluates E ep b' (CondIs c))"

section \<open>How outcomes combine\<close>

fun outcomeResult :: "BindingHandle \<Rightarrow> string \<Rightarrow> RoleState \<Rightarrow> CondOutcome \<Rightarrow> StepResult" where
  "outcomeResult b scope r (CondIs c) = (if c then applyEffect b scope r else Continue r)"
| "outcomeResult b scope r CondSkip = Continue r"
| "outcomeResult b scope r CondStrictDeny =
     BreakPolicies \<lparr>ei_Policy = PolicyKeyFromFQN (b_OriginFqn b), ei_Scope = scope, ei_Effect = EFFECT_DENY\<rparr>"
| "outcomeResult b scope r CondFail = Fail ErrVariables"

fun isContinue :: "StepResult \<Rightarrow> bool" where
  "isContinue (Continue r) \<longleftrightarrow> True"
| "isContinue _ \<longleftrightarrow> False"

inductive evalBindings :: "(BindingHandle \<Rightarrow> CondOutcome \<Rightarrow> bool) \<Rightarrow> string \<Rightarrow> BindingHandle list \<Rightarrow> RoleState \<Rightarrow> StepResult \<Rightarrow> bool"
  for R scope where
  eb_Nil: "evalBindings R scope [] r (Continue r)"
| eb_Next: "R b out \<Longrightarrow> outcomeResult b scope r out = Continue r' \<Longrightarrow> evalBindings R scope bs r' res \<Longrightarrow> evalBindings R scope (b # bs) r res"
| eb_Stop: "R b out \<Longrightarrow> outcomeResult b scope r out = res \<Longrightarrow> \<not> isContinue res \<Longrightarrow> evalBindings R scope (b # bs) r res"

inductive evalScopes :: "(BindingHandle \<Rightarrow> CondOutcome \<Rightarrow> bool) \<Rightarrow> CheckEnv \<Rightarrow> Kind \<Rightarrow> string \<Rightarrow> string list \<Rightarrow> string list \<Rightarrow> RoleState \<Rightarrow> StepResult \<Rightarrow> bool"
  for R E pt action rs where
  es_Nil: "evalScopes R E pt action rs [] r (Continue r)"
| es_Done: "ei_Effect (ro_info r) \<noteq> EFFECT_NO_MATCH \<Longrightarrow> evalScopes R E pt action rs (scope # scopes) r (BreakScopes r)"
| es_Next: "ei_Effect (ro_info r) = EFFECT_NO_MATCH \<Longrightarrow> evalBindings R scope (queryBindings E pt action scope rs) r (Continue r1) \<Longrightarrow>
    endScope E scope r1 = Continue r2 \<Longrightarrow> evalScopes R E pt action rs scopes r2 res \<Longrightarrow> evalScopes R E pt action rs (scope # scopes) r res"
| es_Allow: "ei_Effect (ro_info r) = EFFECT_NO_MATCH \<Longrightarrow> evalBindings R scope (queryBindings E pt action scope rs) r (Continue r1) \<Longrightarrow>
    endScope E scope r1 = BreakScopes r2 \<Longrightarrow> evalScopes R E pt action rs (scope # scopes) r (BreakScopes r2)"
| es_Stop: "ei_Effect (ro_info r) = EFFECT_NO_MATCH \<Longrightarrow> evalBindings R scope (queryBindings E pt action scope rs) r res \<Longrightarrow>
    \<not> isContinue res \<Longrightarrow> evalScopes R E pt action rs (scope # scopes) r res"

definition parentRolesOf :: "CheckEnv \<Rightarrow> string \<Rightarrow> string list" where
  "parentRolesOf E role = AddParentRoles (rt_idx (ce_rt E)) [ce_resourceScope E] [role]"

inductive evalRole :: "(BindingHandle \<Rightarrow> CondOutcome \<Rightarrow> bool) \<Rightarrow> CheckEnv \<Rightarrow> Kind \<Rightarrow> string \<Rightarrow> string \<Rightarrow> RoleState \<Rightarrow> bool"
  for R E pt action role where
  er_Continue: "evalScopes R E pt action (parentRolesOf E role) (scopesOf E pt) (newRoleState E pt) (Continue r) \<Longrightarrow> evalRole R E pt action role r"
| er_Break: "evalScopes R E pt action (parentRolesOf E role) (scopesOf E pt) (newRoleState E pt) (BreakScopes r) \<Longrightarrow> evalRole R E pt action role r"

inductive evalRoles :: "(BindingHandle \<Rightarrow> CondOutcome \<Rightarrow> bool) \<Rightarrow> CheckEnv \<Rightarrow> Kind \<Rightarrow> string \<Rightarrow> string list \<Rightarrow> EffectInfo \<Rightarrow> RolesResult \<Rightarrow> bool"
  for R E pt action where
  ro_Nil: "evalRoles R E pt action [] info (RolesDone info)"
| ro_Last: "evalRole R E pt action role r \<Longrightarrow> ei_Effect (ro_info r) = EFFECT_ALLOW \<or> pt = KIND_PRINCIPAL \<Longrightarrow>
    evalRoles R E pt action (role # roles) info (RolesDone (mergeRole info (ro_info r)))"
| ro_Next: "evalRole R E pt action role r \<Longrightarrow> ei_Effect (ro_info r) \<noteq> EFFECT_ALLOW \<Longrightarrow> pt \<noteq> KIND_PRINCIPAL \<Longrightarrow>
    evalRoles R E pt action roles (mergeRole info (ro_info r)) res \<Longrightarrow> evalRoles R E pt action (role # roles) info res"
| ro_Final: "evalScopes R E pt action (parentRolesOf E role) (scopesOf E pt) (newRoleState E pt) (BreakPolicies i) \<Longrightarrow>
    evalRoles R E pt action (role # roles) info (RolesFinal i)"

definition rolesOf :: "CheckEnv \<Rightarrow> string list" where
  "rolesOf E = pi_Roles (ci_Principal (ce_input E))"

inductive evalPolicies :: "(BindingHandle \<Rightarrow> CondOutcome \<Rightarrow> bool) \<Rightarrow> CheckEnv \<Rightarrow> string \<Rightarrow> Kind list \<Rightarrow> EffectInfo \<Rightarrow> EffectInfo \<Rightarrow> bool"
  for R E action where
  ep_Nil: "evalPolicies R E action [] info info"
| ep_Final: "evalRoles R E pt action (rolesOf E) (info\<lparr>ei_Effect := EFFECT_NO_MATCH\<rparr>) (RolesFinal i) \<Longrightarrow> evalPolicies R E action (pt # pts) info i"
| ep_Decided: "evalRoles R E pt action (rolesOf E) (info\<lparr>ei_Effect := EFFECT_NO_MATCH\<rparr>) (RolesDone i) \<Longrightarrow>
    ei_Effect i = EFFECT_ALLOW \<or> ei_Effect i = EFFECT_DENY \<Longrightarrow> evalPolicies R E action (pt # pts) info i"
| ep_Next: "evalRoles R E pt action (rolesOf E) (info\<lparr>ei_Effect := EFFECT_NO_MATCH\<rparr>) (RolesDone i) \<Longrightarrow>
    ei_Effect i \<noteq> EFFECT_ALLOW \<Longrightarrow> ei_Effect i \<noteq> EFFECT_DENY \<Longrightarrow> evalPolicies R E action pts i j \<Longrightarrow> evalPolicies R E action (pt # pts) info j"

text \<open>A possible decision on an action.\<close>

definition decides :: "CheckEnv \<Rightarrow> EvalParams \<Rightarrow> string \<Rightarrow> EffectInfo \<Rightarrow> bool" where
  "decides E ep action info \<longleftrightarrow> (\<exists>i. evalPolicies (outcome E ep) E action [KIND_PRINCIPAL, KIND_RESOURCE] zeroEffectInfo i
     \<and> info = (if ei_Effect i = EFFECT_NO_MATCH then i\<lparr>ei_Effect := EFFECT_DENY\<rparr> else i))"

section \<open>The loops follow the relation\<close>

definition st_ok :: "CheckEnv \<Rightarrow> EvalParams \<Rightarrow> CheckState \<Rightarrow> bool" where
  "st_ok E ep s \<longleftrightarrow> mem_ok (ce_cel E) (cs_mem s) \<and> ctxOf E ep (cs_ctx s)
     \<and> (\<forall>key v. map_of (cs_varCache s) key = Some v \<longrightarrow> varsFor E ep key v)
     \<and> (\<forall>key c. map_of (cs_conditionCache s) key = Some c \<longrightarrow> (\<exists>b. seen E b \<and> keyOf E b = key \<and> evaluates E ep b (CondIs c)))"

lemma st_okD:
  assumes "st_ok E ep s"
  shows "mem_ok (ce_cel E) (cs_mem s)" "ctxOf E ep (cs_ctx s)" "map_of (cs_varCache s) key = Some v \<Longrightarrow> varsFor E ep key v"
    "ec_params (cs_ctx s) = ep"
  using assms by (auto simp: st_ok_def ctxOf_def)

lemma st_ok_mem [simp]: "mem_ok (ce_cel E) mem \<Longrightarrow> st_ok E ep s \<Longrightarrow> st_ok E ep (s\<lparr>cs_mem := mem\<rparr>)"
  by (simp add: st_ok_def)

lemma mem_ok_celErrors [simp]: "mem_ok C (mem\<lparr>em_celErrors := errs\<rparr>) \<longleftrightarrow> mem_ok C mem"
  by (simp add: mem_ok_def)

lemma evaluateVariables_ok:
  assumes "mem_ok C mem" and "evaluateVariables C ec k vs mem = (r, mem')"
  shows "mem_ok C mem'"
proof -
  have "mem_ok C mem \<Longrightarrow> mem_ok C (snd (snd (evaluateVariablesFrom C ec k vs (evalVars, failed, mem))))" for evalVars failed mem
  proof (induction vs arbitrary: evalVars failed mem)
    case (Cons a vs)
    obtain mem' where "evaluateCELExprToRaw C ec (var_Expr a) k evalVars mem = ((case evalOf C ec (var_Expr a) k evalVars of EvalOK x \<Rightarrow> RawVal x
        | EvalCelErr _ \<Rightarrow> if ep_StrictEvaluation (ec_params ec) then RawStrict else RawVal NilVal
        | EvalFail err \<Rightarrow> RawErr err), mem')" "mem_ok C mem'"
      using evaluateCELExprToRaw_ok [OF Cons.prems] by blast
    then show ?case using Cons.IH [of mem'] by (simp split: EvalResult.split)
  qed simp
  from this [OF assms(1), of "[]" False] show ?thesis
    using assms(2) by (simp add: evaluateVariables_def split: prod.splits if_splits)
qed

lemma evaluatePrograms_ok:
  assumes "mem_ok C mem" and "evaluatePrograms C ec k ps mem = (r, mem')"
  shows "mem_ok C mem'"
proof -
  have "mem_ok C mem \<Longrightarrow> mem_ok C (snd (snd (evaluateProgramsFrom C ec k ps (evalVars, failed, mem))))" for evalVars failed mem
  proof (induction ps arbitrary: evalVars failed mem)
    case (Cons a ps)
    then show ?case by (simp split: EvalResult.split)
  qed simp
  from this [OF assms(1), of "[]" False] show ?thesis
    using assms(2) by (simp add: evaluatePrograms_def split: prod.splits if_splits)
qed

lemma cachedVariables_ok:
  assumes "st_ok E ep s" and "cachedVariables eval key s = (r, s')"
    and mem: "\<And>v mem'. eval (cs_mem s) = (v, mem') \<Longrightarrow> mem_ok (ce_cel E) mem'"
    and val: "\<And>v mem'. eval (cs_mem s) = (Some v, mem') \<Longrightarrow> varsFor E ep key v"
  shows "st_ok E ep s' \<and> cs_ctx s' = cs_ctx s \<and> (\<forall>v. r = Some v \<longrightarrow> varsFor E ep key v)"
proof (cases "map_of (cs_varCache s) key")
  case None
  obtain v mem' where ev: "eval (cs_mem s) = (v, mem')" by (cases "eval (cs_mem s)")
  show ?thesis
  proof (cases v)
    case None': None
    then show ?thesis using assms(1,2) None ev mem [OF ev] by (auto simp: cachedVariables_def)
  next
    case (Some w)
    have "st_ok E ep (s\<lparr>cs_mem := mem', cs_varCache := AList.update key w (cs_varCache s)\<rparr>)"
      using assms(1) mem [OF ev] val [of w mem'] ev Some by (simp add: st_ok_def map_of_goupdate)
    then show ?thesis using assms(2) None ev Some val [of w mem'] by (auto simp: cachedVariables_def)
  qed
next
  case (Some w)
  then show ?thesis using assms(1,2) by (auto simp: cachedVariables_def st_ok_def)
qed

lemma SatisfiesCondition_val:
  assumes "mem_ok (ce_cel E) mem" and "SatisfiesCondition (ce_cel E) ec cond k v mem = (r, mem')"
  shows "r = condVal E ec cond k v \<and> mem_ok (ce_cel E) mem'"
  using SatisfiesCondition_ok [OF assms(1), of ec cond k v] assms(2) by (auto simp: condVal_def)

lemma addDerivedRole_ok:
  assumes "st_ok E ep s" and "(name, dr) \<in> set (derivedRolesAt E scope)" and "addDerivedRole E name dr sdr s = Inr (sdr', s')"
  shows "st_ok E ep s'"
proof (cases "SetIntersects (dr_ParentRoles (wdr_Role dr)) (ce_includingParentRoles E)")
  case False
  then show ?thesis using assms by (simp add: addDerivedRole_def)
next
  case True
  let ?eval = "evaluateVariables (ce_cel E) (cs_ctx s) (wdr_Constants dr) (dr_OrderedVariables (wdr_Role dr))"
  obtain r s1 where cv: "cachedVariables ?eval (wdr_VarCacheKey dr) s = (r, s1)" by (cases "cachedVariables ?eval (wdr_VarCacheKey dr) s")
  have s1: "st_ok E ep s1"
    using cachedVariables_ok [OF assms(1) cv] evaluateVariables_ok st_okD(1,2) [OF assms(1)] vars_derived [OF assms(2)] by blast
  obtain v where r: "r = Some v" using assms(3) True cv by (cases r) (auto simp: addDerivedRole_def)
  obtain x mem where sat: "SatisfiesCondition (ce_cel E) (cs_ctx s1) (dr_Condition (wdr_Role dr)) (wdr_Constants dr) v (cs_mem s1) = (x, mem)"
    by (cases "SatisfiesCondition (ce_cel E) (cs_ctx s1) (dr_Condition (wdr_Role dr)) (wdr_Constants dr) v (cs_mem s1)")
  have "mem_ok (ce_cel E) mem" using SatisfiesCondition_val [OF st_okD(1) [OF s1] sat] by blast
  then show ?thesis
    using assms(3) True cv r sat s1
    by (cases x) (auto simp: addDerivedRole_def st_ok_def split: bool.splits)
qed

lemma addDerivedRoles_ok:
  "st_ok E ep s \<Longrightarrow> set drs \<subseteq> set (derivedRolesAt E scope) \<Longrightarrow> addDerivedRoles E drs sdr s = Inr (sdr', s') \<Longrightarrow> st_ok E ep s'"
proof (induction drs arbitrary: sdr s)
  case (Cons d drs)
  obtain name dr where d: "d = (name, dr)" by (cases d)
  then obtain sdr1 s1 where "addDerivedRole E name dr sdr s = Inr (sdr1, s1)" "addDerivedRoles E drs sdr1 s1 = Inr (sdr', s')"
    using Cons.prems(3) by (auto split: sum.splits prod.splits)
  then show ?case using Cons addDerivedRole_ok [of E ep s name dr scope sdr sdr1 s1] d by auto
qed simp

lemma enterScope_ok:
  assumes "st_ok E ep s" and "enterScope E scope s = Inr s'"
  shows "st_ok E ep s'"
proof -
  have install: "st_ok E ep (s\<lparr>cs_ctx := withEffectiveDerivedRoles (cs_ctx s) a b\<rparr>)" if "st_ok E ep s" for s a b
    using that by (simp add: st_ok_def ctxOf_def withEffectiveDerivedRoles_def)
  show ?thesis
  proof (cases "map_of (cs_processed s) scope")
    case (Some sdr)
    then show ?thesis using assms install by (auto simp: enterScope_def Let_def)
  next
    case None
    then obtain sdr s1 where "addDerivedRoles E (derivedRolesAt E scope) \<lparr>sd_roles = [], sd_errDerivedRoles = []\<rparr> s = Inr (sdr, s1)"
      and s': "s' = s1\<lparr>cs_processed := AList.update scope (sdr\<lparr>sd_errDerivedRoles := sort (sd_errDerivedRoles sdr)\<rparr>) (cs_processed s1),
        cs_ctx := withEffectiveDerivedRoles (cs_ctx s1) (sd_roles sdr) (sort (sd_errDerivedRoles sdr))\<rparr>"
      using assms(2) by (auto simp: enterScope_def derivedRolesAt_def Let_def split: sum.splits)
    then have "st_ok E ep s1" using addDerivedRoles_ok [OF assms(1) order_refl] by blast
    then have "st_ok E ep (s1\<lparr>cs_processed := p\<rparr>)" for p by (simp add: st_ok_def)
    from install [OF this] show ?thesis unfolding s' by simp
  qed
qed

lemma paramsVariables_ok:
  assumes "st_ok E ep s" and "seen E b" and "set_option ps \<subseteq> paramsOf b" and "paramsVariables E ps s = (r, s')"
  shows "st_ok E ep s' \<and> cs_ctx s' = cs_ctx s \<and> (\<forall>k v. r = Some (k, v) \<longrightarrow> paramVals E ep ps k v)"
proof (cases ps)
  case None
  then show ?thesis using assms by (auto simp: paramsVariables_def)
next
  case (Some p)
  let ?eval = "evaluatePrograms (ce_cel E) (cs_ctx s) (rp_Constants p) (rp_CelPrograms p)"
  obtain r1 s1 where cv: "cachedVariables ?eval (rp_Key p) s = (r1, s1)" by (cases "cachedVariables ?eval (rp_Key p) s")
  have "st_ok E ep s1 \<and> cs_ctx s1 = cs_ctx s \<and> (\<forall>v. r1 = Some v \<longrightarrow> varsFor E ep (rp_Key p) v)"
  proof (rule cachedVariables_ok [OF assms(1) cv])
    show "mem_ok (ce_cel E) mem'" if "?eval (cs_mem s) = (v, mem')" for v mem'
      by (rule evaluatePrograms_ok [OF st_okD(1) [OF assms(1)] that])
    show "varsFor E ep (rp_Key p) v" if "?eval (cs_mem s) = (Some v, mem')" for v mem'
      by (rule vars_params [OF assms(2) _ st_okD(2) [OF assms(1)] that]) (use assms(3) Some in simp)
  qed
  then show ?thesis using assms(4) cv Some by (auto simp: paramsVariables_def)
qed

lemma st_ok_cache:
  assumes "st_ok E ep s" and "mem_ok (ce_cel E) mem" and "seen E b" and "evaluates E ep b (CondIs c)"
  shows "st_ok E ep (s\<lparr>cs_mem := mem, cs_conditionCache := AList.update (keyOf E b) c (cs_conditionCache s)\<rparr>)"
  using assms by (auto simp: st_ok_def map_of_goupdate)

lemma ruleCondition_ok:
  assumes "st_ok E ep s" and "seen E b" and "paramVals E ep (fc_Params (b_Core b)) k v" and "derivedVal E ep b (Some True)"
    and "ruleCondition E b (keyOf E b) k v s = (out, s')"
  shows "st_ok E ep s' \<and> evaluates E ep b out"
proof -
  obtain x mem where sat: "SatisfiesCondition (ce_cel E) (cs_ctx s) (fc_Condition (b_Core b)) k v (cs_mem s) = (x, mem)"
    by (cases "SatisfiesCondition (ce_cel E) (cs_ctx s) (fc_Condition (b_Core b)) k v (cs_mem s)")
  have x: "x = condVal E (cs_ctx s) (fc_Condition (b_Core b)) k v" "mem_ok (ce_cel E) mem"
    using SatisfiesCondition_val [OF st_okD(1) [OF assms(1)] sat] by blast+
  have rv: "ruleVal E ep b x" unfolding ruleVal_def x(1) using st_okD(2) [OF assms(1)] assms(3) by blast
  show ?thesis
  proof (cases x)
    case None
    then show ?thesis
      using assms(1,5) sat x(2) ev_rule_err [OF assms(4)] rv st_okD(4) [OF assms(1)] by (auto simp: ruleCondition_def errorOutcome_def)
  next
    case (Some c)
    then have "evaluates E ep b (CondIs c)" using ev_rule [OF assms(4)] rv by simp
    then show ?thesis using assms(5) sat Some st_ok_cache [OF assms(1) x(2) assms(2)] by (auto simp: ruleCondition_def)
  qed
qed

text \<open>A condition of a binding is skipped when a derived role's condition is false; the relation calls that outcome false.\<close>

lemma bindingCondition_ok:
  assumes "st_ok E ep s" and "seen E b" and "paramVals E ep (fc_Params (b_Core b)) k v"
    and "bindingCondition E b (keyOf E b) k v s = (out, s')" and "out \<noteq> CondFail"
  shows "st_ok E ep s' \<and> (\<exists>out'. outcome E ep b out' \<and> (\<forall>scope r. outcomeResult b scope r out = outcomeResult b scope r out'))"
proof (cases "map_of (cs_conditionCache s) (keyOf E b)")
  case (Some c)
  then have "out = CondIs c" "s' = s" using assms(4) by (auto simp: bindingCondition_def)
  moreover have "outcome E ep b (CondIs c)" using assms(1) Some by (auto simp: outcome_def st_ok_def)
  ultimately show ?thesis using assms(1) by blast
next
  case None
  have plain: ?thesis if "derivedVal E ep b (Some True)" "ruleCondition E b (keyOf E b) k v t = (out, s')" "st_ok E ep t" for t
    using ruleCondition_ok [OF that(3) assms(2,3) that(1,2)] by (auto simp: outcome_def)
  show ?thesis
  proof (cases "fc_DerivedRoleCondition (b_Core b)")
    case drc: None
    then show ?thesis using plain [of s] None assms(1,4) by (auto simp: bindingCondition_def derivedVal_def)
  next
    case drc: (Some c)
    obtain r s1 where pv: "paramsVariables E (fc_DerivedRoleParams (b_Core b)) s = (r, s1)"
      by (cases "paramsVariables E (fc_DerivedRoleParams (b_Core b)) s")
    have s1: "st_ok E ep s1" "cs_ctx s1 = cs_ctx s" "\<And>k v. r = Some (k, v) \<Longrightarrow> paramVals E ep (fc_DerivedRoleParams (b_Core b)) k v"
      using paramsVariables_ok [OF assms(1,2) _ pv] by (auto simp: paramsOf_def)
    obtain dk dv where r: "r = Some (dk, dv)" using assms(4,5) None drc pv by (cases r) (auto simp: bindingCondition_def)
    obtain x mem where sat: "SatisfiesCondition (ce_cel E) (cs_ctx s1) (Some c) dk dv (cs_mem s1) = (x, mem)"
      by (cases "SatisfiesCondition (ce_cel E) (cs_ctx s1) (Some c) dk dv (cs_mem s1)")
    have x: "x = condVal E (cs_ctx s1) (Some c) dk dv" "mem_ok (ce_cel E) mem"
      using SatisfiesCondition_val [OF st_okD(1) [OF s1(1)] sat] by blast+
    have dv: "derivedVal E ep b x"
      unfolding derivedVal_def drc option.case x(1) using st_okD(2) [OF s1(1)] s1(3) [OF r] by blast
    have s2: "st_ok E ep (s1\<lparr>cs_mem := mem\<rparr>)" using s1(1) x(2) by simp
    note bc = assms(4) [unfolded bindingCondition_def None option.case drc pv prod.case r sat]
    show ?thesis
    proof (cases x)
      case None': None
      then have "evaluates E ep b (errorOutcome ep)" using dv ev_derived_err by simp
      then show ?thesis using bc None' s2 st_okD(4) [OF s1(1)] by (auto simp: outcome_def errorOutcome_def)
    next
      case (Some y)
      show ?thesis
      proof (cases y)
        case True
        then show ?thesis using bc Some plain [OF _ _ s2] dv by simp
      next
        case False
        then have ev: "evaluates E ep b (CondIs False)" using dv Some ev_derived_false by simp
        have "out = CondSkip" "s' = s1\<lparr>cs_mem := mem, cs_conditionCache := AList.update (keyOf E b) False (cs_conditionCache s1)\<rparr>"
          using bc Some False by simp_all
        then show ?thesis
          using st_ok_cache [OF s1(1) x(2) assms(2) ev] ev by (auto simp: outcome_def intro: exI [of _ "CondIs False"])
      qed
    qed
  qed
qed

lemma bindingOutput_ok:
  assumes "st_ok E ep s" and "bindingOutput E b action activated k v s = Inr s'"
  shows "st_ok E ep s'"
proof -
  have out: "mem_ok (ce_cel E) (snd (evaluateOutput (ce_cel E) (cs_ctx s) src action expr k v (cs_mem s)))" for src expr
  proof -
    obtain mem' where "evaluateCELExpr (ce_cel E) (cs_ctx s) expr k v (cs_mem s) = (evalOf (ce_cel E) (cs_ctx s) expr k v, mem')"
      "mem_ok (ce_cel E) mem'" using evaluateCELExpr_ok [OF st_okD(1) [OF assms(1)]] by blast
    then show ?thesis by (simp add: evaluateOutput_def evaluateOutputExpr_def split: EvalResult.split)
  qed
  have frame: "st_ok E ep (s\<lparr>cs_mem := mem, cs_outputs := o1\<rparr>)" if "mem_ok (ce_cel E) mem" for mem o1
    using assms(1) that by (simp add: st_ok_def)
  let ?x = "Option.bind (fc_EmitOutput (b_Core b)) (\<lambda>out. Option.bind (out_When out)
    (\<lambda>w. if activated then RuleActivated w else ConditionNotMet w))"
  show ?thesis
  proof (cases ?x)
    case None
    then show ?thesis using assms by (simp add: bindingOutput_def)
  next
    case (Some expr)
    then obtain md where md: "GetMeta (ce_world E) (ce_rt E) (b_OriginFqn b) = Some md"
      using assms(2) by (cases "GetMeta (ce_world E) (ce_rt E) (b_OriginFqn b)") (auto simp: bindingOutput_def)
    let ?ev = "evaluateOutput (ce_cel E) (cs_ctx s) (metaRuleFQN md (b_Scope b) (b_Name b)) action expr k v (cs_mem s)"
    have "s' = s\<lparr>cs_mem := snd ?ev, cs_outputs := cs_outputs s @ [fst ?ev]\<rparr>"
      using assms(2) Some md by (cases ?ev) (simp add: bindingOutput_def)
    then show ?thesis using frame [OF out] by simp
  qed
qed

lemma auditBinding_ok: "st_ok E ep s \<Longrightarrow> st_ok E ep (auditBinding E b s)"
  by (simp add: auditBinding_def st_ok_def split: option.split)

lemma processBinding_ok:
  assumes "st_ok E ep s" and "seen E b" and "processBinding E action scope b r s = (res, s')" and "\<not> (\<exists>err. res = Fail err)"
  shows "st_ok E ep s' \<and> (\<exists>out. outcome E ep b out \<and> res = outcomeResult b scope r out)"
proof -
  let ?s0 = "auditBinding E b s"
  obtain pr s1 where pv: "paramsVariables E (fc_Params (b_Core b)) ?s0 = (pr, s1)" by (cases "paramsVariables E (fc_Params (b_Core b)) ?s0")
  have s1: "st_ok E ep s1" "\<And>k v. pr = Some (k, v) \<Longrightarrow> paramVals E ep (fc_Params (b_Core b)) k v"
    using paramsVariables_ok [OF auditBinding_ok [OF assms(1)] assms(2) _ pv] by (auto simp: paramsOf_def)
  obtain k v where pr: "pr = Some (k, v)" using assms(3,4) pv by (cases pr) (auto simp: processBinding_def Let_def)
  obtain out s2 where bc: "bindingCondition E b (keyOf E b) k v s1 = (out, s2)" by (cases "bindingCondition E b (keyOf E b) k v s1")
  note pb = assms(3) [unfolded processBinding_def Let_def pv prod.case pr option.case keyOf_def [symmetric] bc]
  have nf: "out \<noteq> CondFail" using pb assms(4) by auto
  obtain out' where s2: "st_ok E ep s2" and out': "outcome E ep b out'" "\<And>scope r. outcomeResult b scope r out = outcomeResult b scope r out'"
    using bindingCondition_ok [OF s1(1) assms(2) s1(2) [OF pr] bc nf] by blast
  have "st_ok E ep s' \<and> res = outcomeResult b scope r out"
  proof (cases out)
    case (CondIs c)
    obtain s3 where "bindingOutput E b action c k v s2 = Inr s3" "s' = s3" "res = (if c then applyEffect b scope r else Continue r)"
      using pb CondIs assms(4) by (auto split: sum.splits)
    then show ?thesis using bindingOutput_ok [OF s2] CondIs by auto
  qed (use pb s2 nf in auto)
  then show ?thesis using out' by auto
qed

lemma bindingsLoop_ok:
  assumes "st_ok E ep s" and "\<forall>b \<in> set bs. seen E b" and "bindingsLoop E action scope bs r s = (res, s')" and "\<not> (\<exists>err. res = Fail err)"
  shows "st_ok E ep s' \<and> evalBindings (outcome E ep) scope bs r res"
  using assms
proof (induction bs arbitrary: r s)
  case Nil
  then show ?case by (auto intro: eb_Nil)
next
  case (Cons b bs)
  obtain res1 s1 where pb: "processBinding E action scope b r s = (res1, s1)" by (cases "processBinding E action scope b r s")
  have nf: "\<not> (\<exists>err. res1 = Fail err)" using Cons.prems(3,4) pb by auto
  obtain out where s1: "st_ok E ep s1" and out: "outcome E ep b out" "res1 = outcomeResult b scope r out"
    using processBinding_ok [OF Cons.prems(1) _ pb nf] Cons.prems(2) by auto
  show ?case
  proof (cases "isContinue res1")
    case True
    then obtain r1 where r1: "res1 = Continue r1" by (cases res1) auto
    then show ?thesis
      using Cons.IH [OF s1, of r1] Cons.prems(2-4) pb out eb_Next [of "outcome E ep" b out scope r r1 bs res] by auto
  next
    case False
    then have "res = res1" "s' = s1" using Cons.prems(3) pb by (cases res1; auto)+
    then show ?thesis using s1 out False eb_Stop [of "outcome E ep" b out scope r res bs] by auto
  qed
qed

lemma scopesLoop_ok:
  assumes "st_ok E ep s" and "scopesLoop E pt action rs scopes r s = (res, s')" and "\<not> (\<exists>err. res = Fail err)"
  shows "st_ok E ep s' \<and> evalScopes (outcome E ep) E pt action rs scopes r res"
  using assms
proof (induction scopes arbitrary: r s)
  case Nil
  then show ?case by (auto intro: es_Nil)
next
  case (Cons scope scopes)
  let ?q = "queryBindings E pt action scope rs"
  obtain res1 s3 where st: "scopeStep E pt action rs scope r s = (res1, s3)" by (cases "scopeStep E pt action rs scope r s")
  have nf: "\<not> (\<exists>err. res1 = Fail err)" using Cons.prems(2,3) st by auto
  obtain s1 where s1: "(if pt = KIND_RESOURCE then enterScope E scope s else Inr s) = Inr s1"
    using st nf by (cases "if pt = KIND_RESOURCE then enterScope E scope s else Inr s") (auto simp: scopeStep_def)
  have ok1: "st_ok E ep s1" using s1 enterScope_ok [OF Cons.prems(1)] Cons.prems(1) by (auto split: if_splits)
  show ?case
  proof (cases "ei_Effect (ro_info r) = EFFECT_NO_MATCH")
    case False
    then have "res1 = BreakScopes r" "s3 = s1" using st s1 by (auto simp: scopeStep_def)
    then show ?thesis using Cons.prems(2) st ok1 es_Done [OF False] by auto
  next
    case unmatched: True
    obtain bres s2 where bl: "bindingsLoop E action scope ?q r s1 = (bres, s2)" by (cases "bindingsLoop E action scope ?q r s1")
    have step: "(res1, s3) = (case (bres, s2) of (Continue r, s) \<Rightarrow> (endScope E scope r, s) | (res, s) \<Rightarrow> (res, s))"
      using st s1 unmatched bl by (simp add: scopeStep_def)
    have nofail: "\<not> (\<exists>err. bres = Fail err)" using step nf by auto
    have ok2: "st_ok E ep s2" and eb: "evalBindings (outcome E ep) scope ?q r bres"
      using bindingsLoop_ok [OF ok1 _ bl nofail] by (auto simp: seen_def)
    show ?thesis
    proof (cases "isContinue bres")
      case False
      then have "res1 = bres" "s3 = s2" using step by (cases bres; simp)+
      moreover have "res = res1 \<and> s' = s3" using Cons.prems(2) st False calculation by (cases bres) auto
      ultimately show ?thesis using ok2 es_Stop [OF unmatched eb False] by simp
    next
      case True
      then obtain r1 where r1: "bres = Continue r1" by (cases bres) auto
      then have res1: "res1 = endScope E scope r1" "s3 = s2" using step by simp_all
      consider (goOn) r2 where "endScope E scope r1 = Continue r2" | (brk) r2 where "endScope E scope r1 = BreakScopes r2"
        by (cases "ro_hasAllow r1"; cases "GetScopeScopePermissions (ce_rt E) scope") (auto simp: endScope_def)
      then show ?thesis
      proof cases
        case goOn
        then have "scopesLoop E pt action rs scopes r2 s2 = (res, s')" using Cons.prems(2) st res1 by simp
        from Cons.IH [OF ok2 this Cons.prems(3)] show ?thesis using es_Next [OF unmatched _ goOn] eb r1 by blast
      next
        case brk
        then have "res = BreakScopes r2 \<and> s' = s2" using Cons.prems(2) st res1 by simp
        then show ?thesis using ok2 es_Allow [OF unmatched _ brk] eb r1 by blast
      qed
    qed
  qed
qed

lemma rolesLoop_ok:
  assumes "st_ok E ep s" and "rolesLoop E pt action roles info s = (res, s')" and "\<not> (\<exists>err. res = RolesFail err)"
  shows "st_ok E ep s' \<and> evalRoles (outcome E ep) E pt action roles info res"
  using assms
proof (induction roles arbitrary: info s)
  case Nil
  then show ?case by (auto intro: ro_Nil)
next
  case (Cons role roles)
  obtain sres s1 where sl: "scopesLoop E pt action (parentRolesOf E role) (scopesOf E pt) (newRoleState E pt) s = (sres, s1)"
    by (cases "scopesLoop E pt action (parentRolesOf E role) (scopesOf E pt) (newRoleState E pt) s")
  note loop = Cons.prems(2) [unfolded rolesLoop.simps Let_def parentRolesOf_def [symmetric] sl prod.case]
  have nf: "\<not> (\<exists>err. sres = Fail err)" using loop Cons.prems(3) by auto
  have s1: "st_ok E ep s1" and es: "evalScopes (outcome E ep) E pt action (parentRolesOf E role) (scopesOf E pt) (newRoleState E pt) sres"
    using scopesLoop_ok [OF Cons.prems(1) sl nf] by blast+
  have finish: ?case if er: "evalRole (outcome E ep) E pt action role r" and
    fin: "(if ei_Effect (ro_info r) = EFFECT_ALLOW \<or> pt = KIND_PRINCIPAL then (RolesDone (mergeRole info (ro_info r)), s1)
       else rolesLoop E pt action roles (mergeRole info (ro_info r)) s1) = (res, s')" for r
  proof (cases "ei_Effect (ro_info r) = EFFECT_ALLOW \<or> pt = KIND_PRINCIPAL")
    case True
    then show ?thesis using fin s1 ro_Last [OF er True] by auto
  next
    case False
    then show ?thesis using fin Cons.IH [OF s1] Cons.prems(3) ro_Next [OF er] by simp
  qed
  show ?case
  proof (cases sres)
    case (Continue r)
    then show ?thesis using finish [of r] er_Continue es loop by simp
  next
    case (BreakScopes r)
    then show ?thesis using finish [of r] er_Break es loop by simp
  next
    case (BreakPolicies i)
    then show ?thesis using loop s1 es ro_Final by auto
  next
    case (Fail err)
    then show ?thesis using nf by simp
  qed
qed

lemma policiesLoop_ok:
  assumes "st_ok E ep s" and "policiesLoop E action pts info s = (Inr i, s')"
  shows "st_ok E ep s' \<and> evalPolicies (outcome E ep) E action pts info i"
  using assms
proof (induction pts arbitrary: info s)
  case Nil
  then show ?case by (auto intro: ep_Nil)
next
  case (Cons pt pts)
  obtain rres s1 where rl: "rolesLoop E pt action (rolesOf E) (info\<lparr>ei_Effect := EFFECT_NO_MATCH\<rparr>) s = (rres, s1)"
    by (cases "rolesLoop E pt action (rolesOf E) (info\<lparr>ei_Effect := EFFECT_NO_MATCH\<rparr>) s")
  note loop = Cons.prems(2) [unfolded policiesLoop.simps rolesOf_def [symmetric] rl prod.case]
  have nf: "\<not> (\<exists>err. rres = RolesFail err)" using loop by auto
  have s1: "st_ok E ep s1" and er: "evalRoles (outcome E ep) E pt action (rolesOf E) (info\<lparr>ei_Effect := EFFECT_NO_MATCH\<rparr>) rres"
    using rolesLoop_ok [OF Cons.prems(1) rl nf] by blast+
  show ?case
  proof (cases rres)
    case (RolesDone j)
    show ?thesis
    proof (cases "ei_Effect j = EFFECT_ALLOW \<or> ei_Effect j = EFFECT_DENY")
      case True
      then show ?thesis using loop RolesDone s1 ep_Decided [OF er [unfolded RolesDone] True] by auto
    next
      case False
      then show ?thesis using loop RolesDone Cons.IH [OF s1, of j] ep_Next [OF er [unfolded RolesDone]] by auto
    qed
  next
    case (RolesFinal j)
    then show ?thesis using loop s1 ep_Final [OF er [unfolded RolesFinal]] by auto
  next
    case (RolesFail err)
    then show ?thesis using nf by simp
  qed
qed

lemma checkAction_ok:
  assumes "st_ok E ep s" and "checkAction E action s = (Inr info, s')"
  shows "st_ok E ep s' \<and> decides E ep action info"
proof -
  obtain r s1 where pl: "policiesLoop E action [KIND_PRINCIPAL, KIND_RESOURCE] zeroEffectInfo s = (r, s1)"
    by (cases "policiesLoop E action [KIND_PRINCIPAL, KIND_RESOURCE] zeroEffectInfo s")
  note ca = assms(2) [unfolded checkAction_def pl prod.case]
  obtain i where r: "r = Inr i" using ca by (cases r) auto
  have "st_ok E ep s1" "evalPolicies (outcome E ep) E action [KIND_PRINCIPAL, KIND_RESOURCE] zeroEffectInfo i"
    using policiesLoop_ok [OF assms(1) pl [unfolded r]] by blast+
  moreover have "info = (if ei_Effect i = EFFECT_NO_MATCH then i\<lparr>ei_Effect := EFFECT_DENY\<rparr> else i)" "s' = s1"
    using ca r by simp_all
  ultimately show ?thesis unfolding decides_def by blast
qed

lemma st_ok_initial:
  assumes "\<forall>e p. map_of (rt_programCache rt) e = Some p \<longrightarrow> cw_compile (ce_cel E) e = Inr p" and "ce_input E = input"
  shows "st_ok E ep (initialState ep input rt)"
  using assms by (simp add: st_ok_def initialState_def mem_ok_def ctxOf_def NewEvalContext_def)

section \<open>Every action is decided\<close>

definition definite :: "EffectInfo \<Rightarrow> bool" where
  "definite i \<longleftrightarrow> ei_Effect i \<in> {EFFECT_NO_MATCH, EFFECT_ALLOW, EFFECT_DENY}"

fun definiteStep :: "StepResult \<Rightarrow> bool" where
  "definiteStep (Continue r) \<longleftrightarrow> definite (ro_info r)"
| "definiteStep (BreakScopes r) \<longleftrightarrow> definite (ro_info r)"
| "definiteStep (BreakPolicies i) \<longleftrightarrow> ei_Effect i = EFFECT_DENY"
| "definiteStep (Fail err) \<longleftrightarrow> True"

lemma definite_outcomeResult: "definite (ro_info r) \<Longrightarrow> definiteStep (outcomeResult b scope r out)"
  by (cases out) (auto simp: applyEffect_def definite_def Let_def)

lemma definite_evalBindings: "evalBindings R scope bs r res \<Longrightarrow> definite (ro_info r) \<Longrightarrow> definiteStep res"
proof (induction rule: evalBindings.induct)
  case (eb_Next b out r r' bs res)
  then show ?case using definite_outcomeResult [of r b scope out] by simp
next
  case (eb_Stop b out r res bs)
  then show ?case using definite_outcomeResult [of r b scope out] by simp
qed simp

lemma definite_evalScopes: "evalScopes R E pt action rs scopes r res \<Longrightarrow> definite (ro_info r) \<Longrightarrow> definiteStep res"
proof (induction rule: evalScopes.induct)
  case (es_Next r scope r1 r2 scopes res)
  have "definite (ro_info r1)" using definite_evalBindings [OF es_Next.hyps(2) es_Next.prems] by simp
  then have "definite (ro_info r2)" using es_Next.hyps(3) by (auto simp: endScope_def definite_def split: if_splits ScopePermissions.splits)
  then show ?case using es_Next.IH by simp
next
  case (es_Allow r scope r1 r2 scopes)
  then show ?case by (auto simp: endScope_def definite_def split: if_splits ScopePermissions.splits)
next
  case (es_Stop r scope res scopes)
  then show ?case using definite_evalBindings by blast
qed simp_all

lemma definite_newRoleState: "definite (ro_info (newRoleState E pt))"
  by (simp add: newRoleState_def definite_def)

lemma definite_evalRole: "evalRole R E pt action role r \<Longrightarrow> definite (ro_info r)"
  by (auto elim!: evalRole.cases dest!: definite_evalScopes simp: definite_newRoleState)

lemma definite_mergeRole: "definite i \<Longrightarrow> definite j \<Longrightarrow> definite (mergeRole i j)"
  by (simp add: mergeRole_def Let_def)

fun definiteRoles :: "RolesResult \<Rightarrow> bool" where
  "definiteRoles (RolesDone i) \<longleftrightarrow> definite i"
| "definiteRoles (RolesFinal i) \<longleftrightarrow> ei_Effect i = EFFECT_DENY"
| "definiteRoles (RolesFail err) \<longleftrightarrow> True"

lemma definite_evalRoles: "evalRoles R E pt action roles info res \<Longrightarrow> definite info \<Longrightarrow> definiteRoles res"
proof (induction rule: evalRoles.induct)
  case (ro_Final role i roles info)
  then show ?case using definite_evalScopes [OF ro_Final.hyps definite_newRoleState] by simp
qed (auto simp: definite_mergeRole dest: definite_evalRole)

lemma definite_evalPolicies:
  "evalPolicies R E action pts info i \<Longrightarrow> pts \<noteq> [] \<or> definite info \<Longrightarrow> definite i"
proof (induction rule: evalPolicies.induct)
  case (ep_Final pt info i pts)
  then show ?case using definite_evalRoles [OF ep_Final.hyps] by (simp add: definite_def)
next
  case (ep_Decided pt info i pts)
  then show ?case by (auto simp: definite_def)
next
  case (ep_Next pt info i pts j)
  have "definiteRoles (RolesDone i)" by (rule definite_evalRoles [OF ep_Next.hyps(1)]) (simp add: definite_def)
  then show ?case using ep_Next.IH by simp
qed simp

lemma decides_definite: "decides E ep action info \<Longrightarrow> ei_Effect info = EFFECT_ALLOW \<or> ei_Effect info = EFFECT_DENY"
proof -
  assume "decides E ep action info"
  then obtain i where i: "evalPolicies (outcome E ep) E action [KIND_PRINCIPAL, KIND_RESOURCE] zeroEffectInfo i"
    and info: "info = (if ei_Effect i = EFFECT_NO_MATCH then i\<lparr>ei_Effect := EFFECT_DENY\<rparr> else i)"
    by (auto simp: decides_def)
  show ?thesis using definite_evalPolicies [OF i] by (auto simp: info definite_def)
qed

section \<open>The decisions of a request\<close>

lemma setEffect_effects:
  "map_of (per_effects (setEffect action info er)) a =
    (if a = action \<and> (ei_Effect info = EFFECT_DENY \<or> (\<forall>i. map_of (per_effects er) a = Some i \<longrightarrow> ei_Effect i \<noteq> EFFECT_DENY))
     then Some info else map_of (per_effects er) a)"
  by (auto simp: setEffect_def Let_def map_of_goupdate split: option.split)

lemma actionsLoop_ok:
  assumes "st_ok E ep s" and "actionsLoop E actions result s = (Inr result', s')"
    and "\<forall>a i. map_of (per_effects result) a = Some i \<longrightarrow> decides E ep a i"
  shows "(\<forall>a i. map_of (per_effects result') a = Some i \<longrightarrow> decides E ep a i) \<and>
    dom (map_of (per_effects result')) = dom (map_of (per_effects result)) \<union> set actions"
  using assms
proof (induction actions arbitrary: result s)
  case (Cons action actions)
  obtain r s1 where ca: "checkAction E action s = (r, s1)" by (cases "checkAction E action s")
  obtain info where r: "r = Inr info" using Cons.prems(2) ca by (cases r) auto
  note s1 = checkAction_ok [OF Cons.prems(1) ca [unfolded r]]
  let ?res = "setEffect action info result"
  have "\<forall>a i. map_of (per_effects ?res) a = Some i \<longrightarrow> decides E ep a i"
    using Cons.prems(3) s1 by (simp add: setEffect_effects)
  moreover have "dom (map_of (per_effects ?res)) = insert action (dom (map_of (per_effects result)))"
    by (auto simp: setEffect_effects dom_def)
  ultimately show ?case using Cons.IH [OF conjunct1 [OF s1], of ?res] Cons.prems(2) ca r by auto
qed simp

text \<open>The effects of a result: nothing was evaluated, validation denied everything, or the loops decided.\<close>

definition denyInfo :: "string \<Rightarrow> EffectInfo" where
  "denyInfo policy = \<lparr>ei_Policy = policy, ei_Scope = '''', ei_Effect = EFFECT_DENY\<rparr>"

lemma check_shape:
  assumes "check W C validate rt ep input = (Inr result, programs)"
  shows "\<exists>er. per_effects er = [] \<and> (per_effects result = []
    \<or> (\<exists>policy. result = fold (\<lambda>a. setEffect a (denyInfo policy)) (ci_Actions input) er)
    \<or> (\<exists>er' s. actionsLoop (checkEnv W C rt ep input) (unresolvedActions er) er (initialState ep input rt) = (Inr er', s)
        \<and> per_effects result = per_effects er'))"
proof (cases "ce_principalScopes (checkEnv W C rt ep input) = [] \<and> ce_resourceScopes (checkEnv W C rt ep input) = []")
  case True
  then have "result = newEvalResult (ci_Actions input)" using assms by (simp add: check_def Let_def)
  then have "per_effects result = []" by (simp add: newEvalResult_def)
  then show ?thesis by blast
next
  case False
  then obtain errs reject where v: "validate (GetSchema W rt (resourcePolicyFQN rt ep input)) input = Some (errs, reject)"
    using assms by (cases "validate (GetSchema W rt (resourcePolicyFQN rt ep input)) input") (auto simp: check_def Let_def)
  define er where "er = (if errs \<noteq> [] then (newEvalResult (ci_Actions input))\<lparr>per_validationErrors := errs\<rparr> else newEvalResult (ci_Actions input))"
  have er: "per_effects er = []" by (simp add: er_def newEvalResult_def)
  obtain r s where loop: "actionsLoop (checkEnv W C rt ep input) (unresolvedActions er) er (initialState ep input rt) = (r, s)"
    by (cases "actionsLoop (checkEnv W C rt ep input) (unresolvedActions er) er (initialState ep input rt)")
  have c: "check W C validate rt ep input =
    (if errs \<noteq> [] \<and> reject then (Inr (fold (\<lambda>a. setEffect a (denyInfo (ce_resourcePolicyKey (checkEnv W C rt ep input)))) (ci_Actions input) er), rt_programCache rt)
     else if unresolvedActions er = [] then (Inr er, rt_programCache rt)
     else if \<not> ce_scopedPrincipalExists (checkEnv W C rt ep input) \<and> \<not> ce_scopedResourceExists (checkEnv W C rt ep input) then (Inr er, rt_programCache rt)
     else (case r of Inl err \<Rightarrow> (Inl err, em_programs (cs_mem s)) | Inr er' \<Rightarrow>
       (Inr (er'\<lparr>per_effectiveDerivedRoles := cs_effectiveDerivedRoles s, per_outputs := cs_outputs s,
          per_auditTrail := cs_auditTrail s, per_celErrors := em_celErrors (cs_mem s)\<rparr>), em_programs (cs_mem s))))"
    using False unfolding check_def Let_def v option.case prod.case er_def [symmetric] loop denyInfo_def by (simp only: if_False)
  have "per_effects result = [] \<or> (\<exists>policy. result = fold (\<lambda>a. setEffect a (denyInfo policy)) (ci_Actions input) er)
    \<or> (\<exists>er'. r = Inr er' \<and> per_effects result = per_effects er')"
    using assms er unfolding c by (cases r) (auto split: if_splits)
  then show ?thesis using er loop by blast
qed

lemma rejected_effects:
  assumes "per_effects er = []"
    and "map_of (per_effects (fold (\<lambda>a. setEffect a (denyInfo policy)) actions er)) action = Some i"
  shows "ei_Effect i = EFFECT_DENY"
proof -
  have "\<forall>a j. map_of (per_effects (fold (\<lambda>a. setEffect a (denyInfo policy)) actions er)) a = Some j \<longrightarrow> ei_Effect j = EFFECT_DENY"
    by (rule fold_inv) (auto simp: assms(1) setEffect_effects denyInfo_def split: if_splits)
  then show ?thesis using assms(2) by blast
qed

lemma check_cases:
  assumes "check W C validate rt ep input = (Inr result, programs)"
    and "\<forall>e p. map_of (rt_programCache rt) e = Some p \<longrightarrow> cw_compile C e = Inr p"
    and "map_of (per_effects result) action = Some i"
  shows "ei_Effect i = EFFECT_DENY \<or> decides (checkEnv W C rt ep input) ep action i"
proof -
  let ?E = "checkEnv W C rt ep input"
  have E: "ce_cel ?E = C" "ce_input ?E = input" by (simp_all add: checkEnv_def Let_def split_beta)
  obtain er where er: "per_effects er = []" and shape: "(\<exists>policy. result = fold (\<lambda>a. setEffect a (denyInfo policy)) (ci_Actions input) er)
      \<or> (\<exists>er' s. actionsLoop ?E (unresolvedActions er) er (initialState ep input rt) = (Inr er', s) \<and> per_effects result = per_effects er')"
    using check_shape [OF assms(1)] assms(3) by auto
  from shape show ?thesis
  proof
    assume "\<exists>policy. result = fold (\<lambda>a. setEffect a (denyInfo policy)) (ci_Actions input) er"
    then show ?thesis using rejected_effects [OF er] assms(3) by blast
  next
    assume "\<exists>er' s. actionsLoop ?E (unresolvedActions er) er (initialState ep input rt) = (Inr er', s) \<and> per_effects result = per_effects er'"
    then obtain er' s where l: "actionsLoop ?E (unresolvedActions er) er (initialState ep input rt) = (Inr er', s)"
      "per_effects result = per_effects er'" by blast
    have "st_ok ?E ep (initialState ep input rt)" using st_ok_initial [of rt ?E input ep] assms(2) E by simp
    from actionsLoop_ok [OF this l(1)] show ?thesis using er l(2) assms(3) by simp
  qed
qed

end

