(* ===== verification/CheckProps.thy ===== *)
theory CheckProps
  imports CheckSteps
begin

text \<open>
  What a decision guarantees: every requested action gets one, an allow has a row behind it, and a denial that cannot be avoided
  is kept.  The examples build a table from a compiled policy and check a request against it.
\<close>

section \<open>What stands behind an allow\<close>

text \<open>The rows a check of the action looks at in a scope, among them those that allow, under a condition that may hold.\<close>

definition consulted :: "CheckEnv \<Rightarrow> Kind \<Rightarrow> string \<Rightarrow> string list \<Rightarrow> string \<Rightarrow> BindingHandle \<Rightarrow> bool" where
  "consulted E pt action rs scope b \<longleftrightarrow> b \<in> set (rt_GetAllRows (ce_rt E))
     \<and> rowSel (ext_compile (w_ext (ce_world E))) (ce_resourceVersion E) (ce_resourceKind E) scope rs pt
         (if pt = KIND_PRINCIPAL then pi_Id (ci_Principal (ce_input E)) else '''') b
     \<and> actionSel (ext_compile (w_ext (ce_world E))) action b"

definition grants :: "(BindingHandle \<Rightarrow> CondOutcome \<Rightarrow> bool) \<Rightarrow> CheckEnv \<Rightarrow> Kind \<Rightarrow> string \<Rightarrow> string list \<Rightarrow> string \<Rightarrow> bool" where
  "grants R E pt action rs scope \<longleftrightarrow> (\<exists>b. consulted E pt action rs scope b \<and> fc_Effect (b_Core b) = EFFECT_ALLOW \<and> R b (CondIs True))"

text \<open>No denial of the scope is certain: each may be unsatisfied or fail to evaluate.\<close>

definition passes :: "(BindingHandle \<Rightarrow> CondOutcome \<Rightarrow> bool) \<Rightarrow> CheckEnv \<Rightarrow> Kind \<Rightarrow> string \<Rightarrow> string list \<Rightarrow> string \<Rightarrow> bool" where
  "passes R E pt action rs scope \<longleftrightarrow> (\<forall>b \<in> set (queryBindings E pt action scope rs). fc_Effect (b_Core b) = EFFECT_DENY \<longrightarrow>
     (\<exists>out. R b out \<and> out \<noteq> CondIs True \<and> out \<noteq> CondStrictDeny))"

definition permOf :: "CheckEnv \<Rightarrow> string \<Rightarrow> ScopePermissions" where
  "permOf E scope = GetScopeScopePermissions (ce_rt E) scope"

text \<open>An allow found before these scopes takes effect in one of them, or one of them has an allow that does.\<close>

fun carries :: "(BindingHandle \<Rightarrow> CondOutcome \<Rightarrow> bool) \<Rightarrow> CheckEnv \<Rightarrow> Kind \<Rightarrow> string \<Rightarrow> string list \<Rightarrow> string list \<Rightarrow> bool" where
  "carries R E pt action rs [] \<longleftrightarrow> False"
| "carries R E pt action rs (scope # scopes) \<longleftrightarrow> passes R E pt action rs scope
     \<and> (permOf E scope = SCOPE_PERMISSIONS_OVERRIDE_PARENT
        \<or> permOf E scope = SCOPE_PERMISSIONS_UNSPECIFIED \<and> carries R E pt action rs scopes)"

fun permitted :: "(BindingHandle \<Rightarrow> CondOutcome \<Rightarrow> bool) \<Rightarrow> CheckEnv \<Rightarrow> Kind \<Rightarrow> string \<Rightarrow> string list \<Rightarrow> string list \<Rightarrow> bool" where
  "permitted R E pt action rs [] \<longleftrightarrow> False"
| "permitted R E pt action rs (scope # scopes) \<longleftrightarrow> passes R E pt action rs scope
     \<and> (grants R E pt action rs scope
          \<and> (permOf E scope = SCOPE_PERMISSIONS_OVERRIDE_PARENT
             \<or> permOf E scope = SCOPE_PERMISSIONS_UNSPECIFIED \<and> carries R E pt action rs scopes)
        \<or> permitted R E pt action rs scopes)"

lemma deniesForRole_effect: "d \<in> set (deniesForRole compile reps matched resource actions role) \<Longrightarrow> fc_Effect (b_Core d) \<noteq> EFFECT_ALLOW"
  by (auto simp: deniesForRole_def newNoMatchRolePolicyDeny_def rolePolicyAllowBinding_def zeroCore_def map_filter_def Let_def
      split: option.splits if_splits)

lemma queryBindings_allow:
  assumes "bi_inv (ext_compile (w_ext (ce_world E))) (ix_bi (rt_idx (ce_rt E)))"
    and "b \<in> set (queryBindings E pt action scope rs)" and "fc_Effect (b_Core b) = EFFECT_ALLOW"
  shows "consulted E pt action rs scope b"
proof -
  have "b \<notin> set (scanDenies compile bs resources roles actions P Q)" for compile bs resources roles actions P Q
    using assms(3) by (auto simp: scanDenies_def Let_def split_beta dest: deniesForRole_effect)
  then show ?thesis
    using assms(2) unfolding queryBindings_def Query_scan [OF assms(1)] consulted_def rt_GetAllRows_def
    by (auto simp: scanQuery_def Let_def split: if_splits)
qed

lemma evalBindings_allow:
  "evalBindings R scope bs r res \<Longrightarrow> res = Continue r' \<or> res = BreakScopes r' \<Longrightarrow>
   (ei_Effect (ro_info r') = EFFECT_ALLOW \<longrightarrow> ei_Effect (ro_info r) = EFFECT_ALLOW)
   \<and> (ro_hasAllow r' \<longrightarrow> ro_hasAllow r \<or> (\<exists>b \<in> set bs. fc_Effect (b_Core b) = EFFECT_ALLOW \<and> R b (CondIs True)))
   \<and> (res = Continue r' \<longrightarrow> (\<forall>b \<in> set bs. fc_Effect (b_Core b) = EFFECT_DENY \<longrightarrow> (\<exists>out. R b out \<and> out \<noteq> CondIs True \<and> out \<noteq> CondStrictDeny)))"
proof (induction arbitrary: r' rule: evalBindings.induct)
  case (eb_Next b out r r1 bs res)
  have step: "(ei_Effect (ro_info r1) = EFFECT_ALLOW \<longrightarrow> ei_Effect (ro_info r) = EFFECT_ALLOW)
    \<and> (ro_hasAllow r1 \<longrightarrow> ro_hasAllow r \<or> fc_Effect (b_Core b) = EFFECT_ALLOW \<and> out = CondIs True)
    \<and> (fc_Effect (b_Core b) = EFFECT_DENY \<longrightarrow> out \<noteq> CondIs True \<and> out \<noteq> CondStrictDeny)"
    using eb_Next.hyps(2) by (cases out) (auto simp: applyEffect_def Let_def split: if_splits)
  then show ?case using eb_Next.IH [OF eb_Next.prems] eb_Next.hyps(1) by (auto; blast)
next
  case (eb_Stop b out r res bs)
  then show ?case by (cases out) (auto simp: applyEffect_def Let_def split: if_splits)
qed auto

lemma evalScopes_allow:
  assumes "bi_inv (ext_compile (w_ext (ce_world E))) (ix_bi (rt_idx (ce_rt E)))"
  shows "evalScopes R E pt action rs scopes r res \<Longrightarrow> res = Continue r' \<or> res = BreakScopes r' \<Longrightarrow>
    ei_Effect (ro_info r') = EFFECT_ALLOW \<Longrightarrow> ei_Effect (ro_info r) \<noteq> EFFECT_ALLOW \<Longrightarrow>
    permitted R E pt action rs scopes \<or> ro_hasAllow r \<and> carries R E pt action rs scopes"
proof (induction rule: evalScopes.induct)
  case (es_Next r scope r1 r2 scopes res)
  note B = evalBindings_allow [OF es_Next.hyps(2), of r1, simplified]
  have pass: "passes R E pt action rs scope" using B by (auto simp: passes_def)
  have hasAllow: "ro_hasAllow r1 \<Longrightarrow> ro_hasAllow r \<or> grants R E pt action rs scope"
    using B queryBindings_allow [OF assms] unfolding grants_def by blast
  have r2: "ei_Effect (ro_info r2) \<noteq> EFFECT_ALLOW" "ro_hasAllow r2 \<Longrightarrow> ro_hasAllow r1 \<and> permOf E scope = SCOPE_PERMISSIONS_UNSPECIFIED"
    using es_Next.hyps(3) B es_Next.hyps(1) by (auto simp: endScope_def permOf_def split: if_splits ScopePermissions.splits)
  from es_Next.IH [OF es_Next.prems(1,2) r2(1)] show ?case using pass hasAllow r2(2) by auto
next
  case (es_Allow r scope r1 r2 scopes)
  note B = evalBindings_allow [OF es_Allow.hyps(2), of r1, simplified]
  have pass: "passes R E pt action rs scope" using B by (auto simp: passes_def)
  have "ro_hasAllow r1" "permOf E scope = SCOPE_PERMISSIONS_OVERRIDE_PARENT"
    using es_Allow.hyps(3) by (auto simp: endScope_def permOf_def split: if_splits ScopePermissions.splits)
  moreover from this(1) have "ro_hasAllow r \<or> grants R E pt action rs scope"
    using B queryBindings_allow [OF assms] unfolding grants_def by blast
  ultimately show ?case using pass by auto
next
  case (es_Stop r scope res scopes)
  then show ?case using evalBindings_allow [OF es_Stop.hyps(2) es_Stop.prems(1)] by auto
qed auto

lemma mergeRole_allow: "ei_Effect (mergeRole i j) = EFFECT_ALLOW \<Longrightarrow> ei_Effect i = EFFECT_ALLOW \<or> ei_Effect j = EFFECT_ALLOW"
  by (auto simp: mergeRole_def Let_def split: if_splits)

definition justified :: "(BindingHandle \<Rightarrow> CondOutcome \<Rightarrow> bool) \<Rightarrow> CheckEnv \<Rightarrow> Kind \<Rightarrow> string \<Rightarrow> bool" where
  "justified R E pt action \<longleftrightarrow> (\<exists>role \<in> set (rolesOf E). permitted R E pt action (parentRolesOf E role) (scopesOf E pt))"

lemma evalRole_allow:
  assumes "bi_inv (ext_compile (w_ext (ce_world E))) (ix_bi (rt_idx (ce_rt E)))"
    and "evalRole R E pt action role r" and "ei_Effect (ro_info r) = EFFECT_ALLOW"
  shows "permitted R E pt action (parentRolesOf E role) (scopesOf E pt)"
  using assms(2) evalScopes_allow [OF assms(1) _ _ assms(3)] by (cases) (fastforce simp: newRoleState_def)+

lemma evalRoles_allow:
  assumes "bi_inv (ext_compile (w_ext (ce_world E))) (ix_bi (rt_idx (ce_rt E)))"
  shows "evalRoles R E pt action roles info res \<Longrightarrow> res = RolesDone i \<Longrightarrow> ei_Effect i = EFFECT_ALLOW \<Longrightarrow> ei_Effect info \<noteq> EFFECT_ALLOW \<Longrightarrow>
    \<exists>role \<in> set roles. permitted R E pt action (parentRolesOf E role) (scopesOf E pt)"
proof (induction rule: evalRoles.induct)
  case (ro_Last role r roles info)
  then show ?case using mergeRole_allow [of info "ro_info r"] evalRole_allow [OF assms ro_Last.hyps(1)] by auto
next
  case (ro_Next role r roles info res)
  then show ?case using mergeRole_allow [of info "ro_info r"] evalRole_allow [OF assms ro_Next.hyps(1)] by auto
qed auto

lemma evalPolicies_allow:
  assumes "bi_inv (ext_compile (w_ext (ce_world E))) (ix_bi (rt_idx (ce_rt E)))"
  shows "evalPolicies R E action pts info i \<Longrightarrow> ei_Effect i = EFFECT_ALLOW \<Longrightarrow> ei_Effect info \<noteq> EFFECT_ALLOW \<Longrightarrow>
    \<exists>pt \<in> set pts. justified R E pt action"
proof (induction rule: evalPolicies.induct)
  case (ep_Final pt info i pts)
  have "definiteRoles (RolesFinal i)" by (rule definite_evalRoles [OF ep_Final.hyps]) (simp add: definite_def)
  then show ?case using ep_Final.prems by simp
next
  case (ep_Decided pt info i pts)
  then show ?case using evalRoles_allow [OF assms ep_Decided.hyps(1)] by (simp add: justified_def)
qed auto

section \<open>The decisions of a check\<close>

lemma co_Actions_lookup:
  "map_of (fold (\<lambda>action m. AList.update action (f action) m) actions m) a = (if a \<in> set actions then Some (f a) else map_of m a)"
  by (induction actions arbitrary: m) (auto simp: map_of_goupdate)

lemma checkWithAuditTrail_actions:
  assumes "checkWithAuditTrail W C validate rt ep input = (Inr (out, trail), programs)"
  obtains result where "check W C validate rt ep input = (Inr result, programs)"
    "\<And>a. map_of (co_Actions out) a = (if a \<in> set (ci_Actions input) then Some (actionEffect result a) else None)"
  using assms by (auto simp: checkWithAuditTrail_def co_Actions_lookup split: prod.splits sum.splits)

text \<open>C2 (type).  A check that returns gives every requested action, and no other, an effect, and the effect is always allow or
  deny: no internal effect such as the one for no match escapes, whatever the policies, the expressions and the cached programs.\<close>

theorem every_action_decided:
  assumes "checkWithAuditTrail W C validate rt ep input = (Inr (out, trail), programs)"
    and "\<forall>e p. map_of (rt_programCache rt) e = Some p \<longrightarrow> cw_compile C e = Inr p"
  shows "dom (map_of (co_Actions out)) = set (ci_Actions input)
    \<and> ae_Effect ` ran (map_of (co_Actions out)) \<subseteq> {EFFECT_ALLOW, EFFECT_DENY}"
proof -
  obtain result where r: "check W C validate rt ep input = (Inr result, programs)"
    and acts: "\<And>a. map_of (co_Actions out) a = (if a \<in> set (ci_Actions input) then Some (actionEffect result a) else None)"
    using checkWithAuditTrail_actions [OF assms(1)] by blast
  have "ae_Effect e = EFFECT_ALLOW \<or> ae_Effect e = EFFECT_DENY" if "map_of (co_Actions out) action = Some e" for action e
    using that check_cases [OF r assms(2)] decides_definite
    by (fastforce simp: acts actionEffect_def split: if_splits option.splits)
  moreover have "dom (map_of (co_Actions out)) = set (ci_Actions input)" by (auto simp: dom_def acts)
  ultimately show ?thesis by (auto simp: ran_def)
qed

text \<open>C1 (safety).  An allow is always justified: for one of the principal's roles, some row of the table that is selected for the
  request (its scope, version, resource, role, principal and action match) allows the action under a condition that may hold;
  the allow took effect in a scope that overrides its parents, reached without passing a scope that requires parental consent;
  and no scope passed on the way has a denial that is certain to be satisfied.\<close>

theorem allow_is_justified:
  assumes "checkWithAuditTrail W C validate rt ep input = (Inr (out, trail), programs)"
    and "\<forall>e p. map_of (rt_programCache rt) e = Some p \<longrightarrow> cw_compile C e = Inr p"
    and "bi_inv (ext_compile (w_ext W)) (ix_bi (rt_idx rt))"
    and "map_of (co_Actions out) action = Some e" and "ae_Effect e = EFFECT_ALLOW"
  shows "justified (outcome (checkEnv W C rt ep input) ep) (checkEnv W C rt ep input) KIND_PRINCIPAL action
    \<or> justified (outcome (checkEnv W C rt ep input) ep) (checkEnv W C rt ep input) KIND_RESOURCE action"
proof -
  let ?E = "checkEnv W C rt ep input"
  have E: "ce_world ?E = W" "ce_rt ?E = rt" by (simp_all add: checkEnv_def Let_def split_beta)
  obtain result where r: "check W C validate rt ep input = (Inr result, programs)"
    and acts: "\<And>a. map_of (co_Actions out) a = (if a \<in> set (ci_Actions input) then Some (actionEffect result a) else None)"
    using checkWithAuditTrail_actions [OF assms(1)] by blast
  obtain i where i: "map_of (per_effects result) action = Some i" "ei_Effect i = EFFECT_ALLOW"
    using assms(4,5) by (auto simp: acts actionEffect_def split: if_splits option.splits)
  obtain j where j: "evalPolicies (outcome ?E ep) ?E action [KIND_PRINCIPAL, KIND_RESOURCE] zeroEffectInfo j" "ei_Effect j = EFFECT_ALLOW"
    using check_cases [OF r assms(2) i(1)] i(2) by (auto simp: decides_def split: if_splits)
  show ?thesis using evalPolicies_allow [OF _ j] assms(3) by (simp add: E zeroEffectInfo_def)
qed

section \<open>A table and a request\<close>

text \<open>A resource policy for \<open>doc\<close> that lets \<open>user\<close> do \<open>view\<close>, built into a table.\<close>

definition docPolicy :: RunnableResourcePolicySet where
  "docPolicy = \<lparr>rrps_Meta = \<lparr>sm_Fqn = ''cerbos.resource.doc.vdefault'', sm_Name = ''doc'', sm_Version = ''default'', sm_SourceAttributes = [],
       sm_Annotations = []\<rparr>,
     rrps_Policies = [\<lparr>rsp_Scope = '''', rsp_DerivedRoles = [], rsp_Rules = [\<lparr>ru_Name = ''r'', ru_Actions = [''view''],
       ru_DerivedRoles = [], ru_Roles = [''user''], ru_Condition = None, ru_Effect = EFFECT_ALLOW, ru_Output = None,
       ru_EmitOutput = None\<rparr>], rsp_OrderedVariables = [], rsp_ScopePermissions = SCOPE_PERMISSIONS_UNSPECIFIED, rsp_Constants = []\<rparr>],
     rrps_Schemas = None\<rparr>"

definition docWorld :: World where
  "docWorld = \<lparr>w_ext = exampleExt, w_hashStr = (\<lambda>s. of_nat (length s)), w_hashDerivedRole = (\<lambda>_. 0)\<rparr>"

definition docTable :: RuleTable where
  "docTable = the (NewRuleTableFromLoader docWorld (IterableLoader
     [Yield \<lparr>rps_Fqn = ''cerbos.resource.doc.vdefault'', rps_PolicySet = Some (ResourceSet docPolicy)\<rparr>]))"

definition docRow :: RuleRow where
  "docRow = \<lparr>rr_OriginFqn = ''cerbos.resource.doc.vdefault'', rr_Resource = ''doc'', rr_Role = ''user'', rr_ActionSet = ActionSet_Action ''view'',
     rr_Condition = None, rr_DerivedRoleCondition = None, rr_Effect = EFFECT_ALLOW, rr_Scope = '''',
     rr_ScopePermissions = SCOPE_PERMISSIONS_OVERRIDE_PARENT, rr_Version = ''default'', rr_OriginDerivedRole = '''', rr_EmitOutput = None,
     rr_Name = ''r'', rr_Principal = '''', rr_Params = Some \<lparr>OrderedVariables = [], Constants = []\<rparr>, rr_DerivedRoleParams = None,
     rr_EvaluationKey = ''cerbos.resource.doc.vdefault#resource.doc.vdefault#r'', rr_PolicyKind = KIND_RESOURCE, rr_FromRolePolicy = False,
     rr_EvaluationKeyTuple = Some \<lparr>ek_Prefix = ''cerbos.resource'', ek_Resource = ''doc'', ek_Principal = '''', ek_Role = '''',
       ek_DerivedRole = '''', ek_Version = ''default'', ek_Scope = '''', ek_RuleName = ''r'', ek_RuleID = 0\<rparr>\<rparr>"

definition docProto :: ProtoRuleTable where
  "docProto = snd (AddPolicy (w_hashStr docWorld) \<lparr>rps_Fqn = ''cerbos.resource.doc.vdefault'', rps_PolicySet = Some (ResourceSet docPolicy)\<rparr> NewProtoRuletable)"

lemma docPolicy_rows:
  "AddPolicy (w_hashStr docWorld) \<lparr>rps_Fqn = ''cerbos.resource.doc.vdefault'', rps_PolicySet = Some (ResourceSet docPolicy)\<rparr> NewProtoRuletable
   = ([docRow], docProto)"
  by code_simp

definition docIndex :: Index where
  "docIndex = snd (IndexRules exampleExt [docRow] New)"

lemma docIndex_facts:
  "IndexRules exampleExt [docRow] New = (True, docIndex)"
  "bi_inv (ext_compile exampleExt) (ix_bi docIndex)"
  "\<exists>b. GetAllRows docIndex = [b] \<and> bindingFor exampleExt docRow b"
proof -
  show eq: "IndexRules exampleExt [docRow] New = (True, docIndex)"
    using IndexRules_succeeds [of exampleExt "[docRow]" New] by (simp add: exampleExt_def docIndex_def prod_eq_iff)
  have "noCollisions exampleExt {docRow}" by (simp add: noCollisions_def docRow_def exampleExt_def)
  moreover have "roomFor (length [docRow]) (ix_bi New)" by (simp add: roomFor_def New_def newBitmapIndex_def)
  ultimately have F: "bi_inv (ext_compile exampleExt) (ix_bi docIndex)" "rowsAdded exampleExt [docRow] New docIndex"
    using IndexRules_facts [OF New_facts(1) _ eq _ New_facts(2)] by auto
  show "bi_inv (ext_compile exampleExt) (ix_bi docIndex)" by (rule F(1))
  show "\<exists>b. GetAllRows docIndex = [b] \<and> bindingFor exampleExt docRow b"
    using F(2) by (auto simp: rowsAdded_def New_facts(3) list_all2_Cons1)
qed

lemma docProto_fields: "pt_ScopeParentRoles docProto = []" "pt_Schemas docProto = []" "pt_PolicyDerivedRoles docProto = []"
  by code_simp+

lemma docTracker: "tracker_Err (tracker_Add KIND_RESOURCE (PolicyKeyFromFQN (rr_OriginFqn docRow)) '''' SCOPE_PERMISSIONS_OVERRIDE_PARENT NewTracker) = None"
  by code_simp

lemma docTable_built:
  "NewRuleTableFromLoader docWorld (IterableLoader
     [Yield \<lparr>rps_Fqn = ''cerbos.resource.doc.vdefault'', rps_PolicySet = Some (ResourceSet docPolicy)\<rparr>]) = Some docTable"
  "rt_idx docTable = Compact (IndexParentRoles [] docIndex)" "rt_principalScopeMap docTable = []" "rt_resourceScopeMap docTable = ['''']"
  "rt_scopeScopePermissions docTable = [('''', SCOPE_PERMISSIONS_OVERRIDE_PARENT)]" "rt_programCache docTable = []"
  "pt_Schemas (rt_proto docTable) = []" "rt_policyDerivedRoles docTable = []"
  "rt_scopePermsTracker docTable = tracker_Add KIND_RESOURCE (PolicyKeyFromFQN (rr_OriginFqn docRow)) '''' SCOPE_PERMISSIONS_OVERRIDE_PARENT NewTracker"
  "pt_Meta (rt_proto docTable) = pt_Meta docProto"
proof -
  let ?rt = "(emptyRuleTable NewProtoRuletable)\<lparr>rt_proto := docProto\<rparr>"
  let ?reg = "registerRow docWorld docRow (initBuildState ?rt)"
  have init: "(initBuildState (emptyRuleTable NewProtoRuletable))\<lparr>rt_proto := docProto\<rparr> = initBuildState ?rt"
    by (simp add: initBuildState_def emptyRuleTable_def)
  have reg: "rt_idx ?reg = New" "rt_proto ?reg = docProto" "rt_principalScopeMap ?reg = []" "rt_resourceScopeMap ?reg = ['''']"
    "rt_scopeScopePermissions ?reg = [('''', SCOPE_PERMISSIONS_OVERRIDE_PARENT)]" "rt_programCache ?reg = []"
    "tracker_Err (rt_scopePermsTracker ?reg) = None" "rt_policyDerivedRoles ?reg = []"
    "rt_scopePermsTracker ?reg = tracker_Add KIND_RESOURCE (PolicyKeyFromFQN (rr_OriginFqn docRow)) '''' SCOPE_PERMISSIONS_OVERRIDE_PARENT NewTracker"
    using docTracker docProto_fields(3)
    by (simp_all add: registerRow_def addScope_def trackScopePermissions_def installDerivedRoles_def Let_def initBuildState_def emptyRuleTable_def
        docRow_def set_add_def Normalise_def split: option.split)
  have ing: "ingestPolicy docWorld (Some \<lparr>rps_Fqn = ''cerbos.resource.doc.vdefault'', rps_PolicySet = Some (ResourceSet docPolicy)\<rparr>)
      (initBuildState (emptyRuleTable NewProtoRuletable)) = (True, ?reg\<lparr>rt_idx := IndexParentRoles [] docIndex\<rparr>)"
    unfolding ingestPolicy_def option.case Let_def
    using docPolicy_rows docIndex_facts(1) init reg(1,2) docProto_fields(1)
    by (simp add: indexRules_def docWorld_def initBuildState_def emptyRuleTable_def)
  have built: "NewRuleTableFromLoader docWorld (IterableLoader
     [Yield \<lparr>rps_Fqn = ''cerbos.resource.doc.vdefault'', rps_PolicySet = Some (ResourceSet docPolicy)\<rparr>]) = Some (finalizeBuild (?reg\<lparr>rt_idx := IndexParentRoles [] docIndex\<rparr>))"
    unfolding NewRuleTableFromLoader_def newRuleTableFromIterableLoader_def using ing reg(7) by simp
  then have doc: "docTable = finalizeBuild (?reg\<lparr>rt_idx := IndexParentRoles [] docIndex\<rparr>)" by (simp add: docTable_def)
  show "NewRuleTableFromLoader docWorld (IterableLoader
     [Yield \<lparr>rps_Fqn = ''cerbos.resource.doc.vdefault'', rps_PolicySet = Some (ResourceSet docPolicy)\<rparr>]) = Some docTable"
    using built doc by simp
  show "rt_idx docTable = Compact (IndexParentRoles [] docIndex)" "rt_principalScopeMap docTable = []" "rt_resourceScopeMap docTable = ['''']"
    "rt_scopeScopePermissions docTable = [('''', SCOPE_PERMISSIONS_OVERRIDE_PARENT)]" "rt_programCache docTable = []"
    "pt_Schemas (rt_proto docTable) = []" "rt_policyDerivedRoles docTable = []"
    "rt_scopePermsTracker docTable = tracker_Add KIND_RESOURCE (PolicyKeyFromFQN (rr_OriginFqn docRow)) '''' SCOPE_PERMISSIONS_OVERRIDE_PARENT NewTracker"
    "pt_Meta (rt_proto docTable) = pt_Meta docProto"
    using reg docProto_fields(2) by (simp_all add: doc finalizeBuild_def)
qed

lemma docTable_index:
  "bi_inv (ext_compile exampleExt) (ix_bi (rt_idx docTable))"
  "\<exists>b. GetAllRows (rt_idx docTable) = [b] \<and> bindingFor exampleExt docRow b"
  "ix_parentRoles (rt_idx docTable) = []"
proof -
  have inv: "bi_inv (ext_compile exampleExt) (ix_bi (IndexParentRoles [] docIndex))" using docIndex_facts(2) by (simp add: IndexParentRoles_def)
  show "bi_inv (ext_compile exampleExt) (ix_bi (rt_idx docTable))" unfolding docTable_built(2) by (rule Compact_facts(1) [OF inv])
  have "GetAllRows (rt_idx docTable) = GetAllRows docIndex"
    unfolding docTable_built(2) Compact_facts(2) [OF inv] by (simp add: GetAllRows_def IndexParentRoles_def)
  then show "\<exists>b. GetAllRows (rt_idx docTable) = [b] \<and> bindingFor exampleExt docRow b" using docIndex_facts(3) by simp
  show "ix_parentRoles (rt_idx docTable) = []"
    unfolding docTable_built(2) by (simp add: Compact_def IndexParentRoles_def compileParentRoleAncestors_def)
qed

definition docEnv :: CheckEnv where
  "docEnv = checkEnv docWorld exampleCel docTable exampleParams exampleInput"

lemma docEnv_fields:
  "ce_world docEnv = docWorld" "ce_cel docEnv = exampleCel" "ce_rt docEnv = docTable" "ce_input docEnv = exampleInput"
  "ce_principalScopes docEnv = []" "ce_resourceScopes docEnv = ['''']" "ce_resourceVersion docEnv = ''default''"
  "ce_resourceKind docEnv = NewResourceKind ''doc''" "ce_resourceScope docEnv = ''''" "ce_scopedPrincipalExists docEnv = False"
  "ce_resourcePolicyKey docEnv = ''resource.doc.vdefault''"
proof -
  have key: "PolicyKeyFromFQN (ResourcePolicyFQN ''doc'' ''default'' '''') = ''resource.doc.vdefault''" by code_simp
  have sp: "ScopeParents '''' = []" by code_simp
  have sc: "Scope '''' exampleParams = ''''" "PolicyVersion '''' exampleParams = ''default''" by code_simp+
  show "ce_world docEnv = docWorld" "ce_cel docEnv = exampleCel" "ce_rt docEnv = docTable" "ce_input docEnv = exampleInput"
    by (simp_all add: docEnv_def checkEnv_def Let_def split_beta)
  show "ce_principalScopes docEnv = []" "ce_resourceScopes docEnv = ['''']" "ce_resourceVersion docEnv = ''default''"
  "ce_resourceKind docEnv = NewResourceKind ''doc''" "ce_resourceScope docEnv = ''''" "ce_scopedPrincipalExists docEnv = False"
  "ce_resourcePolicyKey docEnv = ''resource.doc.vdefault''"
    using key sp sc by (simp_all add: docEnv_def checkEnv_def Let_def split_beta exampleInput_def GetAllScopes_def scopeMapOf_def docTable_built
        exampleParams_def ScopedPrincipalExists_def fqnFn_def)
qed

lemma docRow_binding:
  assumes "bindingFor exampleExt docRow b"
  shows "b_AllowActions b = None" "b_Action b = ''view''" "b_Scope b = ''''" "b_Role b = ''user''" "b_Resource b = ''doc''"
    "b_Version b = ''default''" "b_Principal b = ''''" "b_OriginFqn b = ''cerbos.resource.doc.vdefault''" "b_NoMatchForScopePermissions b = False"
    "b_OriginDerivedRole b = ''''"
    and "fc_PolicyKind (b_Core b) = KIND_RESOURCE" "fc_Effect (b_Core b) = EFFECT_ALLOW" "fc_Condition (b_Core b) = None"
    "fc_DerivedRoleCondition (b_Core b) = None" "fc_EmitOutput (b_Core b) = None" "fc_FromRolePolicy (b_Core b) = False"
proof -
  obtain core bid where b: "b = (ruleBinding docRow core)\<lparr>b_ID := bid\<rparr>" "coreFor exampleExt docRow (b_Core b)"
    using assms by (auto simp: bindingFor_def)
  show "b_AllowActions b = None" "b_Action b = ''view''" "b_Scope b = ''''" "b_Role b = ''user''" "b_Resource b = ''doc''"
    "b_Version b = ''default''" "b_Principal b = ''''" "b_OriginFqn b = ''cerbos.resource.doc.vdefault''" "b_NoMatchForScopePermissions b = False"
    "b_OriginDerivedRole b = ''''"
    using b(1) by (simp_all add: ruleBinding_def docRow_def zeroBinding_def)
  show "fc_PolicyKind (b_Core b) = KIND_RESOURCE" "fc_Effect (b_Core b) = EFFECT_ALLOW" "fc_Condition (b_Core b) = None"
    "fc_DerivedRoleCondition (b_Core b) = None" "fc_EmitOutput (b_Core b) = None" "fc_FromRolePolicy (b_Core b) = False"
    using b(2) by (simp_all add: coreFor_def docRow_def)
qed

lemma docQuery:
  obtains b where "queryBindings docEnv KIND_RESOURCE ''view'' '''' [''user''] = [b]" "bindingFor exampleExt docRow b"
proof -
  obtain b where b: "GetAllRows (rt_idx docTable) = [b]" "bindingFor exampleExt docRow b" using docTable_index(2) by blast
  note f = docRow_binding [OF b(2)]
  let ?c = "ext_compile exampleExt"
  have row: "rowSel ?c ''default'' (NewResourceKind ''doc'') '''' [''user''] KIND_RESOURCE '''' b"
    by (simp add: f rowSel_def versionSel_def resourceSel_def roleSel_def keySel_def globKey_def indexable_def IsGlob_def keyMatches_def doc_sanitized)
  have act: "actionSel ?c ''view'' b"
    by (simp add: f actionSel_def actionKey_def keySel_def globKey_def indexable_def IsGlob_def keyMatches_def)
  have "queryBindings docEnv KIND_RESOURCE ''view'' '''' [''user''] = scanQuery ?c [b] ''default'' (NewResourceKind ''doc'') '''' ''view'' [''user''] KIND_RESOURCE ''''"
    using Query_scan [OF docTable_index(1)] b(1) by (simp add: queryBindings_def docEnv_fields docWorld_def)
  also have "\<dots> = [b]"
    by (simp add: scanQuery_def Let_def row act scanDenies_def f)
  finally show thesis using b(2) that by blast
qed

lemma docBinding:
  assumes "bindingFor exampleExt docRow b" and "cs_varCache s = []" and "cs_conditionCache s = []"
  shows "\<exists>s'. processBinding docEnv ''view'' scope b r s = (Continue (r\<lparr>ro_hasAllow := True\<rparr>), s')"
proof -
  note f = docRow_binding [OF assms(1)]
  obtain p where p: "fc_Params (b_Core b) = Some p" "rp_CelPrograms p = []"
    using assms(1) by (auto simp: bindingFor_def coreFor_def docRow_def hasParams_def paramsFor_def getCelPrograms_def paramVariables_def)
  have "cs_varCache (auditBinding docEnv b s) = []" "cs_conditionCache (auditBinding docEnv b s) = []"
    using assms(2,3) by (simp_all add: auditBinding_def split: option.split)
  then show ?thesis
    using p by (simp add: processBinding_def paramsVariables_def cachedVariables_def evaluatePrograms_def bindingCondition_def f
        ruleCondition_def SatisfiesCondition_def bindingOutput_def applyEffect_def)
qed

lemma docScope: "\<exists>s'. scopeStep docEnv KIND_RESOURCE ''view'' [''user''] '''' (newRoleState docEnv KIND_RESOURCE) (initialState exampleParams exampleInput docTable)
  = (BreakScopes ((newRoleState docEnv KIND_RESOURCE)\<lparr>ro_hasAllow := True,
       ro_info := (ro_info (newRoleState docEnv KIND_RESOURCE))\<lparr>ei_Effect := EFFECT_ALLOW, ei_Scope := ''''\<rparr>\<rparr>), s')"
proof -
  obtain b where b: "queryBindings docEnv KIND_RESOURCE ''view'' '''' [''user''] = [b]" "bindingFor exampleExt docRow b" using docQuery by blast
  obtain s1 where s1: "enterScope docEnv '''' (initialState exampleParams exampleInput docTable) = Inr s1" "cs_varCache s1 = []" "cs_conditionCache s1 = []"
    by (simp add: enterScope_def initialState_def GetDerivedRoles_def docEnv_fields docTable_built)
  obtain s2 where "processBinding docEnv ''view'' '''' b (newRoleState docEnv KIND_RESOURCE) s1 = (Continue ((newRoleState docEnv KIND_RESOURCE)\<lparr>ro_hasAllow := True\<rparr>), s2)"
    using docBinding [OF b(2) s1(2,3)] by blast
  then show ?thesis using b(1) s1(1)
    by (simp add: scopeStep_def newRoleState_def endScope_def docEnv_fields GetScopeScopePermissions_def docTable_built)
qed

lemma docAction: "\<exists>s' info. checkAction docEnv ''view'' (initialState exampleParams exampleInput docTable) = (Inr info, s') \<and> ei_Effect info = EFFECT_ALLOW"
proof -
  have roles: "pi_Roles (ci_Principal (ce_input docEnv)) = [''user'']" "AddParentRoles (rt_idx (ce_rt docEnv)) scopes rs = rs" for scopes rs
    by (simp_all add: docEnv_fields exampleInput_def AddParentRoles_def docTable_index(3))
  have kinds: "scopesOf docEnv KIND_PRINCIPAL = []" "scopesOf docEnv KIND_RESOURCE = ['''']" by (simp_all add: scopesOf_def docEnv_fields)
  obtain s' where s': "scopesLoop docEnv KIND_RESOURCE ''view'' [''user''] [''''] (newRoleState docEnv KIND_RESOURCE) (initialState exampleParams exampleInput docTable)
    = (BreakScopes ((newRoleState docEnv KIND_RESOURCE)\<lparr>ro_hasAllow := True,
       ro_info := (ro_info (newRoleState docEnv KIND_RESOURCE))\<lparr>ei_Effect := EFFECT_ALLOW, ei_Scope := ''''\<rparr>\<rparr>), s')"
    using docScope by auto
  have principal: "rolesLoop docEnv KIND_PRINCIPAL ''view'' [''user''] info s = (RolesDone (mergeRole info (ro_info (newRoleState docEnv KIND_PRINCIPAL))), s)" for info s
    by (simp add: roles kinds)
  have resource: "rolesLoop docEnv KIND_RESOURCE ''view'' [''user''] info (initialState exampleParams exampleInput docTable) =
    (RolesDone ((ro_info (newRoleState docEnv KIND_RESOURCE))\<lparr>ei_Effect := EFFECT_ALLOW, ei_Scope := ''''\<rparr>), s')" for info
    using s' by (simp add: roles kinds mergeRole_def Let_def del: scopesLoop.simps)
  show ?thesis
    by (simp add: checkAction_def roles principal resource newRoleState_def mergeRole_def zeroEffectInfo_def Let_def del: rolesLoop.simps)
qed

lemma docCheck:
  "\<exists>out trail programs e. checkWithAuditTrail docWorld exampleCel (\<lambda>_ _. Some ([], False)) docTable exampleParams exampleInput = (Inr (out, trail), programs)
     \<and> map_of (co_Actions out) ''view'' = Some e \<and> ae_Effect e = EFFECT_ALLOW"
proof -
  obtain b where b: "GetAllRows (rt_idx docTable) = [b]" "bindingFor exampleExt docRow b" using docTable_index(2) by blast
  have exists: "ce_scopedResourceExists docEnv"
    using docEnv_fields docRow_binding [OF b(2)] b(1) docTable_index(1)
    by (simp add: docEnv_def checkEnv_def Let_def split_beta ScopedResourceExists_iff [of "ext_compile exampleExt"] resourceSel_def
        globKey_def indexable_def IsGlob_def keyMatches_def doc_sanitized)
  obtain s info where a: "checkAction docEnv ''view'' (initialState exampleParams exampleInput docTable) = (Inr info, s)" "ei_Effect info = EFFECT_ALLOW"
    using docAction by blast
  have acts: "ci_Actions exampleInput = [''view'']" by (simp add: exampleInput_def)
  have "\<exists>result programs. check docWorld exampleCel (\<lambda>_ _. Some ([], False)) docTable exampleParams exampleInput = (Inr result, programs)
    \<and> per_effects result = [(''view'', info)]"
    unfolding check_def docEnv_def [symmetric] Let_def
    using exists a(1) by (simp add: docEnv_fields acts unresolvedActions_def newEvalResult_def set_add_def setEffect_def Let_def)
  then show ?thesis using a(2) by (auto simp: checkWithAuditTrail_def acts actionEffect_def)
qed

theorem every_action_decided_witness:
  "\<exists>out trail programs. checkWithAuditTrail docWorld exampleCel (\<lambda>_ _. Some ([], False)) docTable exampleParams exampleInput = (Inr (out, trail), programs)
     \<and> dom (map_of (co_Actions out)) = {''view''} \<and> ae_Effect ` ran (map_of (co_Actions out)) \<subseteq> {EFFECT_ALLOW, EFFECT_DENY}"
proof -
  obtain out trail programs where c: "checkWithAuditTrail docWorld exampleCel (\<lambda>_ _. Some ([], False)) docTable exampleParams exampleInput = (Inr (out, trail), programs)"
    using docCheck by blast
  from every_action_decided [OF c] c show ?thesis by (auto simp: docTable_built exampleInput_def)
qed

theorem allow_is_justified_witness:
  "justified (outcome docEnv exampleParams) docEnv KIND_PRINCIPAL ''view'' \<or> justified (outcome docEnv exampleParams) docEnv KIND_RESOURCE ''view''"
proof -
  obtain out trail programs e where c: "checkWithAuditTrail docWorld exampleCel (\<lambda>_ _. Some ([], False)) docTable exampleParams exampleInput = (Inr (out, trail), programs)"
    "map_of (co_Actions out) ''view'' = Some e" "ae_Effect e = EFFECT_ALLOW" using docCheck by blast
  show ?thesis unfolding docEnv_def
    by (rule allow_is_justified [OF c(1) _ _ c(2,3)]) (simp_all add: docTable_built(6) docTable_index(1) docWorld_def)
qed

end
