(* ===== verification/Manager.thy ===== *)
theory Manager
  imports Check
begin

text \<open>
  The rule table manager: storage events replace, remove and reload policies of the table that requests are checked against.  It
  models \<^verbatim>\<open>internal/ruletable/manager.go\<close>.  Every operation that takes the write lock is one step, so that the tables between two
  steps are those a concurrent request can see.
\<close>

section \<open>Events and the policy loader\<close>

datatype EventKind = EventAddOrUpdatePolicy | EventDeleteOrDisablePolicy | EventAddOrUpdateSchema | EventDeleteSchema | EventReload | EventNop

record Event =
  ev_Kind :: EventKind
  ev_PolicyID :: ModuleID
  ev_OldPolicyID :: "ModuleID option"
  ev_Dependents :: "ModuleID list"

text \<open>Why an event fails: loading the policy or its dependents, a scope permissions conflict, indexing, or the rebuild.\<close>

datatype ManagerErr = ErrLoadPolicy | ErrRejected Conflict | ErrIngest | ErrLoadDependents | ErrRuleTableStore | ErrBuild

datatype StoreErr = ErrUnsupportedOperation | ErrStoreFailed

text \<open>What the policy loader answers while one event is handled: \<open>None\<close> is an error, a nil policy set the inner \<open>None\<close>.  A
  loader may also be a store of rule tables, or else it is none.\<close>

record Loader =
  ld_GetFirstMatch :: "ModuleID list \<Rightarrow> RunnablePolicySet option option"
  ld_GetAllMatching :: "ModuleID list \<Rightarrow> RunnablePolicySet option list option"
  ld_policies :: PolicyLoader
  ld_GetRuleTable :: "(RuleTable option \<times> StoreErr option) option"

section \<open>Deleting and adding a policy\<close>

text \<open>The entry of a deleted role policy in the hierarchy of parent roles.\<close>

definition removeParentRoles :: "string \<Rightarrow> string \<Rightarrow> ScopeParentRoles \<Rightarrow> ScopeParentRoles" where
  "removeParentRoles scope role spr =
     (case map_of spr scope of
        Some (Some m) \<Rightarrow>
          let m = AList.delete role m
          in if m = [] then AList.delete scope spr else AList.update scope (Some m) spr
      | _ \<Rightarrow> spr)"

definition deleteParentRoles :: "RuleTableMetadata \<Rightarrow> RuleTable \<Rightarrow> RuleTable" where
  "deleteParentRoles md rt =
     (case md_Name md of
        Some (NameRole role) \<Rightarrow>
          if role \<noteq> ''''
          then let spr = removeParentRoles (ScopeFromFQN (md_Fqn md)) role (pt_ScopeParentRoles (rt_proto rt))
            in rt\<lparr>rt_proto := (rt_proto rt)\<lparr>pt_ScopeParentRoles := spr\<rparr>, rt_idx := IndexParentRoles spr (rt_idx rt)\<rparr>
          else rt
      | _ \<Rightarrow> rt)"

text \<open>Scopes without a row are dropped from both scope maps.\<close>

definition pruneScopes :: "string list \<Rightarrow> RuleTable \<Rightarrow> RuleTable" where
  "pruneScopes activeScopes rt =
     rt\<lparr>rt_principalScopeMap := filter (\<lambda>s. s \<in> set activeScopes) (rt_principalScopeMap rt),
        rt_resourceScopeMap := filter (\<lambda>s. s \<in> set activeScopes) (rt_resourceScopeMap rt)\<rparr>"

definition untrackPolicy :: "RuleTableMetadata \<Rightarrow> RuleTable \<Rightarrow> RuleTable" where
  "untrackPolicy md rt =
     (let rt = rt\<lparr>rt_scopePermsTracker := tracker_Remove (PolicyKeyFromFQN (md_Fqn md)) (rt_scopePermsTracker rt)\<rparr>;
          scope = ScopeFromFQN (md_Fqn md)
      in if tracker_Tracked scope (rt_scopePermsTracker rt) then rt
         else rt\<lparr>rt_scopeScopePermissions := AList.delete scope (rt_scopeScopePermissions rt)\<rparr>)"

definition forgetModule :: "ModuleID \<Rightarrow> RuleTable \<Rightarrow> RuleTable" where
  "forgetModule moduleID rt =
     rt\<lparr>rt_proto := (rt_proto rt)\<lparr>pt_Schemas := AList.delete (RawValue moduleID) (pt_Schemas (rt_proto rt)),
          pt_Meta := AList.delete (RawValue moduleID) (pt_Meta (rt_proto rt))\<rparr>,
        rt_policyDerivedRoles := AList.delete moduleID (rt_policyDerivedRoles rt)\<rparr>"

definition doDeletePolicy :: "ModuleID \<Rightarrow> RuleTable \<Rightarrow> RuleTable" where
  "doDeletePolicy moduleID rt =
     (case map_of (pt_Meta (rt_proto rt)) (RawValue moduleID) of
        None \<Rightarrow> rt
      | Some md \<Rightarrow>
          let rt = rt\<lparr>rt_programCache := ProgramCache_Clear (rt_programCache rt), rt_idx := DeletePolicy (md_Fqn md) (rt_idx rt)\<rparr>;
              activeScopes = GetScopes (rt_idx rt)
          in forgetModule moduleID (untrackPolicy md (pruneScopes activeScopes (deleteParentRoles md rt))))"

text \<open>The steps of an event, each under the lock: the tables they leave, and whether all of them succeeded.\<close>

datatype TableStep = DeleteStep ModuleID | AddStep "RunnablePolicySet option"

fun tableStep :: "World \<Rightarrow> TableStep \<Rightarrow> RuleTable \<Rightarrow> bool \<times> RuleTable" where
  "tableStep W (DeleteStep moduleID) rt = (True, doDeletePolicy moduleID rt)"
| "tableStep W (AddStep rps) rt = ingestPolicy W rps rt"

fun runSteps :: "('s \<Rightarrow> 't \<Rightarrow> bool \<times> 't) \<Rightarrow> 's list \<Rightarrow> 't \<Rightarrow> 't list \<times> bool" where
  "runSteps step [] t = ([], True)"
| "runSteps step (s # ss) t =
     (case step s t of
        (False, t') \<Rightarrow> ([t'], False)
      | (True, t') \<Rightarrow> (case runSteps step ss t' of (ts, ok) \<Rightarrow> (t' # ts, ok)))"

definition checkPolicy :: "RunnablePolicySet option \<Rightarrow> ModuleID option \<Rightarrow> RuleTable \<Rightarrow> Conflict option" where
  "checkPolicy rps oldPolicyID rt =
     (case rps of
        None \<Rightarrow> None
      | Some rps \<Rightarrow>
          let ignoredPolicyKey = (case oldPolicyID of
                None \<Rightarrow> ''''
              | Some old \<Rightarrow> (case map_of (pt_Meta (rt_proto rt)) (RawValue old) of
                    None \<Rightarrow> '''' | Some md \<Rightarrow> PolicyKeyFromFQN (md_Fqn md)))
          in checkScopePermissions rt rps ignoredPolicyKey)"

section \<open>Handling events\<close>

text \<open>The tables that become visible, in order, and the error.\<close>

definition reloadDependents :: "World \<Rightarrow> Loader \<Rightarrow> ModuleID list \<Rightarrow> RuleTable \<Rightarrow> RuleTable list \<times> ManagerErr option" where
  "reloadDependents W L dependents rt =
     (if dependents = [] then ([], None)
      else case ld_GetAllMatching L dependents of
          None \<Rightarrow> ([], Some ErrLoadDependents)
        | Some toReload \<Rightarrow>
            (case runSteps (tableStep W) (map DeleteStep dependents @ map AddStep toReload) rt of
               (rts, ok) \<Rightarrow> (rts, if ok then None else Some ErrIngest)))"

definition stepsThenDependents :: "World \<Rightarrow> Loader \<Rightarrow> TableStep list \<Rightarrow> ModuleID list \<Rightarrow> RuleTable \<Rightarrow> RuleTable list \<times> ManagerErr option" where
  "stepsThenDependents W L steps dependents rt =
     (case runSteps (tableStep W) steps rt of
        (rts, False) \<Rightarrow> (rts, Some ErrIngest)
      | (rts, True) \<Rightarrow> (case reloadDependents W L dependents (last (rt # rts)) of (rts', err) \<Rightarrow> (rts @ rts', err)))"

definition updateSteps :: "Event \<Rightarrow> RunnablePolicySet option \<Rightarrow> TableStep list" where
  "updateSteps evt rps =
     [DeleteStep (ev_PolicyID evt)]
     @ (case ev_OldPolicyID evt of None \<Rightarrow> [] | Some old \<Rightarrow> [DeleteStep old])
     @ (case rps of None \<Rightarrow> [] | Some _ \<Rightarrow> [AddStep rps])"

definition processPolicyEvent :: "World \<Rightarrow> Loader \<Rightarrow> Event \<Rightarrow> RuleTable \<Rightarrow> RuleTable list \<times> ManagerErr option" where
  "processPolicyEvent W L evt rt =
     (case ev_Kind evt of
        EventAddOrUpdatePolicy \<Rightarrow>
          (case ld_GetFirstMatch L [ev_PolicyID evt] of
             None \<Rightarrow> ([], Some ErrLoadPolicy)
           | Some rps \<Rightarrow>
               (case checkPolicy rps (ev_OldPolicyID evt) rt of
                  Some conflict \<Rightarrow> ([], Some (ErrRejected conflict))
                | None \<Rightarrow> stepsThenDependents W L (updateSteps evt rps) (ev_Dependents evt) rt))
      | EventDeleteOrDisablePolicy \<Rightarrow> stepsThenDependents W L [DeleteStep (ev_PolicyID evt)] (ev_Dependents evt) rt
      | _ \<Rightarrow> reloadDependents W L (ev_Dependents evt) rt)"

record Manager =
  mg_RuleTable :: RuleTable
  mg_lastReloadErr :: "ManagerErr option"

definition NewRuleTableManager :: "RuleTable \<Rightarrow> Manager" where
  "NewRuleTableManager rt = \<lparr>mg_RuleTable = rt, mg_lastReloadErr = None\<rparr>"

definition buildRuleTable :: "World \<Rightarrow> Loader \<Rightarrow> ManagerErr + RuleTable" where
  "buildRuleTable W L =
     (let build = (case NewRuleTableFromLoader W (ld_policies L) of None \<Rightarrow> Inl ErrBuild | Some t \<Rightarrow> Inr t)
      in case ld_GetRuleTable L of
           None \<Rightarrow> build
         | Some (newRuleTable, err) \<Rightarrow>
             if err = Some ErrStoreFailed then Inl ErrRuleTableStore
             else (case newRuleTable of Some rt \<Rightarrow> Inr rt | None \<Rightarrow> build))"

definition reload :: "World \<Rightarrow> Loader \<Rightarrow> Manager \<Rightarrow> Manager" where
  "reload W L mgr =
     (case buildRuleTable W L of
        Inl err \<Rightarrow> mgr\<lparr>mg_lastReloadErr := Some err\<rparr>
      | Inr rt \<Rightarrow> mgr\<lparr>mg_lastReloadErr := None, mg_RuleTable := rt\<rparr>)"

definition LastReloadError :: "Manager \<Rightarrow> ManagerErr option" where
  "LastReloadError mgr = mg_lastReloadErr mgr"

text \<open>The states a concurrent request can see while an event, then a sequence of events, is handled.\<close>

definition handleEvent :: "World \<Rightarrow> Loader \<Rightarrow> Event \<Rightarrow> Manager \<Rightarrow> Manager list" where
  "handleEvent W L evt mgr =
     (case ev_Kind evt of
        EventReload \<Rightarrow> [reload W L mgr]
      | EventAddOrUpdatePolicy \<Rightarrow> map (\<lambda>rt. mgr\<lparr>mg_RuleTable := rt\<rparr>) (fst (processPolicyEvent W L evt (mg_RuleTable mgr)))
      | EventDeleteOrDisablePolicy \<Rightarrow> map (\<lambda>rt. mgr\<lparr>mg_RuleTable := rt\<rparr>) (fst (processPolicyEvent W L evt (mg_RuleTable mgr)))
      | _ \<Rightarrow> [])"

fun OnStorageEvent :: "World \<Rightarrow> (Event \<times> Loader) list \<Rightarrow> Manager \<Rightarrow> Manager list" where
  "OnStorageEvent W [] mgr = []"
| "OnStorageEvent W ((evt, L) # events) mgr =
     (let mgrs = handleEvent W L evt mgr in mgrs @ OnStorageEvent W events (last (mgr # mgrs)))"

text \<open>A request, under the read lock; it may fill the program cache.\<close>

definition mgr_Check :: "World \<Rightarrow> CelWorld \<Rightarrow> Validator \<Rightarrow> EvalParams \<Rightarrow> CheckInput \<Rightarrow> Manager
    \<Rightarrow> (CheckErr + CheckOutput \<times> (string, string) gomap) \<times> Manager" where
  "mgr_Check W C validate ep input mgr =
     (case checkWithAuditTrail W C validate (mg_RuleTable mgr) ep input of
        (r, programs) \<Rightarrow> (r, mgr\<lparr>mg_RuleTable := (mg_RuleTable mgr)\<lparr>rt_programCache := programs\<rparr>\<rparr>))"

end
