(* ===== verification/ManagerProps.thy ===== *)
theory ManagerProps
  imports Manager TableBuild CheckProps
begin

text \<open>
  What the manager keeps true of the tables it serves while events are handled, what an update does to the rows, and what happens
  when it fails.
\<close>

section \<open>Invariants of the tables that are served\<close>

text \<open>What the answers of a loader are assumed to satisfy.\<close>

definition loaderGives :: "World \<Rightarrow> (RunnablePolicySet \<Rightarrow> bool) \<Rightarrow> (RuleTable \<Rightarrow> bool) \<Rightarrow> Loader \<Rightarrow> bool" where
  "loaderGives W addable tableOk L \<longleftrightarrow>
     (\<forall>ids rps. ld_GetFirstMatch L ids = Some (Some rps) \<longrightarrow> addable rps)
     \<and> (\<forall>ids sets rps. ld_GetAllMatching L ids = Some sets \<longrightarrow> Some rps \<in> set sets \<longrightarrow> addable rps)
     \<and> (\<forall>rt. buildRuleTable W L = Inr rt \<longrightarrow> tableOk rt)"

text \<open>An invariant kept by the deletion and the addition of a policy, as long as the tables they leave are good, holds of every
  table that becomes visible.\<close>

locale table_invariant =
  fixes W :: World
    and inv :: "RuleTable \<Rightarrow> bool"
    and good :: "RuleTable \<Rightarrow> bool"
    and addable :: "RunnablePolicySet \<Rightarrow> bool"
  assumes delete_inv: "inv t \<Longrightarrow> good t \<Longrightarrow> good (doDeletePolicy moduleID t) \<Longrightarrow> inv (doDeletePolicy moduleID t)"
    and add_inv: "inv t \<Longrightarrow> good t \<Longrightarrow> addable rps \<Longrightarrow> ingestPolicy W (Some rps) t = (ok, t') \<Longrightarrow> good t' \<Longrightarrow> inv t'"
begin

lemma tableStep_inv:
  assumes "inv t" and "good t" and "\<And>rps. s = AddStep (Some rps) \<Longrightarrow> addable rps" and "tableStep W s t = (ok, t')" and "good t'"
  shows "inv t'"
proof (cases s)
  case (DeleteStep moduleID)
  then show ?thesis using delete_inv assms by auto
next
  case (AddStep rps)
  then show ?thesis using add_inv assms by (cases rps) (auto simp: ingestPolicy_def)
qed

lemma runSteps_inv:
  "runSteps (tableStep W) ss t = (ts, ok) \<Longrightarrow> inv t \<Longrightarrow> (\<And>rps. AddStep (Some rps) \<in> set ss \<Longrightarrow> addable rps) \<Longrightarrow>
   \<forall>t' \<in> set (t # ts). good t' \<Longrightarrow> t' \<in> set ts \<Longrightarrow> inv t'"
proof (induction ss arbitrary: t ts ok)
  case (Cons s ss)
  obtain ok1 t1 where s: "tableStep W s t = (ok1, t1)" by (cases "tableStep W s t")
  obtain ts1 ok' where r: "runSteps (tableStep W) ss t1 = (ts1, ok')" by (cases "runSteps (tableStep W) ss t1")
  have ts: "ts = t1 # (if ok1 then ts1 else [])" using Cons.prems(1) s r by (cases ok1) auto
  have t1: "inv t1" by (rule tableStep_inv [OF Cons.prems(2) _ _ s]) (use Cons.prems(3,4) ts in auto)
  then show ?case using Cons.IH [OF r t1, of] Cons.prems(3-5) ts by (auto split: if_splits)
qed simp

lemma reloadDependents_inv:
  assumes "reloadDependents W L ds rt = (rts, err)" and "inv rt" and "loaderGives W addable inv L"
    and "\<forall>t \<in> set (rt # rts). good t" and "t \<in> set rts"
  shows "inv t"
proof -
  obtain sets where sets: "ld_GetAllMatching L ds = Some sets"
    using assms(1,5) by (auto simp: reloadDependents_def split: if_splits option.splits)
  then obtain ok where r: "runSteps (tableStep W) (map DeleteStep ds @ map AddStep sets) rt = (rts, ok)"
    using assms(1,5) by (auto simp: reloadDependents_def split: if_splits prod.splits)
  show ?thesis by (rule runSteps_inv [OF r assms(2) _ assms(4,5)]) (use assms(3) sets in \<open>auto simp: loaderGives_def\<close>)
qed

lemma stepsThenDependents_inv:
  assumes "stepsThenDependents W L ss ds rt = (rts, err)" and "inv rt" and "loaderGives W addable inv L"
    and "\<And>rps. AddStep (Some rps) \<in> set ss \<Longrightarrow> addable rps" and "\<forall>t \<in> set (rt # rts). good t" and "t \<in> set rts"
  shows "inv t"
proof -
  obtain rts1 ok where r: "runSteps (tableStep W) ss rt = (rts1, ok)" by (cases "runSteps (tableStep W) ss rt")
  obtain rts2 err2 where d: "reloadDependents W L ds (last (rt # rts1)) = (rts2, err2)" by (cases "reloadDependents W L ds (last (rt # rts1))")
  have rts: "rts = (if ok then rts1 @ rts2 else rts1)" using assms(1) r d by (auto simp: stepsThenDependents_def)
  have first: "inv t" if "t \<in> set rts1" for t
    by (rule runSteps_inv [OF r assms(2,4) _ that]) (use assms(5) rts in \<open>auto split: if_splits\<close>)
  have "inv (last (rt # rts1))" using first assms(2) by (cases rts1) auto
  moreover have "\<forall>t \<in> set (last (rt # rts1) # rts2). good t" if ok using assms(5) that rts by (cases rts1) auto
  ultimately have "inv t" if "t \<in> set rts2" ok using reloadDependents_inv [OF d _ assms(3) _ that(1)] that(2) by blast
  then show ?thesis using first assms(6) rts by (auto split: if_splits)
qed

lemma processPolicyEvent_inv:
  assumes "processPolicyEvent W L evt rt = (rts, err)" and "inv rt" and "loaderGives W addable inv L"
    and "\<forall>t \<in> set (rt # rts). good t" and "t \<in> set rts"
  shows "inv t"
proof (cases "ev_Kind evt = EventAddOrUpdatePolicy")
  case True
  then obtain rps where rps: "ld_GetFirstMatch L [ev_PolicyID evt] = Some rps"
    and st: "stepsThenDependents W L (updateSteps evt rps) (ev_Dependents evt) rt = (rts, err)"
    using assms(1,5) by (auto simp: processPolicyEvent_def split: option.splits)
  show ?thesis
    by (rule stepsThenDependents_inv [OF st assms(2,3) _ assms(4,5)])
      (use assms(3) rps in \<open>auto simp: updateSteps_def loaderGives_def split: option.splits\<close>)
next
  case False
  show ?thesis
  proof (cases "ev_Kind evt = EventDeleteOrDisablePolicy")
    case True
    then have st: "stepsThenDependents W L [DeleteStep (ev_PolicyID evt)] (ev_Dependents evt) rt = (rts, err)"
      using assms(1) by (simp add: processPolicyEvent_def)
    show ?thesis by (rule stepsThenDependents_inv [OF st assms(2,3) _ assms(4,5)]) simp
  next
    case False
    then have "reloadDependents W L (ev_Dependents evt) rt = (rts, err)"
      using assms(1) \<open>ev_Kind evt \<noteq> EventAddOrUpdatePolicy\<close> by (cases "ev_Kind evt") (simp_all add: processPolicyEvent_def)
    then show ?thesis using reloadDependents_inv assms(2-5) by blast
  qed
qed

lemma handleEvent_inv:
  assumes "inv (mg_RuleTable mgr)" and "loaderGives W addable inv L"
    and "\<forall>m \<in> set (mgr # handleEvent W L evt mgr). good (mg_RuleTable m)" and "m \<in> set (handleEvent W L evt mgr)"
  shows "inv (mg_RuleTable m)"
proof -
  obtain rts err where p: "processPolicyEvent W L evt (mg_RuleTable mgr) = (rts, err)" by (cases "processPolicyEvent W L evt (mg_RuleTable mgr)")
  have reload: "inv (mg_RuleTable (reload W L mgr))"
    using assms(1,2) by (cases "buildRuleTable W L") (auto simp: reload_def loaderGives_def)
  consider "m = reload W L mgr" | t where "t \<in> set rts" "m = mgr\<lparr>mg_RuleTable := t\<rparr>" "\<forall>t \<in> set (mg_RuleTable mgr # rts). good t"
    using assms(3,4) p by (cases "ev_Kind evt") (auto simp: handleEvent_def)
  then show ?thesis using reload processPolicyEvent_inv [OF p assms(1,2)] by cases auto
qed

lemma OnStorageEvent_inv:
  assumes "inv (mg_RuleTable mgr)" and "\<forall>(evt, L) \<in> set events. loaderGives W addable inv L"
    and "\<forall>m \<in> set (mgr # OnStorageEvent W events mgr). good (mg_RuleTable m)" and "m \<in> set (OnStorageEvent W events mgr)"
  shows "inv (mg_RuleTable m)"
  using assms
proof (induction events arbitrary: mgr)
  case (Cons e events)
  obtain evt L where e: "e = (evt, L)" by (cases e)
  let ?ms = "handleEvent W L evt mgr"
  have first: "inv (mg_RuleTable m)" if "m \<in> set ?ms" for m
    using handleEvent_inv [OF Cons.prems(1) _ _ that] Cons.prems(2,3) e by (auto simp: Let_def)
  have last: "last (mgr # ?ms) \<in> set (mgr # ?ms)" by (rule last_in_set) simp
  then have "inv (mg_RuleTable (last (mgr # ?ms)))" using first Cons.prems(1) by auto
  moreover have "\<forall>m \<in> set (last (mgr # ?ms) # OnStorageEvent W events (last (mgr # ?ms))). good (mg_RuleTable m)"
    using Cons.prems(3) e last by (auto simp: Let_def)
  ultimately have "inv (mg_RuleTable m)" if "m \<in> set (OnStorageEvent W events (last (mgr # ?ms)))"
    using Cons.IH that Cons.prems(2) by simp
  then show ?case using Cons.prems(4) e first by (auto simp: Let_def)
qed simp

end

section \<open>Tables\<close>

text \<open>The rows are indexed, their scopes are known for their kind, and their policy has an entry under its name; \<open>R\<close> bounds the
  rows and \<open>F\<close> the names considered.  An entry is always under the hash of its name.\<close>

definition registered :: "World \<Rightarrow> string set \<Rightarrow> RuleTable \<Rightarrow> BindingHandle \<Rightarrow> bool" where
  "registered W F rt b \<longleftrightarrow>
     (fc_PolicyKind (b_Core b) = KIND_PRINCIPAL \<longrightarrow> b_Scope b \<in> set (rt_principalScopeMap rt))
     \<and> (fc_PolicyKind (b_Core b) = KIND_RESOURCE \<longrightarrow> b_Scope b \<in> set (rt_resourceScopeMap rt))
     \<and> b_OriginFqn b \<in> F
     \<and> (\<exists>md. map_of (pt_Meta (rt_proto rt)) (w_hashStr W (b_OriginFqn b)) = Some md \<and> md_Fqn md = b_OriginFqn b)"

definition table_ok :: "World \<Rightarrow> RuleRow set \<Rightarrow> string set \<Rightarrow> RuleTable \<Rightarrow> bool" where
  "table_ok W R F rt \<longleftrightarrow> bi_inv (ext_compile (w_ext W)) (ix_bi (rt_idx rt)) \<and> caches_ok (w_ext W) R (rt_idx rt)
     \<and> tracker_inv (rt_scopePermsTracker rt)
     \<and> (\<forall>k md. map_of (pt_Meta (rt_proto rt)) k = Some md \<longrightarrow> md_Fqn md \<in> F \<and> w_hashStr W (md_Fqn md) = k)
     \<and> (\<forall>b \<in> set (rt_GetAllRows rt). registered W F rt b)"

text \<open>What is assumed of the hashes: no collisions among the rows and names considered, and no policy without a name.\<close>

definition hashes_ok :: "World \<Rightarrow> RuleRow set \<Rightarrow> string set \<Rightarrow> bool" where
  "hashes_ok W R F \<longleftrightarrow> noCollisions (w_ext W) R \<and> inj_on (w_hashStr W) F \<and> '''' \<notin> F"

definition rowsOf :: "World \<Rightarrow> RunnablePolicySet \<Rightarrow> RuleRow list" where
  "rowsOf W rps = fst (AddPolicy (w_hashStr W) rps NewProtoRuletable)"

definition setOk :: "World \<Rightarrow> RuleRow set \<Rightarrow> string set \<Rightarrow> nat \<Rightarrow> RunnablePolicySet \<Rightarrow> bool" where
  "setOk W R F n rps \<longleftrightarrow> set (rowsOf W rps) \<subseteq> R \<and> length (rowsOf W rps) \<le> n \<and> set_option (setFqn rps) \<subseteq> F"

fun stepAllowed :: "World \<Rightarrow> RuleRow set \<Rightarrow> string set \<Rightarrow> nat \<Rightarrow> TableStep \<Rightarrow> RuleTable \<Rightarrow> bool" where
  "stepAllowed W R F n (DeleteStep moduleID) rt \<longleftrightarrow> hashes_ok W R F"
| "stepAllowed W R F n (AddStep rps) rt \<longleftrightarrow> hashes_ok W R F \<and> (\<forall>s \<in> set_option rps. setOk W R F n s) \<and> roomFor n (ix_bi (rt_idx rt))"

lemma AddPolicy_rowsOf: "fst (AddPolicy (w_hashStr W) rps P) = rowsOf W rps"
  by (auto simp: rowsOf_def AddPolicy_def addResourcePolicy_def addPrincipalPolicy_def addRolePolicy_def Let_def
      split: option.splits PolicySet.splits list.splits)

lemma AddPolicy_meta:
  assumes "AddPolicy h rps P = (rs, P')"
  shows "map_of (pt_Meta P') k = map_of (pt_Meta P) k \<or> (\<exists>f md. setFqn rps = Some f \<and> k = h f \<and> map_of (pt_Meta P') k = Some md \<and> md_Fqn md = f)"
    and "rs \<noteq> [] \<Longrightarrow> \<exists>f md. setFqn rps = Some f \<and> map_of (pt_Meta P') (h f) = Some md \<and> md_Fqn md = f"
  using assms
  by (auto simp: AddPolicy_def addResourcePolicy_def addPrincipalPolicy_def addRolePolicy_def setFqn_def Let_def
      GenModuleIDFromFQN_def RawValue_def map_of_goupdate resourceMeta_def principalMeta_def roleMeta_def
      split: option.splits PolicySet.splits list.splits if_splits)

lemma registerRow_maps:
  "set (rt_principalScopeMap (registerRow W row rt)) = set (rt_principalScopeMap rt) \<union> (if rr_PolicyKind row = KIND_PRINCIPAL then {rr_Scope row} else {})"
  "set (rt_resourceScopeMap (registerRow W row rt)) = set (rt_resourceScopeMap rt) \<union> (if rr_PolicyKind row = KIND_RESOURCE then {rr_Scope row} else {})"
  "tracker_inv (rt_scopePermsTracker rt) \<Longrightarrow> tracker_inv (rt_scopePermsTracker (registerRow W row rt))"
  by (auto simp: registerRow_def addScope_def trackScopePermissions_def installDerivedRoles_def Let_def set_add_def tracker_Add_facts(1)
      split: option.split)

lemma fold_registerRow_maps:
  "set (rt_principalScopeMap (fold (registerRow W) rows' rt)) = set (rt_principalScopeMap rt) \<union> rr_Scope ` {r \<in> set rows'. rr_PolicyKind r = KIND_PRINCIPAL}"
  "set (rt_resourceScopeMap (fold (registerRow W) rows' rt)) = set (rt_resourceScopeMap rt) \<union> rr_Scope ` {r \<in> set rows'. rr_PolicyKind r = KIND_RESOURCE}"
  "tracker_inv (rt_scopePermsTracker rt) \<Longrightarrow> tracker_inv (rt_scopePermsTracker (fold (registerRow W) rows' rt))"
  by (induction rows' arbitrary: rt) (auto simp: registerRow_maps)

lemma GetScopes_rows:
  assumes "bi_inv compile (ix_bi m)" and "b \<in> set (GetAllRows m)"
  shows "b_Scope b \<in> set (GetScopes m)"
proof -
  obtain i where i: "getBinding (ix_bi m) i = Some b"
    using assms set_rows [of "ix_bi m" b] by (auto simp: GetAllRows_rows bi_inv_def)
  have "tracks (dim_ids (bi_scope (ix_bi m))) (getBinding (ix_bi m)) (\<lambda>b. Some (b_Scope b))"
    using assms(1) by (simp add: bi_inv_def dims_inv_def)
  then have "i \<in> dim_ids (bi_scope (ix_bi m)) (b_Scope b)" using i by (simp add: tracksD)
  then obtain bm where "map_of (bi_scope (ix_bi m)) (b_Scope b) = Some bm" by (auto simp: mem_dim_ids)
  then show ?thesis using map_of_SomeD by (force simp: GetScopes_def dim_Keys_def)
qed

text \<open>What deleting a policy does to the fields, operation by operation.\<close>

lemma deleteParentRoles_fields [simp]:
  "ix_bi (rt_idx (deleteParentRoles md rt)) = ix_bi (rt_idx rt)" "caches_ok E R (rt_idx (deleteParentRoles md rt)) = caches_ok E R (rt_idx rt)"
  "rt_principalScopeMap (deleteParentRoles md rt) = rt_principalScopeMap rt" "rt_resourceScopeMap (deleteParentRoles md rt) = rt_resourceScopeMap rt"
  "pt_Meta (rt_proto (deleteParentRoles md rt)) = pt_Meta (rt_proto rt)" "rt_scopePermsTracker (deleteParentRoles md rt) = rt_scopePermsTracker rt"
  "rt_programCache (deleteParentRoles md rt) = rt_programCache rt"
  by (simp_all add: deleteParentRoles_def IndexParentRoles_def caches_ok_def Let_def split: option.split RuleTableName.split)

lemma untrackPolicy_fields [simp]:
  "rt_idx (untrackPolicy md rt) = rt_idx rt" "rt_proto (untrackPolicy md rt) = rt_proto rt"
  "rt_principalScopeMap (untrackPolicy md rt) = rt_principalScopeMap rt" "rt_resourceScopeMap (untrackPolicy md rt) = rt_resourceScopeMap rt"
  "rt_scopePermsTracker (untrackPolicy md rt) = tracker_Remove (PolicyKeyFromFQN (md_Fqn md)) (rt_scopePermsTracker rt)"
  "rt_programCache (untrackPolicy md rt) = rt_programCache rt"
  by (simp_all add: untrackPolicy_def Let_def)

lemma doDeletePolicy_fields:
  assumes "map_of (pt_Meta (rt_proto rt)) (RawValue moduleID) = Some md"
  shows "rt_GetAllRows (doDeletePolicy moduleID rt) = GetAllRows (DeletePolicy (md_Fqn md) (rt_idx rt))"
    and "ix_bi (rt_idx (doDeletePolicy moduleID rt)) = ix_bi (DeletePolicy (md_Fqn md) (rt_idx rt))"
    and "caches_ok E R (rt_idx (doDeletePolicy moduleID rt)) = caches_ok E R (DeletePolicy (md_Fqn md) (rt_idx rt))"
    and "rt_principalScopeMap (doDeletePolicy moduleID rt) = filter (\<lambda>s. s \<in> set (GetScopes (DeletePolicy (md_Fqn md) (rt_idx rt)))) (rt_principalScopeMap rt)"
    and "rt_resourceScopeMap (doDeletePolicy moduleID rt) = filter (\<lambda>s. s \<in> set (GetScopes (DeletePolicy (md_Fqn md) (rt_idx rt)))) (rt_resourceScopeMap rt)"
    and "pt_Meta (rt_proto (doDeletePolicy moduleID rt)) = AList.delete (RawValue moduleID) (pt_Meta (rt_proto rt))"
    and "rt_scopePermsTracker (doDeletePolicy moduleID rt) = tracker_Remove (PolicyKeyFromFQN (md_Fqn md)) (rt_scopePermsTracker rt)"
    and "rt_programCache (doDeletePolicy moduleID rt) = []"
  using assms by (simp_all add: doDeletePolicy_def pruneScopes_def forgetModule_def ProgramCache_Clear_def rt_GetAllRows_def GetAllRows_def Let_def)

lemma doDeletePolicy_absent: "map_of (pt_Meta (rt_proto rt)) (RawValue moduleID) = None \<Longrightarrow> doDeletePolicy moduleID rt = rt"
  by (simp add: doDeletePolicy_def)

lemma table_ok_delete:
  assumes "table_ok W R F rt" and "hashes_ok W R F"
  shows "table_ok W R F (doDeletePolicy moduleID rt)"
proof (cases "map_of (pt_Meta (rt_proto rt)) (RawValue moduleID)")
  case None
  then show ?thesis using assms(1) by (simp add: doDeletePolicy_absent)
next
  case (Some md)
  note F = doDeletePolicy_fields [OF Some]
  have inv: "bi_inv (ext_compile (w_ext W)) (ix_bi (rt_idx rt))" "caches_ok (w_ext W) R (rt_idx rt)" "tracker_inv (rt_scopePermsTracker rt)"
    and reg: "\<And>b. b \<in> set (rt_GetAllRows rt) \<Longrightarrow> registered W F rt b"
    and keyed: "\<And>k md. map_of (pt_Meta (rt_proto rt)) k = Some md \<Longrightarrow> md_Fqn md \<in> F \<and> w_hashStr W (md_Fqn md) = k"
    using assms(1) by (auto simp: table_ok_def)
  note del = DeletePolicy_facts(1) [OF inv(1), of "md_Fqn md"]
  have "registered W F (doDeletePolicy moduleID rt) b" if b: "b \<in> set (rt_GetAllRows (doDeletePolicy moduleID rt))" for b
  proof -
    have row: "b \<in> set (GetAllRows (DeletePolicy (md_Fqn md) (rt_idx rt)))" using b by (simp add: F)
    then have old: "b \<in> set (rt_GetAllRows rt)" and ne: "md_Fqn md \<noteq> '''' \<Longrightarrow> b_OriginFqn b \<noteq> md_Fqn md"
      using DeletePolicy_rows [OF inv(1), of "md_Fqn md"] by (cases "md_Fqn md = ''''"; auto simp: DeletePolicy_def rt_GetAllRows_def)+
    note r = reg [OF old] and scope = GetScopes_rows [OF del row]
    obtain md' where md': "map_of (pt_Meta (rt_proto rt)) (w_hashStr W (b_OriginFqn b)) = Some md'" "md_Fqn md' = b_OriginFqn b"
      using r by (auto simp: registered_def)
    have "b_OriginFqn b \<noteq> ''''" using r assms(2) by (auto simp: registered_def hashes_ok_def)
    then have "w_hashStr W (b_OriginFqn b) \<noteq> RawValue moduleID" using md' Some ne by auto
    then show ?thesis using r md' scope by (auto simp: registered_def F gomap_simps)
  qed
  moreover have "md_Fqn md \<in> F \<and> w_hashStr W (md_Fqn md) = k" if "map_of (pt_Meta (rt_proto (doDeletePolicy moduleID rt))) k = Some md" for k md
    using keyed that by (simp add: F gomap_simps split: if_splits)
  ultimately show ?thesis using del inv caches_ok_DeletePolicy [OF inv(2)] tracker_Remove_facts(1) [OF inv(3)] by (simp add: table_ok_def F)
qed

lemma ingestPolicy_cases:
  assumes "ingestPolicy W (Some rps) rt = (ok, rt')"
  obtains P idx where "AddPolicy (w_hashStr W) rps (rt_proto rt) = (rowsOf W rps, P)"
    and "IndexRules (w_ext W) (rowsOf W rps) (rt_idx rt) = (ok, idx)"
    and "rt' = (fold (registerRow W) (rowsOf W rps) (rt\<lparr>rt_proto := P\<rparr>))\<lparr>rt_idx := if ok then IndexParentRoles (pt_ScopeParentRoles P) idx else idx\<rparr>"
proof -
  obtain P where P: "AddPolicy (w_hashStr W) rps (rt_proto rt) = (rowsOf W rps, P)"
    by (metis AddPolicy_rowsOf prod.collapse)
  obtain ok' idx where ix: "IndexRules (w_ext W) (rowsOf W rps) (rt_idx rt) = (ok', idx)" by (cases "IndexRules (w_ext W) (rowsOf W rps) (rt_idx rt)")
  have "ok' = ok" "rt' = (fold (registerRow W) (rowsOf W rps) (rt\<lparr>rt_proto := P\<rparr>))\<lparr>rt_idx := if ok then IndexParentRoles (pt_ScopeParentRoles P) idx else idx\<rparr>"
    using assms P ix by (auto simp: ingestPolicy_def indexRules_def Let_def split: if_splits)
  then show thesis using that P ix by blast
qed

lemma table_ok_add:
  assumes "table_ok W R F rt" and "hashes_ok W R F" and "setOk W R F n rps" and "roomFor n (ix_bi (rt_idx rt))"
    and "ingestPolicy W (Some rps) rt = (ok, rt')"
  shows "table_ok W R F rt'"
proof -
  obtain P idx where P: "AddPolicy (w_hashStr W) rps (rt_proto rt) = (rowsOf W rps, P)"
    and ix: "IndexRules (w_ext W) (rowsOf W rps) (rt_idx rt) = (ok, idx)"
    and rt': "rt' = (fold (registerRow W) (rowsOf W rps) (rt\<lparr>rt_proto := P\<rparr>))\<lparr>rt_idx := if ok then IndexParentRoles (pt_ScopeParentRoles P) idx else idx\<rparr>"
    using ingestPolicy_cases [OF assms(5)] .
  have inv: "bi_inv (ext_compile (w_ext W)) (ix_bi (rt_idx rt))" "caches_ok (w_ext W) R (rt_idx rt)" "tracker_inv (rt_scopePermsTracker rt)"
    and reg: "\<And>b. b \<in> set (GetAllRows (rt_idx rt)) \<Longrightarrow> registered W F rt b"
    and keyed: "\<And>k md. map_of (pt_Meta (rt_proto rt)) k = Some md \<Longrightarrow> md_Fqn md \<in> F \<and> w_hashStr W (md_Fqn md) = k"
    using assms(1) by (auto simp: table_ok_def rt_GetAllRows_def)
  have "roomFor (length (rowsOf W rps)) (ix_bi (rt_idx rt))" using assms(3,4) by (simp add: setOk_def roomFor_def)
  then obtain k where inv': "bi_inv (ext_compile (w_ext W)) (ix_bi idx)" "caches_ok (w_ext W) R idx"
    and added: "rowsAdded (w_ext W) (take k (rowsOf W rps)) (rt_idx rt) idx"
    using IndexRules_facts [OF inv(1) _ ix _ inv(2)] assms(2,3) by (auto simp: hashes_ok_def setOk_def)
  have idx': "ix_bi (rt_idx rt') = ix_bi idx" "caches_ok (w_ext W) R (rt_idx rt') = caches_ok (w_ext W) R idx"
    "rt_GetAllRows rt' = GetAllRows idx" "rt_proto rt' = P"
    by (auto simp: rt' IndexParentRoles_def caches_ok_def rt_GetAllRows_def GetAllRows_def)
  have maps: "set (rt_principalScopeMap rt') = set (rt_principalScopeMap rt) \<union> rr_Scope ` {r \<in> set (rowsOf W rps). rr_PolicyKind r = KIND_PRINCIPAL}"
    "set (rt_resourceScopeMap rt') = set (rt_resourceScopeMap rt) \<union> rr_Scope ` {r \<in> set (rowsOf W rps). rr_PolicyKind r = KIND_RESOURCE}"
    "tracker_inv (rt_scopePermsTracker rt')"
    using inv(3) by (simp_all add: rt' fold_registerRow_maps)
  have inj: "inj_on (w_hashStr W) F" and fqns: "set_option (setFqn rps) \<subseteq> F" using assms(2,3) by (auto simp: hashes_ok_def setOk_def)
  have kept: "registered W F rt' b" if "registered W F rt b" for b
  proof -
    have F: "b_OriginFqn b \<in> F" using that by (simp add: registered_def)
    have "\<exists>md. map_of (pt_Meta P) (w_hashStr W (b_OriginFqn b)) = Some md \<and> md_Fqn md = b_OriginFqn b"
      using AddPolicy_meta(1) [OF P, of "w_hashStr W (b_OriginFqn b)"] that inj_onD [OF inj _ F] fqns by (auto simp: registered_def)
    then show ?thesis using that by (auto simp: registered_def idx' maps)
  qed
  obtain bs where bs: "set (GetAllRows idx) = set (GetAllRows (rt_idx rt)) \<union> set bs" "list_all2 (bindingFor (w_ext W)) (take k (rowsOf W rps)) bs"
    using added by (metis (no_types) rowsAdded_def set_mset_mset set_mset_union)
  have new: "registered W F rt' b" if b: "b \<in> set bs" for b
  proof -
    obtain r where r: "r \<in> set (rowsOf W rps)" "bindingFor (w_ext W) r b"
      using b bs(2) by (metis in_set_conv_nth in_set_takeD list_all2_conv_all_nth)
    then have "setFqn rps = Some (b_OriginFqn b)" using AddPolicy_origin [OF P r(1)] bindingFor_origin [OF r(2)] by simp
    moreover from this obtain md where "map_of (pt_Meta P) (w_hashStr W (b_OriginFqn b)) = Some md" "md_Fqn md = b_OriginFqn b"
      using AddPolicy_meta(2) [OF P] r(1) by fastforce
    moreover have "fc_PolicyKind (b_Core b) = rr_PolicyKind r" "b_Scope b = rr_Scope r"
      using r(2) by (auto simp: bindingFor_def coreFor_def ruleBinding_fields)
    ultimately show ?thesis using r(1) fqns by (auto simp: registered_def idx' maps)
  qed
  have "md_Fqn md \<in> F \<and> w_hashStr W (md_Fqn md) = key" if "map_of (pt_Meta P) key = Some md" for key md
    using keyed [of key md] AddPolicy_meta(1) [OF P, of key] that fqns by auto
  then show ?thesis using inv' maps(3) kept new reg bs(1) by (auto simp: table_ok_def idx')
qed

lemma tableStep_ok: "table_ok W R F t \<Longrightarrow> stepAllowed W R F n s t \<Longrightarrow> tableStep W s t = (ok, t') \<Longrightarrow> table_ok W R F t'"
  using table_ok_delete table_ok_add by (cases s) (auto simp: ingestPolicy_def split: option.splits)

section \<open>Every table the manager serves\<close>

abbreviation roomy :: "nat \<Rightarrow> RuleTable \<Rightarrow> bool" where
  "roomy n rt \<equiv> roomFor n (ix_bi (rt_idx rt))"

text \<open>The loader answers with policy sets and tables among those considered.\<close>

definition loaderOk :: "World \<Rightarrow> RuleRow set \<Rightarrow> string set \<Rightarrow> nat \<Rightarrow> Loader \<Rightarrow> bool" where
  "loaderOk W R F n L \<longleftrightarrow> loaderGives W (setOk W R F n) (table_ok W R F) L"

definition consistent :: "World \<Rightarrow> RuleRow set \<Rightarrow> string set \<Rightarrow> RuleTable \<Rightarrow> bool" where
  "consistent W R F rt \<longleftrightarrow> hashes_ok W R F \<and> table_ok W R F rt"

interpretation tables: table_invariant W "consistent W R F" "roomy n" "setOk W R F n" for W R F n
  by unfold_locales (auto simp: consistent_def intro: table_ok_delete table_ok_add)

lemma OnStorageEvent_ok:
  assumes "table_ok W R F (mg_RuleTable mgr)" and "hashes_ok W R F" and "\<forall>(evt, L) \<in> set events. loaderOk W R F n L"
    and "\<forall>m \<in> set (mgr # OnStorageEvent W events mgr). roomy n (mg_RuleTable m)"
    and "m \<in> set (OnStorageEvent W events mgr)"
  shows "table_ok W R F (mg_RuleTable m)"
proof -
  have "\<forall>(evt, L) \<in> set events. loaderGives W (setOk W R F n) (consistent W R F) L"
    using assms(2,3) by (auto simp: loaderOk_def loaderGives_def consistent_def)
  from tables.OnStorageEvent_inv [OF _ this assms(4,5)] show ?thesis using assms(1,2) by (simp add: consistent_def)
qed

text \<open>C3 (invariant).  While any sequence of storage events is handled (updates with their deletions and additions, deletions,
  reloads of dependents, rebuilds, and failures in between), every table a concurrent request can see is consistent: its index
  agrees with its rows, the scopes of all rows are known to the scope search, and the policy of every row has its metadata.  The
  loader may answer with any of a set of policies whose hashes do not collide, as long as row identifiers last.\<close>

theorem manager_serves_consistent_tables:
  assumes "table_ok W R F (mg_RuleTable mgr)" and "hashes_ok W R F" and "\<forall>(evt, L) \<in> set events. loaderOk W R F n L"
    and "\<forall>m \<in> set (mgr # OnStorageEvent W events mgr). roomFor n (ix_bi (rt_idx (mg_RuleTable m)))"
    and "m \<in> set (OnStorageEvent W events mgr)"
  shows "table_ok W R F (mg_RuleTable m)"
  by (rule OnStorageEvent_ok [OF assms])

section \<open>Requests never meet a row without metadata\<close>

text \<open>A binding with an output has the metadata of its policy.\<close>

definition hasMeta :: "CheckEnv \<Rightarrow> BindingHandle \<Rightarrow> bool" where
  "hasMeta E b \<longleftrightarrow> fc_EmitOutput (b_Core b) = None \<or> GetMeta (ce_world E) (ce_rt E) (b_OriginFqn b) \<noteq> None"

lemma processBinding_noPanic: "hasMeta E b \<Longrightarrow> fst (processBinding E action scope b r s) \<noteq> Fail PanicNilMeta"
  by (auto simp: processBinding_def Let_def bindingOutput_def hasMeta_def applyEffect_def bind_eq_Some_conv
      split: prod.splits option.splits CondOutcome.splits sum.splits if_splits)

lemma bindingsLoop_noPanic: "\<forall>b \<in> set bs. hasMeta E b \<Longrightarrow> fst (bindingsLoop E action scope bs r s) \<noteq> Fail PanicNilMeta"
proof (induction bs arbitrary: r s)
  case (Cons b bs)
  then show ?case using processBinding_noPanic [of E b action scope r s] by (auto split: prod.splits StepResult.splits)
qed simp

lemma enterScope_noPanic: "enterScope E scope s \<noteq> Inl PanicNilMeta"
proof -
  have one: "addDerivedRole E name dr sdr s \<noteq> Inl PanicNilMeta" for name dr sdr s
    by (auto simp: addDerivedRole_def split: prod.splits option.splits bool.splits)
  have "addDerivedRoles E drs sdr s \<noteq> Inl PanicNilMeta" for drs sdr s
  proof (induction drs arbitrary: sdr s)
    case (Cons d drs)
    then show ?case using one by (cases d) (auto split: sum.splits)
  qed simp
  then show ?thesis by (auto simp: enterScope_def Let_def split: option.splits sum.splits)
qed

definition metaComplete :: "CheckEnv \<Rightarrow> bool" where
  "metaComplete E \<longleftrightarrow> (\<forall>pt action scope rs. \<forall>b \<in> set (queryBindings E pt action scope rs). hasMeta E b)"

lemma scopeStep_noPanic:
  assumes "metaComplete E"
  shows "fst (scopeStep E pt action rs scope r s) \<noteq> Fail PanicNilMeta"
proof -
  have loop: "fst (bindingsLoop E action scope (queryBindings E pt action scope rs) r s) \<noteq> Fail PanicNilMeta" for s
    using assms by (intro bindingsLoop_noPanic) (simp add: metaComplete_def)
  have rest: "fst (if ei_Effect (ro_info r) \<noteq> EFFECT_NO_MATCH then (BreakScopes r, s)
      else (case bindingsLoop E action scope (queryBindings E pt action scope rs) r s of
          (Continue r, s) \<Rightarrow> (endScope E scope r, s) | (res, s) \<Rightarrow> (res, s))) \<noteq> Fail PanicNilMeta" for s
    using loop [of s] by (auto simp: endScope_def split: prod.splits StepResult.splits ScopePermissions.splits)
  obtain x where x: "(if pt = KIND_RESOURCE then enterScope E scope s else Inr s) = x" "x \<noteq> Inl PanicNilMeta"
    using enterScope_noPanic [of E scope s] by auto
  show ?thesis unfolding scopeStep_def x(1) using x(2) rest by (cases x) simp_all
qed

lemma scopesLoop_noPanic: "metaComplete E \<Longrightarrow> fst (scopesLoop E pt action rs scopes r s) \<noteq> Fail PanicNilMeta"
proof (induction scopes arbitrary: r s)
  case (Cons scope scopes)
  then show ?case using scopeStep_noPanic [OF Cons.prems, of pt action rs scope r s] by (auto split: prod.splits StepResult.splits)
qed simp

lemma rolesLoop_noPanic: "metaComplete E \<Longrightarrow> fst (rolesLoop E pt action roles info s) \<noteq> RolesFail PanicNilMeta"
proof (induction roles arbitrary: info s)
  case (Cons role roles)
  let ?p = "AddParentRoles (rt_idx (ce_rt E)) [ce_resourceScope E] [role]"
  have "fst (scopesLoop E pt action ?p (scopesOf E pt) (newRoleState E pt) s) \<noteq> Fail PanicNilMeta" by (rule scopesLoop_noPanic [OF Cons.prems])
  then show ?case using Cons.IH [OF Cons.prems] by (auto simp: Let_def split: prod.splits StepResult.splits)
qed simp

lemma policiesLoop_noPanic: "metaComplete E \<Longrightarrow> fst (policiesLoop E action pts info s) \<noteq> Inl PanicNilMeta"
proof (induction pts arbitrary: info s)
  case (Cons pt pts)
  then show ?case
    using rolesLoop_noPanic [OF Cons.prems, of pt action "pi_Roles (ci_Principal (ce_input E))" "info\<lparr>ei_Effect := EFFECT_NO_MATCH\<rparr>" s]
    by (auto split: prod.splits RolesResult.splits)
qed simp

lemma actionsLoop_noPanic: "metaComplete E \<Longrightarrow> fst (actionsLoop E actions result s) \<noteq> Inl PanicNilMeta"
proof (induction actions arbitrary: result s)
  case (Cons action actions)
  have "fst (checkAction E action s) \<noteq> Inl PanicNilMeta"
    using policiesLoop_noPanic [OF Cons.prems, of action "[KIND_PRINCIPAL, KIND_RESOURCE]" zeroEffectInfo s]
    by (auto simp: checkAction_def simp del: policiesLoop.simps split: prod.splits sum.splits)
  then show ?case using Cons.IH [OF Cons.prems] by (auto split: prod.splits sum.splits)
qed simp

lemma deniesForRole_origin:
  assumes "d \<in> set (deniesForRole compile reps matched resource actions role)" and "fc_EmitOutput (b_Core d) \<noteq> None"
  shows "\<exists>b \<in> set matched. b_OriginFqn d = b_OriginFqn b"
proof -
  have plain: "fc_EmitOutput (b_Core (newNoMatchRolePolicyDeny role v sc res a)) = None" for v sc res a
    by (simp add: newNoMatchRolePolicyDeny_def zeroCore_def)
  have allow: "b_OriginFqn x = b_OriginFqn mb" if "rolePolicyAllowBinding a mb = Some x" for a mb x
    using that by (auto simp: rolePolicyAllowBinding_def Let_def split: option.splits)
  have "(\<exists>v sc res a. d = newNoMatchRolePolicyDeny role v sc res a) \<or> (\<exists>a. \<exists>mb \<in> set matched. rolePolicyAllowBinding a mb = Some d)"
    using assms(1) by (auto simp: deniesForRole_def map_filter_def Let_def split: option.splits if_splits)
  then show ?thesis using plain allow assms(2) by fastforce
qed

lemma queryBindings_origin:
  assumes "bi_inv (ext_compile (w_ext (ce_world E))) (ix_bi (rt_idx (ce_rt E)))"
    and "b \<in> set (queryBindings E pt action scope rs)" and "fc_EmitOutput (b_Core b) \<noteq> None"
  shows "\<exists>row \<in> set (rt_GetAllRows (ce_rt E)). b_OriginFqn b = b_OriginFqn row"
proof -
  have denies: "\<exists>row \<in> set bs. b_OriginFqn b = b_OriginFqn row" if "b \<in> set (scanDenies compile bs resources roles actions P Q)"
    for compile bs resources roles actions P Q
    using that deniesForRole_origin [OF _ assms(3)] by (fastforce simp: scanDenies_def Let_def split_beta)
  show ?thesis
    using assms(2) denies unfolding queryBindings_def Query_scan [OF assms(1)] rt_GetAllRows_def
    by (fastforce simp: scanQuery_def Let_def split: if_splits)
qed

lemma check_noPanic:
  assumes "table_ok W R F rt"
  shows "fst (checkWithAuditTrail W C validate rt ep input) \<noteq> Inl PanicNilMeta"
proof -
  let ?E = "checkEnv W C rt ep input"
  have E: "ce_world ?E = W" "ce_rt ?E = rt" by (simp_all add: checkEnv_def Let_def split_beta)
  have "hasMeta ?E b" if "b \<in> set (queryBindings ?E pt action scope rs)" for b pt action scope rs
    using queryBindings_origin [of ?E, OF _ that] assms
    by (fastforce simp: hasMeta_def E table_ok_def registered_def GetMeta_def GenModuleIDFromFQN_def RawValue_def)
  then have complete: "metaComplete ?E" by (simp add: metaComplete_def)
  have "fst (check W C validate rt ep input) \<noteq> Inl PanicNilMeta"
    unfolding check_def Let_def
    using actionsLoop_noPanic [OF complete] by (auto split: option.splits prod.splits sum.splits) (metis fst_conv)+
  then show ?thesis by (auto simp: checkWithAuditTrail_def split: prod.splits sum.splits)
qed

text \<open>C4 (safety).  A request served by the manager at any moment, also between the deletion and the addition of an update or
  after a failed one, never looks up the metadata of a policy that is not there (a nil dereference).\<close>

theorem requests_never_panic:
  assumes "table_ok W R F (mg_RuleTable mgr)" and "hashes_ok W R F" and "\<forall>(evt, L) \<in> set events. loaderOk W R F n L"
    and "\<forall>m \<in> set (mgr # OnStorageEvent W events mgr). roomFor n (ix_bi (rt_idx (mg_RuleTable m)))"
    and "m \<in> set (mgr # OnStorageEvent W events mgr)"
  shows "fst (mgr_Check W C validate ep input m) \<noteq> Inl PanicNilMeta"
proof -
  have "table_ok W R F (mg_RuleTable m)" using OnStorageEvent_ok [OF assms(1-4)] assms(1,5) by auto
  from check_noPanic [OF this, of C validate ep input] show ?thesis by (simp add: mgr_Check_def split_beta)
qed

section \<open>Identifiers used by the steps\<close>

abbreviation slots :: "RuleTable \<Rightarrow> nat" where
  "slots rt \<equiv> length (bi_bindings (ix_bi (rt_idx rt)))"

lemma IndexRules_slots:
  assumes "bi_inv (ext_compile E) (ix_bi m)" and "roomFor (length rules) (ix_bi m)" and "IndexRules E rules m = (ok, m')"
    and "noCollisions E R" and "caches_ok E R m" and "set rules \<subseteq> R"
  shows "length (bi_bindings (ix_bi m')) \<le> length (bi_bindings (ix_bi m)) + length rules"
  using assms(1,2,3,5,6)
proof (induction rules arbitrary: m)
  case (Cons rule rules)
  obtain ok1 m1 where one: "IndexRule E rule m = (ok1, m1)" by fastforce
  have room: "hasRoom (ix_bi m)" and rule: "rule \<in> R" "set rules \<subseteq> R"
    using Cons.prems(2,5) by (auto simp: hasRoom_def roomFor_def)
  note F = IndexRule_facts [OF Cons.prems(1) room one assms(4) Cons.prems(4) rule(1)]
  show ?case
  proof (cases ok1)
    case False
    then show ?thesis using Cons.prems(3) one F(4) by simp
  next
    case True
    have "roomFor (length rules) (ix_bi m1)" using Cons.prems(2) F(4) by (simp add: roomFor_def)
    moreover have "IndexRules E rules m1 = (ok, m')" using Cons.prems(3) one True by simp
    ultimately show ?thesis using Cons.IH [OF F(1) _ _ F(2) rule(2)] F(4) by fastforce
  qed
qed simp

lemma tableStep_slots:
  assumes "table_ok W R F t" and "stepAllowed W R F n s t" and "tableStep W s t = (ok, t')"
  shows "slots t' \<le> slots t + n"
proof (cases s)
  case (DeleteStep moduleID)
  have inv: "bi_inv (ext_compile (w_ext W)) (ix_bi (rt_idx t))" using assms(1) by (simp add: table_ok_def)
  show ?thesis
    using assms(3) DeleteStep DeletePolicy_facts(3) [OF inv]
    by (cases "map_of (pt_Meta (rt_proto t)) (RawValue moduleID)") (auto simp: doDeletePolicy_absent doDeletePolicy_fields(2))
next
  case (AddStep rps)
  show ?thesis
  proof (cases rps)
    case None
    then show ?thesis using assms(3) AddStep by (simp add: ingestPolicy_def)
  next
    case (Some r)
    then have "ingestPolicy W (Some r) t = (ok, t')" using assms(3) AddStep by simp
    then obtain idx where "IndexRules (w_ext W) (rowsOf W r) (rt_idx t) = (ok, idx)" "ix_bi (rt_idx t') = ix_bi idx"
      by (rule ingestPolicy_cases) (auto simp: IndexParentRoles_def)
    moreover have "length (rowsOf W r) \<le> n" "set (rowsOf W r) \<subseteq> R" "noCollisions (w_ext W) R" "roomFor (length (rowsOf W r)) (ix_bi (rt_idx t))"
      using assms(2) AddStep Some by (auto simp: setOk_def hashes_ok_def roomFor_def)
    ultimately show ?thesis using IndexRules_slots assms(1) by (fastforce simp: table_ok_def)
  qed
qed

text \<open>Room for all steps at the start is enough.\<close>

lemma runSteps_slots:
  "runSteps (tableStep W) ss t = (ts, ok) \<Longrightarrow> table_ok W R F t \<Longrightarrow> hashes_ok W R F \<Longrightarrow>
   (\<And>rps. AddStep (Some rps) \<in> set ss \<Longrightarrow> setOk W R F n rps) \<Longrightarrow> slots t + n * length ss + n < 2 ^ 32 \<Longrightarrow>
   t' \<in> set (t # ts) \<Longrightarrow> slots t' \<le> slots t + n * length ss \<and> table_ok W R F t'"
proof (induction ss arbitrary: t ts ok)
  case (Cons s ss)
  obtain ok1 t1 where s: "tableStep W s t = (ok1, t1)" by (cases "tableStep W s t")
  have allowed: "stepAllowed W R F n s t" by (cases s) (use Cons.prems(3-5) in \<open>auto simp: roomFor_def\<close>)
  note t1 = tableStep_slots [OF Cons.prems(2) allowed s] tableStep_ok [OF Cons.prems(2) allowed s]
  obtain ts1 ok' where r: "runSteps (tableStep W) ss t1 = (ts1, ok')" by (cases "runSteps (tableStep W) ss t1")
  have rest: "slots t' \<le> slots t1 + n * length ss \<and> table_ok W R F t'" if "t' \<in> set (t1 # ts1)"
    using Cons.IH [OF r t1(2) Cons.prems(3) _ _ that] Cons.prems(4,5) t1(1) by (simp add: algebra_simps)
  show ?case
  proof (cases "t' = t")
    case True
    then show ?thesis using Cons.prems(2) by simp
  next
    case False
    then have "t' \<in> set (t1 # ts1)" using Cons.prems(1,6) s r by (cases ok1) auto
    then show ?thesis using rest t1(1) by auto
  qed
qed simp

lemma ingestAll_steps:
  "ingestAll W ys t = Some t' \<Longrightarrow> \<exists>ss ts. length ss \<le> length ys \<and> (\<forall>rps. AddStep (Some rps) \<in> set ss \<longrightarrow> Yield rps \<in> set ys)
     \<and> runSteps (tableStep W) ss t = (ts, True) \<and> t' = last (t # ts)"
proof (induction ys arbitrary: t)
  case Nil
  then show ?case by (intro exI [of _ "[]"]) simp
next
  case (Cons y ys)
  show ?case
  proof (cases y)
    case YieldNil
    then obtain ss ts where "length ss \<le> length ys" "\<forall>rps. AddStep (Some rps) \<in> set ss \<longrightarrow> Yield rps \<in> set ys"
      "runSteps (tableStep W) ss t = (ts, True)" "t' = last (t # ts)" using Cons.IH [of t] Cons.prems by auto
    then show ?thesis by (intro exI [of _ ss] exI [of _ ts]) auto
  next
    case (Yield rps)
    then obtain t1 where one: "ingestPolicy W (Some rps) t = (True, t1)" "ingestAll W ys t1 = Some t'"
      using Cons.prems by (auto split: prod.splits bool.splits)
    then obtain ss ts where "length ss \<le> length ys" "\<forall>rps. AddStep (Some rps) \<in> set ss \<longrightarrow> Yield rps \<in> set ys"
      "runSteps (tableStep W) ss t1 = (ts, True)" "t' = last (t1 # ts)" using Cons.IH by blast
    then show ?thesis by (intro exI [of _ "AddStep (Some rps) # ss"] exI [of _ "t1 # ts"]) (use one Yield in auto)
  qed (use Cons.prems in simp)
qed

lemma table_ok_finalizeBuild:
  assumes "table_ok W R F rt"
  shows "table_ok W R F (finalizeBuild rt)"
proof -
  have inv: "bi_inv (ext_compile (w_ext W)) (ix_bi (rt_idx rt))" using assms by (simp add: table_ok_def)
  have "caches_ok E R (Compact m) = caches_ok E R m" for E m by (simp add: caches_ok_def Compact_def bi_compact_def)
  then show ?thesis
    using assms Compact_facts [OF inv] by (auto simp: table_ok_def finalizeBuild_def rt_GetAllRows_def registered_def)
qed

text \<open>A table built from a stream of policies is consistent.\<close>

lemma built_table_ok:
  assumes "newRuleTableFromIterableLoader W ys = Some rt" and "hashes_ok W R F" and "\<And>rps. Yield rps \<in> set ys \<Longrightarrow> setOk W R F n rps"
    and "n * length ys + n < 2 ^ 32"
  shows "table_ok W R F rt \<and> slots rt \<le> n * length ys"
proof -
  let ?e = "initBuildState (emptyRuleTable NewProtoRuletable)"
  obtain t where t: "ingestAll W ys ?e = Some t" "rt = finalizeBuild t"
    using assms(1) by (auto simp: newRuleTableFromIterableLoader_def bind_eq_Some_conv split: if_splits)
  obtain ss ts where ss: "length ss \<le> length ys" "\<forall>rps. AddStep (Some rps) \<in> set ss \<longrightarrow> Yield rps \<in> set ys"
    "runSteps (tableStep W) ss ?e = (ts, True)" "t = last (?e # ts)" using ingestAll_steps [OF t(1)] by blast
  have e: "table_ok W R F ?e" "slots ?e = 0"
    using New_facts(1-3) tracker_inv_New
    by (simp_all add: table_ok_def initBuildState_def emptyRuleTable_def rt_GetAllRows_def New_def newBitmapIndex_def NewProtoRuletable_def)
  have le: "n * length ss \<le> n * length ys" using ss(1) by simp
  then have room: "n * length ss + n < 2 ^ 32" using assms(4) by linarith
  have "slots t \<le> slots ?e + n * length ss \<and> table_ok W R F t"
    by (rule runSteps_slots [OF ss(3) e(1) assms(2)]) (use ss(2) assms(3) e(2) room ss(4) in auto)
  then have "slots t \<le> n * length ys" "table_ok W R F t" using e(2) order_trans [OF _ le] by simp_all
  moreover have "slots (finalizeBuild t) = slots t" by (simp add: finalizeBuild_def Compact_def bi_compact_def)
  ultimately show ?thesis using t(2) table_ok_finalizeBuild [of W R F t] by simp
qed

section \<open>An update of the example table\<close>

definition docSet :: RunnablePolicySet where
  "docSet = \<lparr>rps_Fqn = ''cerbos.resource.doc.vdefault'', rps_PolicySet = Some (ResourceSet docPolicy)\<rparr>"

definition docLoader :: Loader where
  "docLoader = \<lparr>ld_GetFirstMatch = (\<lambda>_. Some (Some docSet)), ld_GetAllMatching = (\<lambda>_. Some []), ld_policies = PlainLoader None, ld_GetRuleTable = None\<rparr>"

definition docUpdate :: Event where
  "docUpdate = \<lparr>ev_Kind = EventAddOrUpdatePolicy, ev_PolicyID = GenModuleIDFromFQN (w_hashStr docWorld) ''cerbos.resource.doc.vdefault'',
     ev_OldPolicyID = None, ev_Dependents = []\<rparr>"

lemma docSet_facts:
  "rowsOf docWorld docSet = [docRow]" "setOk docWorld {docRow} {''cerbos.resource.doc.vdefault''} 1 docSet"
  "hashes_ok docWorld {docRow} {''cerbos.resource.doc.vdefault''}"
  "table_ok docWorld {docRow} {''cerbos.resource.doc.vdefault''} docTable \<and> slots docTable \<le> 1"
proof -
  show rows': "rowsOf docWorld docSet = [docRow]"
    using arg_cong [OF docPolicy_rows, of fst] by (simp add: rowsOf_def docSet_def)
  show set: "setOk docWorld {docRow} {''cerbos.resource.doc.vdefault''} 1 docSet"
    by (simp add: setOk_def rows' setFqn_def) (simp add: docSet_def docPolicy_def)
  show ok: "hashes_ok docWorld {docRow} {''cerbos.resource.doc.vdefault''}"
    by (simp add: hashes_ok_def noCollisions_def docWorld_def) (simp add: docRow_def exampleExt_def)
  have "newRuleTableFromIterableLoader docWorld [Yield docSet] = Some docTable"
    using docTable_built(1) by (simp add: NewRuleTableFromLoader_def docSet_def)
  from built_table_ok [OF this ok] show "table_ok docWorld {docRow} {''cerbos.resource.doc.vdefault''} docTable \<and> slots docTable \<le> 1"
    using set by simp
qed

lemma docUpdate_visible:
  "\<exists>t1 t2. runSteps (tableStep docWorld) (updateSteps docUpdate (Some docSet)) docTable = ([t1, t2], True)
     \<and> processPolicyEvent docWorld docLoader docUpdate docTable = ([t1, t2], None)"
proof -
  have "checkPolicy (Some docSet) None docTable = None"
    unfolding checkPolicy_def option.case Let_def checkScopePermissions_def docTable_built(9) by code_simp
  moreover have "\<exists>t1 t2. runSteps (tableStep docWorld) (updateSteps docUpdate (Some docSet)) docTable = ([t1, t2], True)"
  proof -
    let ?t1 = "doDeletePolicy (ev_PolicyID docUpdate) docTable"
    obtain ok t2 where i: "ingestPolicy docWorld (Some docSet) ?t1 = (ok, t2)" by (cases "ingestPolicy docWorld (Some docSet) ?t1")
    have ok
      using i IndexRules_succeeds [of "w_ext docWorld"]
      by (rule_tac ingestPolicy_cases [OF i]) (auto simp: docWorld_def exampleExt_def dest!: arg_cong [of _ _ fst])
    then show ?thesis using i by (simp add: updateSteps_def docUpdate_def)
  qed
  ultimately show ?thesis
    by (auto simp: processPolicyEvent_def docUpdate_def docLoader_def stepsThenDependents_def reloadDependents_def updateSteps_def)
qed

lemma docUpdate_hyps:
  "loaderOk docWorld {docRow} {''cerbos.resource.doc.vdefault''} 1 docLoader"
  "\<forall>m \<in> set (NewRuleTableManager docTable # OnStorageEvent docWorld [(docUpdate, docLoader)] (NewRuleTableManager docTable)).
     roomFor 1 (ix_bi (rt_idx (mg_RuleTable m)))"
  "\<exists>m1 m2. OnStorageEvent docWorld [(docUpdate, docLoader)] (NewRuleTableManager docTable) = [m1, m2]"
proof -
  have "buildRuleTable docWorld docLoader = Inl ErrBuild"
    by (simp add: buildRuleTable_def docLoader_def NewRuleTableFromLoader_def LoadPolicies_def)
  then show "loaderOk docWorld {docRow} {''cerbos.resource.doc.vdefault''} 1 docLoader"
    using docSet_facts(2) by (simp add: loaderOk_def loaderGives_def) (simp add: docLoader_def)
  obtain t1 t2 where t: "runSteps (tableStep docWorld) (updateSteps docUpdate (Some docSet)) docTable = ([t1, t2], True)"
    "processPolicyEvent docWorld docLoader docUpdate docTable = ([t1, t2], None)" using docUpdate_visible by blast
  have on: "OnStorageEvent docWorld [(docUpdate, docLoader)] (NewRuleTableManager docTable) = map (\<lambda>t. (NewRuleTableManager docTable)\<lparr>mg_RuleTable := t\<rparr>) [t1, t2]"
    using t(2) by (simp add: handleEvent_def NewRuleTableManager_def) (simp add: docUpdate_def)
  then show "\<exists>m1 m2. OnStorageEvent docWorld [(docUpdate, docLoader)] (NewRuleTableManager docTable) = [m1, m2]" by simp
  have le: "slots t' \<le> 3" if "t' \<in> set (docTable # [t1, t2])" for t'
    using runSteps_slots [OF t(1) conjunct1 [OF docSet_facts(4)] docSet_facts(3), of 1, OF _ _ that] docSet_facts(2,4)
    by (auto simp: updateSteps_def docUpdate_def)
  show "\<forall>m \<in> set (NewRuleTableManager docTable # OnStorageEvent docWorld [(docUpdate, docLoader)] (NewRuleTableManager docTable)).
     roomFor 1 (ix_bi (rt_idx (mg_RuleTable m)))"
    using le [of docTable] le [of t1] le [of t2] unfolding on by (simp add: roomFor_def NewRuleTableManager_def)
qed

theorem manager_serves_consistent_tables_witness:
  "\<exists>m1 m2. OnStorageEvent docWorld [(docUpdate, docLoader)] (NewRuleTableManager docTable) = [m1, m2]
     \<and> table_ok docWorld {docRow} {''cerbos.resource.doc.vdefault''} (mg_RuleTable m1)
     \<and> table_ok docWorld {docRow} {''cerbos.resource.doc.vdefault''} (mg_RuleTable m2)"
proof -
  have "table_ok docWorld {docRow} {''cerbos.resource.doc.vdefault''} (mg_RuleTable (NewRuleTableManager docTable))"
    using docSet_facts(4) by (simp add: NewRuleTableManager_def)
  from manager_serves_consistent_tables [OF this docSet_facts(3) _ docUpdate_hyps(2)] docUpdate_hyps(1,3) show ?thesis by fastforce
qed

theorem requests_never_panic_witness:
  "fst (mgr_Check docWorld exampleCel (\<lambda>_ _. Some ([], False)) exampleParams exampleInput (NewRuleTableManager docTable)) \<noteq> Inl PanicNilMeta"
proof -
  have "table_ok docWorld {docRow} {''cerbos.resource.doc.vdefault''} (mg_RuleTable (NewRuleTableManager docTable))"
    using docSet_facts(4) by (simp add: NewRuleTableManager_def)
  from requests_never_panic [OF this docSet_facts(3) _ docUpdate_hyps(2)] docUpdate_hyps(1) show ?thesis by simp
qed

end
