(* ===== verification/ManagerEvents.thy ===== *)
theory ManagerEvents
  imports ManagerProps
begin

text \<open>
  What a storage event does to the rows of the table: an update that succeeds replaces the rows of the policy, one that fails
  loses them, and row identifiers are reused however often policies are replaced.
\<close>

section \<open>Identifiers are reused\<close>

lemma IndexRule_slots_exact:
  assumes "bi_inv (ext_compile E) (ix_bi m)" and "hasRoom (ix_bi m)" and "IndexRule E rule m = (ok, m')"
    and "noCollisions E R" and "caches_ok E R m" and "rule \<in> R"
  shows "length (bi_bindings (ix_bi m')) = length (bi_bindings (ix_bi m)) + (if ok \<and> bi_freeIDs (ix_bi m) = [] then 1 else 0)"
  using assms(3-6)
proof (cases rule: IndexRule_cases)
  case (added c core)
  let ?bi = "(ix_bi m)\<lparr>bi_coresBySum := c\<rparr>"
  obtain bid idx0 where alloc: "allocID ?bi = (bid, idx0)" by fastforce
  have inv: "slots_inv ?bi" "hasRoom ?bi" using assms(1,2) by (simp_all add: bi_inv_def)
  show ?thesis
    unfolding added(4) addBinding_fields(1) [OF alloc] using added(1) allocID_facts(3) [OF inv alloc] by (simp add: allocID_facts(1) [OF inv alloc])
qed simp

lemma full_rows:
  assumes "slots_inv bi" and "bi_freeIDs bi = []"
  shows "length (rows bi) = length (bi_bindings bi)"
proof -
  have "bi_bindings bi ! n \<noteq> None" if "n < length (bi_bindings bi)" for n
  proof -
    have n: "unat (of_nat n :: u32) = n" using that assms(1) by (simp add: slots_inv_def unat_of_nat)
    then have "getBinding bi (of_nat n) \<noteq> None" using assms that by (auto simp: slots_inv_def)
    then show ?thesis using n that by (simp add: getBinding_def)
  qed
  then have "filter (\<lambda>b. b \<noteq> None) (bi_bindings bi) = bi_bindings bi" by (auto simp: filter_id_conv in_set_conv_nth)
  then show ?thesis by (simp add: rows_def map_filter_def)
qed

lemma IndexRules_slots_reused:
  assumes "bi_inv (ext_compile E) (ix_bi m)" and "roomFor (length rules) (ix_bi m)" and "IndexRules E rules m = (ok, m')"
    and "noCollisions E R" and "caches_ok E R m" and "set rules \<subseteq> R"
  shows "length (bi_bindings (ix_bi m')) \<le> max (length (bi_bindings (ix_bi m))) (length (GetAllRows m'))
    \<and> length (GetAllRows m) \<le> length (GetAllRows m')"
  using assms(1,2,3,5,6)
proof (induction rules arbitrary: m)
  case (Cons rule rules)
  obtain ok1 m1 where one: "IndexRule E rule m = (ok1, m1)" by fastforce
  have room: "hasRoom (ix_bi m)" and rule: "rule \<in> R" "set rules \<subseteq> R"
    using Cons.prems(2,5) by (auto simp: hasRoom_def roomFor_def)
  note F = IndexRule_facts [OF Cons.prems(1) room one assms(4) Cons.prems(4) rule(1)]
  note S = IndexRule_slots_exact [OF Cons.prems(1) room one assms(4) Cons.prems(4) rule(1)]
  have inv: "slots_inv (ix_bi m)" "slots_inv (ix_bi m1)" using Cons.prems(1) F(1) by (simp_all add: bi_inv_def)
  have more: "length (GetAllRows m1) = length (GetAllRows m) + (if ok1 then 1 else 0)"
  proof (cases ok1)
    case True
    then obtain bid b where "getBinding (ix_bi m) bid = None" "getBinding (ix_bi m1) = (getBinding (ix_bi m))(bid \<mapsto> b)" using F(3) by auto
    from rows_add(1) [OF inv this] True show ?thesis by (metis GetAllRows_rows Suc_eq_plus1 size_add_mset size_mset)
  next
    case False
    then have "GetAllRows m1 = GetAllRows m"
      using F(3) rows_filter [OF inv, of "\<lambda>_. True"] by (simp add: GetAllRows_rows split: option.split)
    then show ?thesis using False by simp
  qed
  have fresh: "length (bi_bindings (ix_bi m1)) \<le> max (length (bi_bindings (ix_bi m))) (length (GetAllRows m1))"
    using S more full_rows [OF inv(1)] by (auto simp: GetAllRows_rows)
  show ?case
  proof (cases ok1)
    case False
    then show ?thesis using Cons.prems(3) one fresh more by auto
  next
    case True
    have "roomFor (length rules) (ix_bi m1)" using Cons.prems(2) F(4) by (simp add: roomFor_def)
    moreover have "IndexRules E rules m1 = (ok, m')" using Cons.prems(3) one True by simp
    ultimately show ?thesis using Cons.IH [OF F(1) _ _ F(2) rule(2)] fresh more by fastforce
  qed
qed simp

text \<open>A bound on the rows is a bound on the slots.\<close>

definition compactTable :: "World \<Rightarrow> RuleRow set \<Rightarrow> string set \<Rightarrow> nat \<Rightarrow> nat \<Rightarrow> RuleTable \<Rightarrow> bool" where
  "compactTable W R F n bound rt \<longleftrightarrow> hashes_ok W R F \<and> table_ok W R F rt \<and> slots rt \<le> bound \<and> bound + n < 2 ^ 32"

lemma delete_slots:
  assumes "table_ok W R F t"
  shows "slots (doDeletePolicy moduleID t) = slots t"
proof (cases "map_of (pt_Meta (rt_proto t)) (RawValue moduleID)")
  case (Some md)
  have "bi_inv (ext_compile (w_ext W)) (ix_bi (rt_idx t))" using assms by (simp add: table_ok_def)
  then show ?thesis using DeletePolicy_facts(3) by (simp add: doDeletePolicy_fields(2) [OF Some])
qed (simp add: doDeletePolicy_absent)

lemma compactTable_delete: "compactTable W R F n bound t \<Longrightarrow> compactTable W R F n bound (doDeletePolicy moduleID t)"
  using delete_slots [of W R F t moduleID] by (auto simp: compactTable_def table_ok_delete)

lemma compactTable_add:
  assumes "compactTable W R F n bound t" and "setOk W R F n rps" and "ingestPolicy W (Some rps) t = (ok, t')" and "length (rt_GetAllRows t') \<le> bound"
  shows "compactTable W R F n bound t'"
proof -
  have room: "roomFor n (ix_bi (rt_idx t))" "roomFor (length (rowsOf W rps)) (ix_bi (rt_idx t))"
    using assms(1,2) by (auto simp: compactTable_def roomFor_def setOk_def)
  obtain idx where "IndexRules (w_ext W) (rowsOf W rps) (rt_idx t) = (ok, idx)" "ix_bi (rt_idx t') = ix_bi idx"
    using assms(3) by (rule ingestPolicy_cases) (auto simp: IndexParentRoles_def)
  from IndexRules_slots_reused [OF _ room(2) this(1), of R] this(2) assms(1,2,4)
  have "slots t' \<le> bound" by (auto simp: compactTable_def table_ok_def hashes_ok_def setOk_def rt_GetAllRows_def GetAllRows_def)
  then show ?thesis using assms table_ok_add [OF _ _ assms(2) room(1) assms(3)] by (auto simp: compactTable_def)
qed

interpretation compactTables: table_invariant W "compactTable W R F n bound" "\<lambda>rt. length (rt_GetAllRows rt) \<le> bound" "setOk W R F n"
  for W R F n bound
  by unfold_locales (auto intro: compactTable_delete compactTable_add)

text \<open>C8 (bounds).  However often policies are replaced, added and removed, the binding table of the index never grows beyond the
  largest number of rows a visible table has had: identifiers of deleted rows are reused, so all of them stay below that number
  and the 32-bit identifiers do not run out.\<close>

theorem row_ids_bounded:
  assumes "table_ok W R F (mg_RuleTable mgr)" and "hashes_ok W R F" and "length (bi_bindings (ix_bi (rt_idx (mg_RuleTable mgr)))) \<le> bound"
    and "bound + n < 2 ^ 32"
    and "\<forall>(evt, L) \<in> set events. loaderGives W (setOk W R F n) (\<lambda>rt. table_ok W R F rt \<and> length (bi_bindings (ix_bi (rt_idx rt))) \<le> bound) L"
    and "\<forall>m \<in> set (mgr # OnStorageEvent W events mgr). length (rt_GetAllRows (mg_RuleTable m)) \<le> bound"
    and "m \<in> set (OnStorageEvent W events mgr)"
  shows "length (bi_bindings (ix_bi (rt_idx (mg_RuleTable m)))) \<le> bound \<and> (\<forall>b \<in> set (rt_GetAllRows (mg_RuleTable m)). unat (b_ID b) < bound)"
proof -
  have "\<forall>(evt, L) \<in> set events. loaderGives W (setOk W R F n) (compactTable W R F n bound) L"
    using assms(2,4,5) by (auto simp: loaderGives_def compactTable_def)
  from compactTables.OnStorageEvent_inv [OF _ this assms(6,7)] assms(1-4) have ok: "compactTable W R F n bound (mg_RuleTable m)"
    by (simp add: compactTable_def)
  then have len: "slots (mg_RuleTable m) \<le> bound" by (simp add: compactTable_def)
  have inv: "slots_inv (ix_bi (rt_idx (mg_RuleTable m)))" using ok by (simp add: compactTable_def table_ok_def bi_inv_def)
  have "unat (b_ID b) < bound" if "b \<in> set (rt_GetAllRows (mg_RuleTable m))" for b
  proof -
    have "b \<in> set (rows (ix_bi (rt_idx (mg_RuleTable m))))" using that by (simp add: rt_GetAllRows_def GetAllRows_rows)
    then obtain i where i: "getBinding (ix_bi (rt_idx (mg_RuleTable m))) i = Some b" unfolding set_rows [OF inv] by blast
    then have "unat i < slots (mg_RuleTable m)" by (auto simp: getBinding_def split: if_splits)
    moreover have "b_ID b = i" using i inv by (simp add: slots_inv_def)
    ultimately show ?thesis using len by simp
  qed
  with len show ?thesis by blast
qed

section \<open>Updates\<close>

text \<open>The names of the policies an update replaces: those stored under its identifier and under the old one.\<close>

definition replaced :: "Event \<Rightarrow> RuleTable \<Rightarrow> string set" where
  "replaced evt rt = {f. \<exists>moduleID \<in> insert (ev_PolicyID evt) (set_option (ev_OldPolicyID evt)).
     \<exists>md. map_of (pt_Meta (rt_proto rt)) (RawValue moduleID) = Some md \<and> f = md_Fqn md}"

definition others :: "Event \<Rightarrow> RuleTable \<Rightarrow> BindingHandle list" where
  "others evt rt = filter (\<lambda>b. b_OriginFqn b \<notin> replaced evt rt) (rt_GetAllRows rt)"

lemma delete_rows:
  assumes "table_ok W R F t" and "hashes_ok W R F"
  shows "rt_GetAllRows (doDeletePolicy moduleID t)
    = filter (\<lambda>b. \<nexists>md. map_of (pt_Meta (rt_proto t)) (RawValue moduleID) = Some md \<and> b_OriginFqn b = md_Fqn md) (rt_GetAllRows t)"
proof (cases "map_of (pt_Meta (rt_proto t)) (RawValue moduleID)")
  case (Some md)
  have "bi_inv (ext_compile (w_ext W)) (ix_bi (rt_idx t))" using assms(1) by (simp add: table_ok_def)
  moreover have "md_Fqn md \<in> F" using assms(1) Some unfolding table_ok_def by blast
  then have "md_Fqn md \<noteq> ''''" using assms(2) by (auto simp: hashes_ok_def)
  ultimately have "bi_inv (ext_compile (w_ext W)) (ix_bi (rt_idx t))" "md_Fqn md \<noteq> ''''" by auto
  from DeletePolicy_rows [OF this] show ?thesis
    using Some unfolding doDeletePolicy_fields(1) [OF Some] by (simp add: rt_GetAllRows_def)
qed (simp add: doDeletePolicy_absent)

lemma delete_meta:
  "map_of (pt_Meta (rt_proto (doDeletePolicy moduleID t))) k = (if k = RawValue moduleID then None else map_of (pt_Meta (rt_proto t)) k)"
  by (cases "map_of (pt_Meta (rt_proto t)) (RawValue moduleID)") (auto simp: doDeletePolicy_absent doDeletePolicy_fields(6) gomap_simps)

text \<open>After the deletions of an update.\<close>

definition cleared :: "Event \<Rightarrow> RuleTable \<Rightarrow> RuleTable" where
  "cleared evt rt = (case ev_OldPolicyID evt of None \<Rightarrow> doDeletePolicy (ev_PolicyID evt) rt
     | Some old \<Rightarrow> doDeletePolicy old (doDeletePolicy (ev_PolicyID evt) rt))"

lemma cleared_facts:
  assumes "table_ok W R F rt" and "hashes_ok W R F"
  shows "table_ok W R F (cleared evt rt)" and "slots (cleared evt rt) = slots rt" and "rt_GetAllRows (cleared evt rt) = others evt rt"
proof -
  note ok = table_ok_delete [OF assms, of "ev_PolicyID evt"]
  show "table_ok W R F (cleared evt rt)" "slots (cleared evt rt) = slots rt"
    using ok by (auto simp: cleared_def table_ok_delete [OF _ assms(2)] delete_slots [OF assms(1)] delete_slots [OF ok] split: option.split)
  show "rt_GetAllRows (cleared evt rt) = others evt rt"
    unfolding cleared_def others_def replaced_def
    by (cases "ev_OldPolicyID evt")
      (auto simp: delete_rows [OF assms] delete_rows [OF ok assms(2)] delete_meta intro!: filter_cong)
qed

lemma update_runs:
  "runSteps (tableStep W) (updateSteps evt (Some rps)) rt
     = (case ingestPolicy W (Some rps) (cleared evt rt) of (ok, t) \<Rightarrow>
          (doDeletePolicy (ev_PolicyID evt) rt # (if ev_OldPolicyID evt = None then [] else [cleared evt rt]) @ [t], ok))"
  by (cases "ev_OldPolicyID evt") (auto simp: updateSteps_def cleared_def split: prod.split bool.split)

text \<open>The table after the addition has the new rows, up to the first that does not compile.\<close>

lemma update_rows:
  assumes "table_ok W R F rt" and "hashes_ok W R F" and "setOk W R F n rps" and "slots rt + n < 2 ^ 32"
    and "ingestPolicy W (Some rps) (cleared evt rt) = (ok, t)"
  obtains k bs where "k \<le> length (rowsOf W rps)" "ok \<longleftrightarrow> k = length (rowsOf W rps)"
    "mset (rt_GetAllRows t) = mset (others evt rt) + mset bs" "list_all2 (bindingFor (w_ext W)) (take k (rowsOf W rps)) bs"
proof -
  note C = cleared_facts [OF assms(1,2), of evt]
  obtain idx where idx: "IndexRules (w_ext W) (rowsOf W rps) (rt_idx (cleared evt rt)) = (ok, idx)" "GetAllRows (rt_idx t) = GetAllRows idx"
    using assms(5) by (rule ingestPolicy_cases) (auto simp: IndexParentRoles_def GetAllRows_def)
  have room: "roomFor (length (rowsOf W rps)) (ix_bi (rt_idx (cleared evt rt)))" using assms(3,4) C(2) by (simp add: roomFor_def setOk_def)
  obtain k where k: "k \<le> length (rowsOf W rps)" "ok \<longleftrightarrow> k = length (rowsOf W rps)"
    "rowsAdded (w_ext W) (take k (rowsOf W rps)) (rt_idx (cleared evt rt)) idx"
    using IndexRules_facts [OF _ room idx(1), of R] C(1) assms(2,3) by (auto simp: table_ok_def hashes_ok_def setOk_def)
  then show thesis using that idx(2) C(3) by (auto simp: rowsAdded_def rt_GetAllRows_def)
qed


text \<open>C7 (error).  An update whose addition fails reports an error, but by then the replaced policy is gone: the table that stays
  in service has the rows of the other policies and those rows of the new policy that come before the first that does not compile.\<close>

theorem failed_update_loses_policy:
  assumes "table_ok W R F rt" and "hashes_ok W R F" and "setOk W R F n rps" and "length (bi_bindings (ix_bi (rt_idx rt))) + n < 2 ^ 32"
    and "ev_Kind evt = EventAddOrUpdatePolicy" and "ld_GetFirstMatch L [ev_PolicyID evt] = Some (Some rps)"
    and "processPolicyEvent W L evt rt = (ts, Some ErrIngest)" and "ev_Dependents evt = []"
  shows "\<exists>k bs. k < length (rowsOf W rps) \<and> ts \<noteq> [] \<and> mset (rt_GetAllRows (last ts)) = mset (others evt rt) + mset bs
    \<and> list_all2 (bindingFor (w_ext W)) (take k (rowsOf W rps)) bs"
proof -
  obtain ok t where i: "ingestPolicy W (Some rps) (cleared evt rt) = (ok, t)" by (cases "ingestPolicy W (Some rps) (cleared evt rt)")
  have "\<not> ok \<and> (\<exists>ts'. ts = ts' @ [t])"
    using assms(5-8) i by (auto simp: processPolicyEvent_def stepsThenDependents_def update_runs reloadDependents_def split: option.splits bool.splits)
  then show ?thesis using update_rows [OF assms(1-4) i] by fastforce
qed

section \<open>Updates of the example table\<close>

text \<open>An update with a policy one of whose variables does not compile.\<close>

definition badVariable :: Variable where
  "badVariable = \<lparr>var_Name = ''v'', var_Expr = \<lparr>ex_Original = ''?''\<rparr>\<rparr>"

definition badSet :: RunnablePolicySet where
  "badSet = \<lparr>rps_Fqn = ''cerbos.resource.doc.vdefault'', rps_PolicySet = Some (ResourceSet (docPolicy\<lparr>rrps_Policies :=
     map (\<lambda>p. p\<lparr>rsp_OrderedVariables := [badVariable], rsp_Rules := map (\<lambda>r. r\<lparr>ru_Effect := EFFECT_DENY\<rparr>) (rsp_Rules p)\<rparr>)
       (rrps_Policies docPolicy)\<rparr>))\<rparr>"

definition badRow :: RuleRow where
  "badRow = docRow\<lparr>rr_Effect := EFFECT_DENY, rr_Params := Some \<lparr>OrderedVariables = [badVariable], Constants = []\<rparr>\<rparr>"

definition failExt :: Ext where
  "failExt = exampleExt\<lparr>ext_celCompile := (\<lambda>s. if s = ''?'' then None else Some s),
     ext_hashParams := (\<lambda>p. case p of None \<Rightarrow> 0 | Some p \<Rightarrow> 1 + of_nat (length (OrderedVariables p)))\<rparr>"

definition failWorld :: World where
  "failWorld = docWorld\<lparr>w_ext := failExt\<rparr>"

lemma worlds: "w_ext failWorld = failExt" "w_ext docWorld = exampleExt"
  by (simp_all add: failWorld_def docWorld_def)

definition failLoader :: Loader where
  "failLoader = docLoader\<lparr>ld_GetFirstMatch := (\<lambda>_. Some (Some badSet))\<rparr>"

lemma docUpdate_others: "others docUpdate docTable = []" "length (rt_GetAllRows docTable) = 1"
proof -
  obtain b where b: "rt_GetAllRows docTable = [b]" "bindingFor exampleExt docRow b"
    using docTable_index(2) by (auto simp: rt_GetAllRows_def)
  have "table_ok docWorld {docRow} {''cerbos.resource.doc.vdefault''} docTable" using docSet_facts(4) by blast
  then obtain md where "map_of (pt_Meta (rt_proto docTable)) (RawValue (ev_PolicyID docUpdate)) = Some md" "md_Fqn md = ''cerbos.resource.doc.vdefault''"
    using b docRow_binding(8) [OF b(2)]
    by (auto simp: table_ok_def registered_def docUpdate_def RawValue_def GenModuleIDFromFQN_def)
  then show "others docUpdate docTable = []" "length (rt_GetAllRows docTable) = 1"
    using b docRow_binding(8) [OF b(2)] by (auto simp: others_def replaced_def)
qed

lemma badSet_facts:
  "rowsOf failWorld badSet = [badRow]" "setOk failWorld {docRow, badRow} {''cerbos.resource.doc.vdefault''} 1 badSet"
  "hashes_ok failWorld {docRow, badRow} {''cerbos.resource.doc.vdefault''}"
  "table_ok failWorld {docRow, badRow} {''cerbos.resource.doc.vdefault''} docTable"
proof -
  show rows': "rowsOf failWorld badSet = [badRow]" by code_simp
  show "setOk failWorld {docRow, badRow} {''cerbos.resource.doc.vdefault''} 1 badSet"
    by (simp add: setOk_def rows' setFqn_def) (simp add: badSet_def docPolicy_def)
  have "noCollisions failExt {docRow, badRow}"
    by (simp add: noCollisions_def badRow_def) (simp add: docRow_def failExt_def exampleExt_def hasDerivedParams_def condDisc_def)
  then show "hashes_ok failWorld {docRow, badRow} {''cerbos.resource.doc.vdefault''}"
    by (simp add: hashes_ok_def failWorld_def)
  have progs: "getCelPrograms failExt [] = getCelPrograms exampleExt []" by (simp add: getCelPrograms_def)
  have params: "rr_Params docRow = Some \<lparr>OrderedVariables = [], Constants = []\<rparr>" "rr_DerivedRoleParams docRow = None" by (simp_all add: docRow_def)
  have hash: "ext_hashParams failExt p = ext_hashParams exampleExt p \<and> paramsFor failExt p = paramsFor exampleExt p"
    if "p \<in> {rr_Params docRow, rr_DerivedRoleParams docRow}" for p
    using that params progs by (auto simp: failExt_def exampleExt_def paramsFor_def paramVariables_def getCelPrograms_def fun_eq_iff)
  have cache: "cache_ok failExt {docRow, badRow} c" if "cache_ok exampleExt {docRow} c" for c
    using that hash unfolding cache_ok_def by fastforce
  have old: "table_ok docWorld {docRow} {''cerbos.resource.doc.vdefault''} docTable" using docSet_facts(4) by blast
  have core: "coreFor failExt docRow = coreFor exampleExt docRow" using hash by (auto simp: coreFor_def fun_eq_iff)
  have "cores_ok failExt {docRow, badRow} c" if "cores_ok exampleExt {docRow} c" for c
    using that core unfolding cores_ok_def by (auto simp: failExt_def)
  then have "caches_ok failExt {docRow, badRow} (rt_idx docTable)" using old cache by (auto simp: table_ok_def caches_ok_def docWorld_def)
  moreover have "w_hashStr failWorld = w_hashStr docWorld" "ext_compile failExt = ext_compile (w_ext docWorld)"
    by (simp_all add: failWorld_def failExt_def docWorld_def)
  ultimately show "table_ok failWorld {docRow, badRow} {''cerbos.resource.doc.vdefault''} docTable"
    using old unfolding table_ok_def registered_def by (simp only: worlds) blast
qed

lemma badUpdate_fails: "\<exists>ts. processPolicyEvent failWorld failLoader docUpdate docTable = (ts, Some ErrIngest)"
proof -
  have slots': "slots docTable + 1 < 2 ^ 32" using docSet_facts(4) by simp
  have E: "ev_Kind docUpdate = EventAddOrUpdatePolicy" "ev_OldPolicyID docUpdate = None" by (simp_all add: docUpdate_def)
  obtain ok t where i: "ingestPolicy failWorld (Some badSet) (cleared docUpdate docTable) = (ok, t)" by fastforce
  obtain k bs where k: "ok \<longleftrightarrow> k = 1" "list_all2 (bindingFor failExt) (take k [badRow]) bs"
    using update_rows [OF badSet_facts(4,3,2) slots' i] unfolding badSet_facts(1) worlds by (metis One_nat_def length_Cons list.size(3))
  have "\<not> bindingFor failExt badRow b" for b
    by (auto simp: bindingFor_def coreFor_def hasParams_def paramsFor_def badRow_def getCelPrograms_def paramVariables_def badVariable_def failExt_def)
      (simp_all add: docRow_def)
  then have "\<not> ok" using k by (auto simp: list_all2_Cons1)
  moreover have "checkPolicy (Some badSet) None docTable = None"
    unfolding checkPolicy_def option.case Let_def checkScopePermissions_def docTable_built(9) by code_simp
  ultimately show ?thesis
    using i by (simp add: processPolicyEvent_def E failLoader_def) (simp add: stepsThenDependents_def update_runs)
qed

theorem failed_update_loses_policy_witness:
  "\<exists>ts. processPolicyEvent failWorld failLoader docUpdate docTable = (ts, Some ErrIngest)
     \<and> length (rt_GetAllRows docTable) = 1 \<and> rt_GetAllRows (last ts) = []"
proof -
  obtain ts where ts: "processPolicyEvent failWorld failLoader docUpdate docTable = (ts, Some ErrIngest)" using badUpdate_fails by blast
  have slots': "slots docTable + 1 < 2 ^ 32" using docSet_facts(4) by simp
  have L: "ld_GetFirstMatch failLoader [ev_PolicyID docUpdate] = Some (Some badSet)" by (simp add: failLoader_def)
  have E: "ev_Kind docUpdate = EventAddOrUpdatePolicy" "ev_Dependents docUpdate = []" by (simp_all add: docUpdate_def)
  obtain k bs where k: "k < 1" "mset (rt_GetAllRows (last ts)) = mset (others docUpdate docTable) + mset bs" "list_all2 (bindingFor failExt) (take k [badRow]) bs"
    using failed_update_loses_policy [OF badSet_facts(4,3,2) slots' E(1) L ts E(2)] by (auto simp: badSet_facts(1) worlds)
  then show ?thesis using docUpdate_others ts by auto
qed


theorem row_ids_bounded_witness:
  "\<exists>m1 m2. OnStorageEvent docWorld [(docUpdate, docLoader)] (NewRuleTableManager docTable) = [m1, m2]
     \<and> length (bi_bindings (ix_bi (rt_idx (mg_RuleTable m2)))) \<le> 1"
proof -
  let ?F = "{''cerbos.resource.doc.vdefault''}"
  obtain t1 t2 where t: "runSteps (tableStep docWorld) (updateSteps docUpdate (Some docSet)) docTable = ([t1, t2], True)"
    "processPolicyEvent docWorld docLoader docUpdate docTable = ([t1, t2], None)" using docUpdate_visible by blast
  let ?ms = "map (\<lambda>t. (NewRuleTableManager docTable)\<lparr>mg_RuleTable := t\<rparr>) [t1, t2]"
  have on: "OnStorageEvent docWorld [(docUpdate, docLoader)] (NewRuleTableManager docTable) = ?ms"
    using t(2) by (simp add: handleEvent_def NewRuleTableManager_def) (simp add: docUpdate_def)
  have steps: "t1 = cleared docUpdate docTable" "ingestPolicy docWorld (Some docSet) (cleared docUpdate docTable) = (True, t2)"
    using t(1) by (auto simp: update_runs cleared_def docUpdate_def split: prod.splits)
  have slots': "slots docTable + 1 < 2 ^ 32" using docSet_facts(4) by simp
  note ok = conjunct1 [OF docSet_facts(4)]
  have t1: "rt_GetAllRows t1 = []" using cleared_facts(3) [OF ok docSet_facts(3), of docUpdate] docUpdate_others(1) steps(1) by simp
  obtain bs where "mset (rt_GetAllRows t2) = mset bs" "list_all2 (bindingFor exampleExt) [docRow] bs"
    using update_rows [OF ok docSet_facts(3,2) slots' steps(2)] docUpdate_others(1) by (auto simp: docSet_facts(1) worlds)
  then have t2: "length (rt_GetAllRows t2) = 1" by (auto dest: list_all2_lengthD simp flip: size_mset)
  have load: "loaderGives docWorld (setOk docWorld {docRow} ?F 1) (\<lambda>rt. table_ok docWorld {docRow} ?F rt \<and> slots rt \<le> 1) docLoader"
  proof -
    have "buildRuleTable docWorld docLoader = Inl ErrBuild"
      by (simp add: buildRuleTable_def docLoader_def NewRuleTableFromLoader_def LoadPolicies_def)
    then show ?thesis using docUpdate_hyps(1) unfolding loaderOk_def loaderGives_def by simp
  qed
  have "table_ok docWorld {docRow} ?F (mg_RuleTable (NewRuleTableManager docTable))" using ok by (simp add: NewRuleTableManager_def)
  note bounded = row_ids_bounded [OF this docSet_facts(3), of 1 1 "[(docUpdate, docLoader)]", unfolded on]
  have "slots (mg_RuleTable m) \<le> 1" if "m \<in> set ?ms" for m
    by (rule conjunct1 [OF bounded [OF _ _ _ _ that]])
      (use load t1 t2 docUpdate_others(2) docSet_facts(4) in \<open>simp_all add: NewRuleTableManager_def\<close>)
  from this [of "(NewRuleTableManager docTable)\<lparr>mg_RuleTable := t2\<rparr>"] show ?thesis using on by simp
qed

end
