(* ===== verification/PlanAst.thy ===== *)
theory PlanAst
  imports PolicyTypes
begin

text \<open>
  The trees of the query planner: CEL expressions, the nodes of a plan, and the operations that build and combine them.  It models
  the node operations of \<^verbatim>\<open>internal/ruletable/planner/planner.go\<close> and the helpers of \<^verbatim>\<open>planner/internal/utils.go\<close>.  Identifiers of
  expressions and type annotations, which the planner renumbers or ignores, are left out.
\<close>

section \<open>Expressions\<close>

text \<open>A CEL expression as the parser and the partial evaluator exchange it; \<open>ENil\<close> is a nil expression.\<close>

datatype PConst = CNull | CBool bool | CInt64 "64 word" | CUint64 "64 word" | CDouble "64 word" | CString string | CBytes "8 word list"
  | CDuration string | CTimestamp string

datatype PExpr =
    ENil
  | EConst PConst
  | EIdent string
  | ESelect PExpr string bool
  | ECall "PExpr option" string "PExpr list"
  | EList "PExpr list" "nat list"
  | EStruct string "PEntry list"
  | EComp PExpr string string string PExpr PExpr PExpr PExpr
and PEntry = FieldEntry string PExpr bool | MapEntry PExpr PExpr bool

text \<open>Values of filters, as JSON has them; a number is kept by its bits.\<close>

datatype PValue = VNull | VBool bool | VNumber "64 word" | VString string | VList "PValue list" | VStruct "(string \<times> PValue) list"

text \<open>The operands of a filter; \<open>OpNil\<close> is a nil operand and \<open>OpEmpty\<close> one whose node is not set.\<close>

datatype Operand = OpNil | OpEmpty | OpValue PValue | OpVariable string | OpExpr string "Operand list"

text \<open>A node of a plan; \<open>QpEmpty\<close> has no content.\<close>

datatype LogicalOperator = OPERATOR_UNSPECIFIED | OPERATOR_AND | OPERATOR_OR | OPERATOR_NOT

datatype QpN = QpEmpty | QpExpr PExpr | QpLO LogicalOperator "QpN list"

text \<open>Code outside the planner it relies on: the hashes of messages, the text of an expression and of a value, the conversion of
  constants to values, and the functions of the CEL environment that only work on optional values.\<close>

record PlanExt =
  pe_hashNode :: "QpN \<Rightarrow> u64"
  pe_hashOp :: "Operand \<Rightarrow> u64"
  pe_exprString :: "PExpr \<Rightarrow> string"
  pe_marshalValue :: "PValue \<Rightarrow> string option"
  pe_NewValue :: "PConst \<Rightarrow> PValue option"
  pe_optionalFuncs :: "string list"

section \<open>Constructors\<close>

definition opAnd :: string where "opAnd = ''_&&_''"
definition opOr :: string where "opOr = ''_||_''"
definition opNot :: string where "opNot = ''!_''"
definition opAdd :: string where "opAdd = ''_+_''"
definition opIn :: string where "opIn = ''@in''"
definition opConditional :: string where "opConditional = ''_?_:_''"

definition MkListExprProto :: "PExpr list \<Rightarrow> PExpr" where
  "MkListExprProto elems = EList elems []"

definition MkCallExprProto :: "string \<Rightarrow> PExpr list \<Rightarrow> PExpr" where
  "MkCallExprProto op args = ECall None op args"

definition mkConstStringExpr :: "string \<Rightarrow> PExpr" where
  "mkConstStringExpr s = EConst (CString s)"

definition TrueExpr :: PExpr where
  "TrueExpr = EConst (CBool True)"

definition FalseExpr :: PExpr where
  "FalseExpr = EConst (CBool False)"

section \<open>Nodes of a plan\<close>

definition MkNodeFromLO :: "LogicalOperator \<times> QpN list \<Rightarrow> QpN" where
  "MkNodeFromLO lo = QpLO (fst lo) (snd lo)"

definition mkOrLogicalOperation :: "QpN list \<Rightarrow> LogicalOperator \<times> QpN list" where
  "mkOrLogicalOperation nodes = (OPERATOR_OR, nodes)"

definition MkAndLogicalOperation :: "QpN list \<Rightarrow> LogicalOperator \<times> QpN list" where
  "MkAndLogicalOperation nodes = (OPERATOR_AND, nodes)"

definition MkFalseNode :: QpN where
  "MkFalseNode = QpExpr FalseExpr"

definition mkTrueNode :: QpN where
  "mkTrueNode = QpExpr TrueExpr"

text \<open>The value of a node that is a constant.\<close>

fun IsNodeConstBool :: "QpN option \<Rightarrow> bool option" where
  "IsNodeConstBool (Some (QpExpr (EConst (CBool b)))) = Some b"
| "IsNodeConstBool _ = None"

fun InvertNodeBooleanValue :: "QpN \<Rightarrow> QpN" where
  "InvertNodeBooleanValue (QpLO OPERATOR_NOT [node]) = node"
| "InvertNodeBooleanValue (QpLO OPERATOR_NOT nodes) = MkNodeFromLO (MkAndLogicalOperation nodes)"
| "InvertNodeBooleanValue node = QpLO OPERATOR_NOT [node]"

subsection \<open>Duplicates\<close>

text \<open>The entries of struct expressions are ordered by their keys before nodes are compared.\<close>

definition structEntryKey :: "PlanExt \<Rightarrow> PEntry \<Rightarrow> string" where
  "structEntryKey X entry =
     (case entry of
        FieldEntry k v opt \<Rightarrow> k
      | MapEntry k v opt \<Rightarrow>
          (case k of EConst (CString s) \<Rightarrow> if s \<noteq> '''' then s else pe_exprString X k | _ \<Rightarrow> pe_exprString X k))"

primrec orderStructEntriesExpr :: "PlanExt \<Rightarrow> PExpr \<Rightarrow> PExpr" and orderStructEntry :: "PlanExt \<Rightarrow> PEntry \<Rightarrow> PEntry" where
  "orderStructEntriesExpr X ENil = ENil"
| "orderStructEntriesExpr X (EConst c) = EConst c"
| "orderStructEntriesExpr X (EIdent n) = EIdent n"
| "orderStructEntriesExpr X (ESelect e f t) = ESelect (orderStructEntriesExpr X e) f t"
| "orderStructEntriesExpr X (ECall t fn args) = ECall (map_option (orderStructEntriesExpr X) t) fn (map (orderStructEntriesExpr X) args)"
| "orderStructEntriesExpr X (EList es opts) = EList (map (orderStructEntriesExpr X) es) opts"
| "orderStructEntriesExpr X (EStruct n entries) = EStruct n (sort_key (structEntryKey X) (map (orderStructEntry X) entries))"
| "orderStructEntriesExpr X (EComp r v v2 a i c s res) =
     EComp (orderStructEntriesExpr X r) v v2 a (orderStructEntriesExpr X i) (orderStructEntriesExpr X c)
       (orderStructEntriesExpr X s) (orderStructEntriesExpr X res)"
| "orderStructEntry X (FieldEntry k v opt) = FieldEntry k (orderStructEntriesExpr X v) opt"
| "orderStructEntry X (MapEntry k v opt) = MapEntry (orderStructEntriesExpr X k) (orderStructEntriesExpr X v) opt"

primrec orderStructEntriesNode :: "PlanExt \<Rightarrow> QpN \<Rightarrow> QpN" where
  "orderStructEntriesNode X QpEmpty = QpEmpty"
| "orderStructEntriesNode X (QpExpr e) = QpExpr (orderStructEntriesExpr X e)"
| "orderStructEntriesNode X (QpLO op nodes) = QpLO op (map (orderStructEntriesNode X) nodes)"

definition nodeHash :: "PlanExt \<Rightarrow> QpN \<Rightarrow> u64" where
  "nodeHash X node = pe_hashNode X (orderStructEntriesNode X node)"

fun dedupFrom :: "('a \<Rightarrow> u64) \<Rightarrow> u64 list \<Rightarrow> 'a list \<Rightarrow> 'a list" where
  "dedupFrom hash hashes [] = []"
| "dedupFrom hash hashes (node # nodes) =
     (if hash node \<in> set hashes then dedupFrom hash hashes nodes else node # dedupFrom hash (hash node # hashes) nodes)"

definition dedupNodes :: "PlanExt \<Rightarrow> QpN list \<Rightarrow> QpN list" where
  "dedupNodes X nodes = dedupFrom (nodeHash X) [] nodes"

definition MkOrNode :: "PlanExt \<Rightarrow> QpN list \<Rightarrow> QpN option" where
  "MkOrNode X nodes =
     (case dedupNodes X nodes of [] \<Rightarrow> None | [node] \<Rightarrow> Some node | uniqueNodes \<Rightarrow> Some (MkNodeFromLO (mkOrLogicalOperation uniqueNodes)))"

definition MkAndNode :: "PlanExt \<Rightarrow> QpN list \<Rightarrow> QpN option" where
  "MkAndNode X nodes =
     (case dedupNodes X nodes of [] \<Rightarrow> None | [node] \<Rightarrow> Some node | uniqueNodes \<Rightarrow> Some (MkNodeFromLO (MkAndLogicalOperation uniqueNodes)))"

section \<open>Filters over nodes\<close>

record NodeFilter =
  nf_allowFilter :: "QpN list"
  nf_denyFilter :: "QpN list"

definition NodeFilter_Add :: "QpN \<Rightarrow> Effect \<Rightarrow> NodeFilter \<Rightarrow> NodeFilter" where
  "NodeFilter_Add f effect p =
     (if effect = EFFECT_ALLOW then p\<lparr>nf_allowFilter := nf_allowFilter p @ [f]\<rparr>
      else p\<lparr>nf_denyFilter := nf_denyFilter p @ [InvertNodeBooleanValue f]\<rparr>)"

definition DenyIsEmpty :: "NodeFilter \<Rightarrow> bool" where
  "DenyIsEmpty p \<longleftrightarrow> nf_denyFilter p = []"

definition AllowIsEmpty :: "NodeFilter \<Rightarrow> bool" where
  "AllowIsEmpty p \<longleftrightarrow> nf_allowFilter p = []"

definition ResetToUnconditionalDeny :: "NodeFilter \<Rightarrow> NodeFilter" where
  "ResetToUnconditionalDeny p = p\<lparr>nf_denyFilter := [MkFalseNode]\<rparr>"

definition ToAST :: "NodeFilter \<Rightarrow> QpN" where
  "ToAST p =
     (case nf_allowFilter p of
        [] \<Rightarrow>
          (case nf_denyFilter p of
             [] \<Rightarrow> MkFalseNode
           | [d] \<Rightarrow> d
           | ds \<Rightarrow> MkNodeFromLO (MkAndLogicalOperation ds))
      | [a] \<Rightarrow>
          if nf_denyFilter p = [] then a else MkNodeFromLO (MkAndLogicalOperation (nf_denyFilter p @ [a]))
      | as \<Rightarrow>
          let allowFilter = MkNodeFromLO (mkOrLogicalOperation as)
          in if nf_denyFilter p = [] then allowFilter else MkNodeFromLO (MkAndLogicalOperation (nf_denyFilter p @ [allowFilter])))"

section \<open>Nodes as expressions\<close>

datatype PlanErr = ErrCompile | ErrUnknownVariable | ErrStrict | ErrPartialEval | ErrOptional | ErrUnspecifiedOperator | ErrUnknownNode
  | ErrUnsupportedCondition | ErrUnsupportedExpr | ErrUnsupportedConst | ErrLambda | ErrPlanValidation | ErrFilterKind | PanicNilExpr | PanicIndex
  | PanicNilParams

text \<open>Go's early return on an error.\<close>

definition andThen :: "'e + 'a \<Rightarrow> ('a \<Rightarrow> 'e + 'b) \<Rightarrow> 'e + 'b" where
  "andThen x f = (case x of Inl err \<Rightarrow> Inl err | Inr a \<Rightarrow> f a)"

lemma andThen_simps [simp]: "andThen (Inl err) f = Inl err" "andThen (Inr a) f = f a"
  by (simp_all add: andThen_def)

lemma andThen_Inr: "andThen x f = Inr b \<longleftrightarrow> (\<exists>a. x = Inr a \<and> f a = Inr b)"
  by (cases x) auto

lemma andThen_cong [fundef_cong]: "x = y \<Longrightarrow> (\<And>a. y = Inr a \<Longrightarrow> f a = g a) \<Longrightarrow> andThen x f = andThen y g"
  by (cases y) auto

fun mkBinaryOperatorExpr :: "string \<Rightarrow> PExpr list \<Rightarrow> PlanErr + PExpr" where
  "mkBinaryOperatorExpr op [a, b] = Inr (MkCallExprProto op [a, b])"
| "mkBinaryOperatorExpr op (a # args) = andThen (mkBinaryOperatorExpr op args) (\<lambda>e. Inr (MkCallExprProto op [a, e]))"
| "mkBinaryOperatorExpr op [] = Inl PanicIndex"

fun sequence :: "('e + 'a) list \<Rightarrow> 'e + 'a list" where
  "sequence [] = Inr []"
| "sequence (x # xs) = andThen x (\<lambda>a. andThen (sequence xs) (\<lambda>as. Inr (a # as)))"

lemma sequence_Inr: "sequence xs = Inr ys \<longleftrightarrow> xs = map Inr ys"
  by (induction xs arbitrary: ys) (auto simp: andThen_Inr Cons_eq_map_conv)

text \<open>A node whose logical operation has no operand makes the conversion index out of range.\<close>

primrec qpNToExpr :: "QpN \<Rightarrow> PlanErr + PExpr" where
  "qpNToExpr QpEmpty = Inl ErrUnknownNode"
| "qpNToExpr (QpExpr e) = Inr e"
| "qpNToExpr (QpLO op nodes) =
     (let args = map qpNToExpr nodes
      in case op of
           OPERATOR_NOT \<Rightarrow>
             (case args of
                [] \<Rightarrow> Inl PanicIndex
              | arg # _ \<Rightarrow> andThen arg (\<lambda>a. Inr (MkCallExprProto opNot [a])))
         | OPERATOR_AND \<Rightarrow> andThen (sequence args) (mkBinaryOperatorExpr opAnd)
         | OPERATOR_OR \<Rightarrow> andThen (sequence args) (mkBinaryOperatorExpr opOr)
         | OPERATOR_UNSPECIFIED \<Rightarrow> Inl ErrUnspecifiedOperator)"

section \<open>The list of effective derived roles\<close>

text \<open>A derived role with the node of its condition; the list is an expression that is built when it is first needed.\<close>

type_synonym RN = "string \<times> QpN"

definition derivedRoleListElement :: "RN \<Rightarrow> PlanErr + PExpr" where
  "derivedRoleListElement derivedRole =
     andThen (qpNToExpr (snd derivedRole)) (\<lambda>conditionExpr.
       Inr (MkCallExprProto opConditional [conditionExpr, MkListExprProto [mkConstStringExpr (fst derivedRole)], MkListExprProto []]))"

definition MkDerivedRolesList :: "RN list \<Rightarrow> PlanErr + PExpr" where
  "MkDerivedRolesList derivedRoles =
     (case derivedRoles of
        [] \<Rightarrow> Inr (MkListExprProto [])
      | [dr] \<Rightarrow> derivedRoleListElement dr
      | _ \<Rightarrow> andThen (sequence (map derivedRoleListElement derivedRoles)) (mkBinaryOperatorExpr opAdd))"

end
