(* ===== verification/PlanFilter.thy ===== *)
theory PlanFilter
  imports PlanAst
begin

text \<open>
  Filters: the translation of a plan into an expression over operands, its normal form, and the conjunction of the filters of
  several actions.  It models \<^verbatim>\<open>internal/ruletable/planner/ast.go\<close>, \<^verbatim>\<open>lambda.go\<close> and \<^verbatim>\<open>merge.go\<close>.
\<close>

section \<open>Operators\<close>

text \<open>The operators of filters for those of CEL; other functions keep their name.\<close>

definition celOperators :: "(string \<times> string) list" where
  "celOperators =
     [(''_==_'', ''eq''), (''_!=_'', ''ne''), (''_>_'', ''gt''), (''_>=_'', ''ge''), (''_<_'', ''lt''), (''_<=_'', ''le''), (''@in'', ''in''),
      (''_+_'', ''add''), (''_-_'', ''sub''), (''_*_'', ''mult''), (''_/_'', ''div''), (''_%_'', ''mod''), (''_[_]'', ''index''),
      (''_&&_'', ''and''), (''_||_'', ''or''), (''!_'', ''not''), (''_?_:_'', ''if'')]"

definition opFromCLE :: "string \<Rightarrow> string" where
  "opFromCLE fn = (case map_of celOperators fn of Some op \<Rightarrow> op | None \<Rightarrow> fn)"

definition mkExprOpExpr :: "string \<Rightarrow> Operand list \<Rightarrow> Operand" where
  "mkExprOpExpr op args = OpExpr op args"

definition canOperateOnStruct :: "string \<Rightarrow> bool" where
  "canOperateOnStruct op \<longleftrightarrow> op = ''transformMap'' \<or> op = ''transformMapEntry'' \<or> op = ''transformList''"

section \<open>Comprehensions\<close>

record lambdaAST =
  la_iterRange :: PExpr
  la_expr :: PExpr
  la_expr2 :: PExpr
  la_iterVar :: string
  la_iterVar2 :: string
  la_operator :: string

definition getArg :: "PExpr \<Rightarrow> nat \<Rightarrow> PExpr" where
  "getArg w i = (case w of ECall t fn args \<Rightarrow> if i < length args then args ! i else ENil | _ \<Rightarrow> ENil)"

definition getArgsLen :: "PExpr \<Rightarrow> nat" where
  "getArgsLen w = (case w of ECall t fn args \<Rightarrow> length args | _ \<Rightarrow> 0)"

definition getListElement :: "PExpr \<Rightarrow> nat \<Rightarrow> PExpr" where
  "getListElement w i = (case w of EList es opts \<Rightarrow> if i < length es then es ! i else ENil | _ \<Rightarrow> ENil)"

definition wrapper_Function :: "PExpr \<Rightarrow> string" where
  "wrapper_Function w = (case w of ECall t fn args \<Rightarrow> fn | _ \<Rightarrow> '''')"

definition getTransformMapExpression :: "PExpr \<Rightarrow> PlanErr + string \<times> PExpr" where
  "getTransformMapExpression w =
     (if getArgsLen w = 3 then Inr (''transformMap'', getArg w 2)
      else if getArgsLen w = 2 then Inr (''transformMapEntry'', getArg w 1)
      else Inl ErrLambda)"

definition mkSortByAST :: "PExpr \<Rightarrow> PExpr \<Rightarrow> PlanErr + lambdaAST" where
  "mkSortByAST accuInit res =
     (case getArg res 0 of
        EComp r2 v2 v22 a2 i2 c2 s2 res2 \<Rightarrow>
          if getArgsLen res \<noteq> 1 \<or> wrapper_Function res \<noteq> ''@sortByAssociatedKeys'' then Inl ErrLambda
          else let expr = getListElement (getArg s2 1) 0
            in if expr = ENil then Inl ErrLambda
               else Inr \<lparr>la_iterRange = accuInit, la_expr = expr, la_expr2 = ENil, la_iterVar = v2, la_iterVar2 = '''', la_operator = ''sortBy''\<rparr>
      | _ \<Rightarrow> Inl ErrLambda)"

definition buildLambdaAST :: "PExpr \<Rightarrow> string \<Rightarrow> string \<Rightarrow> PExpr \<Rightarrow> PExpr \<Rightarrow> PExpr \<Rightarrow> PlanErr + lambdaAST" where
  "buildLambdaAST iterRange iterVar iterVar2 accuInit loopStep res =
     (let obj = \<lparr>la_iterRange = iterRange, la_expr = ENil, la_expr2 = ENil, la_iterVar = iterVar, la_iterVar2 = iterVar2, la_operator = ''''\<rparr>
      in case loopStep of
           ENil \<Rightarrow> Inl PanicNilExpr
         | EIdent n \<Rightarrow> mkSortByAST accuInit res
         | ECall t function args \<Rightarrow>
             if function = opAnd then Inr (obj\<lparr>la_operator := ''all'', la_expr := getArg loopStep 1\<rparr>)
             else if function = opOr then Inr (obj\<lparr>la_operator := ''exists'', la_expr := getArg loopStep 1\<rparr>)
             else if function = opAdd
             then Inr (obj\<lparr>la_operator := (if iterVar2 \<noteq> '''' then ''transformList'' else ''map''), la_expr := getListElement (getArg loopStep 1) 0\<rparr>)
             else if function = opConditional
             then (case accuInit of
                 ENil \<Rightarrow> Inl PanicNilExpr
               | EList es opts \<Rightarrow>
                   (case getListElement (getArg (getArg loopStep 1) 1) 0 of
                      ECall t2 fn2 args2 \<Rightarrow> Inr (obj\<lparr>la_expr2 := ECall t2 fn2 args2, la_operator := ''transformList'', la_expr := getArg loopStep 0\<rparr>)
                    | _ \<Rightarrow> Inr (obj\<lparr>la_operator := ''filter'', la_expr := getArg loopStep 0\<rparr>))
               | EConst c \<Rightarrow> Inr (obj\<lparr>la_operator := ''exists_one'', la_expr := getArg loopStep 0\<rparr>)
               | EStruct n entries \<Rightarrow>
                   andThen (getTransformMapExpression (getArg loopStep 1)) (\<lambda>(op, expr2).
                     Inr (obj\<lparr>la_operator := op, la_expr2 := expr2, la_expr := getArg loopStep 0\<rparr>))
               | _ \<Rightarrow> Inl ErrLambda)
             else if function = ''cel.@mapInsert''
             then andThen (getTransformMapExpression loopStep) (\<lambda>(op, expr). Inr (obj\<lparr>la_operator := op, la_expr := expr\<rparr>))
             else Inl ErrLambda
         | _ \<Rightarrow> Inl ErrLambda)"

lemma size_getArg: "getArg w i \<noteq> ENil \<Longrightarrow> size (getArg w i) < size w"
  by (auto simp: getArg_def split: PExpr.splits if_splits intro!: le_imp_less_Suc trans_le_add2 size_list_estimation' [OF nth_mem])

lemma size_getListElement: "getListElement w i \<noteq> ENil \<Longrightarrow> size (getListElement w i) < size w"
  by (auto simp: getListElement_def split: PExpr.splits if_splits intro!: le_imp_less_Suc size_list_estimation' [OF nth_mem])

section \<open>Expressions as operands\<close>

definition visitConst :: "PlanExt \<Rightarrow> PConst \<Rightarrow> PlanErr + PValue" where
  "visitConst X c =
     (let newValue = (case pe_NewValue X c of Some v \<Rightarrow> Inr v | None \<Rightarrow> Inl ErrUnsupportedConst)
      in case c of
           CNull \<Rightarrow> Inr VNull
         | CDuration d \<Rightarrow> Inl ErrUnsupportedConst
         | CTimestamp t \<Rightarrow> Inl ErrUnsupportedConst
         | _ \<Rightarrow> newValue)"

text \<open>The keys of a struct expression, ordered by their text.\<close>

definition structKeys :: "PlanExt \<Rightarrow> PEntry list \<Rightarrow> PExpr list" where
  "structKeys X entries =
     sort_key (pe_exprString X) (map (\<lambda>entry. case entry of MapEntry k v opt \<Rightarrow> k | FieldEntry k v opt \<Rightarrow> mkConstStringExpr k) entries)"

text \<open>The path of nested selections down to a variable, if there is one.\<close>

fun selectPath :: "PExpr \<Rightarrow> string option" where
  "selectPath (EIdent n) = Some n"
| "selectPath (ESelect e f t) = map_option (\<lambda>p. p @ ''.'' @ f) (selectPath e)"
| "selectPath _ = None"

fun constOf :: "PExpr \<Rightarrow> PConst option" where
  "constOf (EConst c) = Some c"
| "constOf _ = None"

text \<open>Whether an operator's right-hand side struct stands for its keys: the second argument of a membership test.\<close>

definition isInRhs :: "string \<Rightarrow> PExpr list \<Rightarrow> nat \<Rightarrow> bool" where
  "isInRhs fn args i \<longleftrightarrow> fn = opIn \<and> length args = 2 \<and> i = 1"


text \<open>Where the parts of a lambda come from.\<close>

definition part :: "PExpr \<Rightarrow> PExpr \<Rightarrow> bool" where
  "part x w \<longleftrightarrow> x \<noteq> ENil \<longrightarrow> size x < size w"

lemma part_getArg: "part (getArg w i) w"
  using size_getArg by (simp add: part_def)

lemma part_args: "part w x \<Longrightarrow> part (getArg w i) x" "part w x \<Longrightarrow> part (getListElement w i) x"
proof -
  have nil: "getArg ENil i = ENil" "getListElement ENil i = ENil" by (simp_all add: getArg_def getListElement_def)
  show "part w x \<Longrightarrow> part (getArg w i) x" "part w x \<Longrightarrow> part (getListElement w i) x"
    using size_getArg [of w i] size_getListElement [of w i] nil by (cases "w = ENil"; auto simp: part_def)+
qed

lemma part_transformMap: "getTransformMapExpression w = Inr (op, e) \<Longrightarrow> \<exists>i. e = getArg w i"
  by (auto simp: getTransformMapExpression_def split: if_splits)

lemma mkSortByAST_parts:
  assumes "mkSortByAST i res = Inr la"
  shows "la_iterRange la = i" "part (la_expr la) res" "la_expr2 la = ENil"
proof -
  obtain r2 v2 v22 a2 i2 c2 s2 res2 where e2: "getArg res 0 = EComp r2 v2 v22 a2 i2 c2 s2 res2"
    using assms by (auto simp: mkSortByAST_def split: PExpr.splits)
  have "part s2 (getArg res 0)" unfolding e2 by (simp add: part_def)
  then have "part s2 res" using part_getArg [of res 0] e2 by (auto simp: part_def)
  then show "la_iterRange la = i" "part (la_expr la) res" "la_expr2 la = ENil"
    using assms e2 part_args by (auto simp: mkSortByAST_def Let_def split: if_splits)
qed

lemma buildLambdaAST_parts:
  assumes "buildLambdaAST r v v2 i s res = Inr la"
  shows "la_iterRange la \<in> {r, i}" "part (la_expr la) s \<or> part (la_expr la) res" "part (la_expr2 la) s"
proof -
  have nil: "part ENil w" for w by (simp add: part_def)
  have deep: "getListElement (getArg (getArg s (Suc 0)) (Suc 0)) 0 = x \<Longrightarrow> part x s" for x using part_getArg part_args by blast
  have "la_iterRange la \<in> {r, i} \<and> (part (la_expr la) s \<or> part (la_expr la) res) \<and> part (la_expr2 la) s"
  proof (cases s)
    case (EIdent n)
    then show ?thesis using assms mkSortByAST_parts [of i res la] nil by (simp add: buildLambdaAST_def)
  next
    case (ECall t fn args)
    note A = assms [unfolded buildLambdaAST_def Let_def ECall PExpr.case, folded ECall]
    show ?thesis
    proof (cases "fn = opConditional \<and> fn \<notin> {opAnd, opOr, opAdd}")
      case True
      then show ?thesis
        using A by (cases i) (auto simp: andThen_Inr nil part_getArg part_args dest!: part_transformMap deep split: PExpr.splits if_splits)
    next
      case False
      then show ?thesis
        using A by (auto simp: andThen_Inr nil part_getArg part_args dest!: part_transformMap split: if_splits)
    qed
  qed (use assms in \<open>simp_all add: buildLambdaAST_def\<close>)
  then show "la_iterRange la \<in> {r, i}" "part (la_expr la) s \<or> part (la_expr la) res" "part (la_expr2 la) s" by blast+
qed


text \<open>A list of constants is a value, any other list an expression.\<close>

definition buildElements :: "PlanExt \<Rightarrow> (PExpr \<Rightarrow> PlanErr + Operand) \<Rightarrow> PExpr list \<Rightarrow> PlanErr + Operand" where
  "buildElements X build es =
     (case those (map constOf es) of
        Some cs \<Rightarrow> andThen (sequence (map (visitConst X) cs)) (\<lambda>vs. Inr (OpValue (VList vs)))
      | None \<Rightarrow> andThen (sequence (map build es)) (\<lambda>operands. Inr (mkExprOpExpr ''list'' operands)))"

lemma buildElements_cong [fundef_cong]:
  "es = es' \<Longrightarrow> (\<And>e. e \<in> set es' \<Longrightarrow> f e = g e) \<Longrightarrow> buildElements X f es = buildElements X g es'"
  by (auto simp: buildElements_def split: option.split intro!: arg_cong [where f = "\<lambda>x. andThen (sequence x) _"])

text \<open>The first argument says whether the expression is the right-hand side of a membership test.\<close>

function buildExprImpl :: "PlanExt \<Rightarrow> bool \<Rightarrow> PExpr \<Rightarrow> PlanErr + Operand" where
  "buildExprImpl X rhs ENil = Inl PanicNilExpr"
| "buildExprImpl X rhs (EConst c) = andThen (visitConst X c) (\<lambda>v. Inr (OpValue v))"
| "buildExprImpl X rhs (EIdent n) = Inr (OpVariable n)"
| "buildExprImpl X rhs (ESelect e f testOnly) =
     (if testOnly then Inr (OpValue (VBool True))
      else case selectPath (ESelect e f testOnly) of
          Some path \<Rightarrow> Inr (OpVariable path)
        | None \<Rightarrow> andThen (buildExprImpl X False e) (\<lambda>op. Inr (mkExprOpExpr ''get-field'' [op, OpVariable f])))"
| "buildExprImpl X rhs (ECall t fn args) =
     andThen (case t of None \<Rightarrow> Inr [] | Some e \<Rightarrow> andThen (buildExprImpl X False e) (\<lambda>op. Inr [op])) (\<lambda>target.
       andThen (sequence (map (\<lambda>(i, arg). buildExprImpl X (isInRhs fn args i) arg) (List.enumerate 0 args))) (\<lambda>operands.
         Inr (mkExprOpExpr (opFromCLE fn) (target @ operands))))"
| "buildExprImpl X rhs (EList es optionalIndices) =
     (if optionalIndices \<noteq> [] then Inl ErrOptional
      else buildElements X (buildExprImpl X False) es)"
| "buildExprImpl X rhs (EStruct n entries) =
     (if rhs
      then buildElements X (buildExprImpl X False) (structKeys X entries)
      else andThen (sequence (map (\<lambda>entry. case entry of
          FieldEntry k v opt \<Rightarrow>
            if opt then Inl ErrOptional
            else andThen (buildExprImpl X False v) (\<lambda>v. Inr (mkExprOpExpr ''set-field'' [OpValue (VString k), v]))
        | MapEntry k v opt \<Rightarrow>
            if opt then Inl ErrOptional
            else andThen (buildExprImpl X False k) (\<lambda>k. andThen (buildExprImpl X False v) (\<lambda>v. Inr (mkExprOpExpr ''set-field'' [k, v])))) entries))
        (\<lambda>operands. Inr (mkExprOpExpr ''struct'' operands)))"
| "buildExprImpl X rhs (EComp r v v2 a i c s res) =
     andThen (buildLambdaAST r v v2 i s res) (\<lambda>la.
       andThen (if la_expr la = ENil then Inr OpNil else buildExprImpl X False (la_expr la)) (\<lambda>lambda.
         andThen (if la_expr2 la = ENil then Inr [] else andThen (buildExprImpl X False (la_expr2 la)) (\<lambda>op. Inr [op])) (\<lambda>lambda2.
           andThen (case la_iterRange la of
               EStruct n entries \<Rightarrow>
                 if canOperateOnStruct (la_operator la) then buildExprImpl X False (EStruct n entries)
                 else buildElements X (buildExprImpl X False) (structKeys X entries)
             | ir \<Rightarrow> buildExprImpl X False ir) (\<lambda>target.
             Inr (mkExprOpExpr (la_operator la) [target, mkExprOpExpr ''lambda''
               ([lambda] @ lambda2 @ [OpVariable (la_iterVar la)] @ (if la_iterVar2 la \<noteq> '''' then [OpVariable (la_iterVar2 la)] else []))])))))"
  by pat_completeness auto

lemma structKeys_size: "k \<in> set (structKeys X entries) \<Longrightarrow> size k \<le> size_list size entries"
proof -
  assume "k \<in> set (structKeys X entries)"
  then obtain entry where e: "entry \<in> set entries" "k = (case entry of MapEntry k v opt \<Rightarrow> k | FieldEntry k v opt \<Rightarrow> mkConstStringExpr k)"
    by (auto simp: structKeys_def)
  have "size k \<le> size entry" unfolding e(2) by (cases entry) (simp_all add: mkConstStringExpr_def)
  then show ?thesis using e(1) by (rule size_list_estimation' [rotated])
qed

lemma entry_size:
  "FieldEntry k v opt \<in> set entries \<Longrightarrow> size v < Suc (size_list size entries)"
  "MapEntry kx v opt \<in> set entries \<Longrightarrow> size v < Suc (size_list size entries)"
  "MapEntry kx v opt \<in> set entries \<Longrightarrow> size kx < Suc (size_list size entries)"
  by (intro le_imp_less_Suc size_list_estimation' [where f = size], assumption, simp)+

lemma buildLambdaAST_sizes:
  assumes "buildLambdaAST r v v2 i s res = Inr la"
  shows "(la_expr la \<noteq> ENil \<longrightarrow> size (la_expr la) < Suc (size r + size i + size s + size res))
    \<and> (la_expr2 la \<noteq> ENil \<longrightarrow> size (la_expr2 la) < Suc (size r + size i + size s + size res))
    \<and> size (la_iterRange la) < Suc (size r + size i + size s + size res)"
  using buildLambdaAST_parts [OF assms] by (auto simp: part_def)

lemma element_size: "e \<in> set es \<Longrightarrow> size (e :: PExpr) < Suc (size_list size es)"
  by (intro le_imp_less_Suc size_list_estimation' [where f = size], assumption, rule order_refl)

lemma arg_size: "j < length args \<Longrightarrow> size (args ! j :: PExpr) < Suc (k + size_list size args)"
  using element_size [OF nth_mem, of j args] by simp

termination buildExprImpl
  by (relation "measure (\<lambda>(X, rhs, e). size e)")
    (auto simp: in_set_enumerate_eq entry_size arg_size element_size le_imp_less_Suc structKeys_size
      dest!: buildLambdaAST_sizes structKeys_size)


definition buildExpr :: "PlanExt \<Rightarrow> PExpr \<Rightarrow> PlanErr + Operand" where
  "buildExpr X e = buildExprImpl X False e"

text \<open>A plan as an operand; a node without content leaves the operand empty.\<close>

fun convert :: "PlanExt \<Rightarrow> QpN \<Rightarrow> PlanErr + Operand" where
  "convert X QpEmpty = Inr OpEmpty"
| "convert X (QpExpr e) = buildExpr X e"
| "convert X (QpLO op nodes) =
     andThen (sequence (map (convert X) nodes)) (\<lambda>operands.
       case op of
         OPERATOR_AND \<Rightarrow> Inr (mkExprOpExpr ''and'' operands)
       | OPERATOR_OR \<Rightarrow> Inr (mkExprOpExpr ''or'' operands)
       | OPERATOR_NOT \<Rightarrow> Inr (mkExprOpExpr ''not'' operands)
       | OPERATOR_UNSPECIFIED \<Rightarrow> Inl ErrUnspecifiedOperator)"

section \<open>The normal form of a filter\<close>

definition ExpandAbbrev :: "string \<Rightarrow> string" where
  "ExpandAbbrev s =
     (let prefix = takeWhile (\<lambda>c. c \<noteq> CHR ''.'') s;
          rest = dropWhile (\<lambda>c. c \<noteq> CHR ''.'') s;
          expanded = (if prefix = ''P'' then ''request.principal'' else if prefix = ''R'' then ''request.resource''
            else if prefix = ''C'' then ''constants'' else if prefix = ''V'' then ''variables'' else if prefix = ''G'' then ''globals'' else prefix)
      in expanded @ rest)"

fun asBoolValue :: "Operand \<Rightarrow> bool option" where
  "asBoolValue (OpValue (VBool b)) = Some b"
| "asBoolValue _ = None"

definition falseExprOpValue :: Operand where
  "falseExprOpValue = OpValue (VBool False)"

definition trueExprOpValue :: Operand where
  "trueExprOpValue = OpValue (VBool True)"

text \<open>A membership test with a constant right-hand side: \<open>None\<close> when nothing is a member, else the operator and the operands the
  expression is changed to.\<close>

definition normaliseInExpr :: "string \<Rightarrow> Operand list \<Rightarrow> (string \<times> Operand list) option" where
  "normaliseInExpr operator operands =
     (case operands of
        [x, OpValue v] \<Rightarrow>
          (case v of
             VStruct mapVals \<Rightarrow>
               (case mapVals of
                  [] \<Rightarrow> None
                | [(k, w)] \<Rightarrow> Some (''eq'', [x, OpValue (VString k)])
                | _ \<Rightarrow> Some (operator, operands))
           | VList vs \<Rightarrow>
               (case vs of
                  [] \<Rightarrow> None
                | [w] \<Rightarrow> Some (''eq'', [x, OpValue w])
                | _ \<Rightarrow> Some (operator, operands))
           | _ \<Rightarrow> Some (''eq'', operands))
      | _ \<Rightarrow> Some (operator, operands))"

definition inExpr :: "string \<Rightarrow> Operand list \<Rightarrow> (string \<times> Operand list) option" where
  "inExpr operator operands = (if operator = ''in'' \<and> length operands = 2 then normaliseInExpr operator operands else Some (operator, operands))"

text \<open>
  The loop over the operands of an expression: each comes with its normal form and with what normalising it in place made of it,
  which is what duplicates are recognised by.  The result is a constant that decides the whole expression, or the operands to keep,
  with the operands as they are then.
\<close>

fun normaliseOperands :: "PlanExt \<Rightarrow> string \<Rightarrow> u64 list \<Rightarrow> (Operand \<times> Operand \<times> Operand) list \<Rightarrow> (Operand + Operand list) \<times> Operand list" where
  "normaliseOperands X operator hashes [] = (Inr [], [])"
| "normaliseOperands X operator hashes ((op, normalOp, op') # ops) =
     (let skip = (case normaliseOperands X operator hashes ops of (r, after) \<Rightarrow> (r, op' # after));
          stop = (\<lambda>v. (Inl v, op' # map fst ops));
          append = (\<lambda>hashes. case normaliseOperands X operator hashes ops of (r, after) \<Rightarrow> (map_sum id (\<lambda>ns. normalOp # ns) r, op' # after));
          keep = (if operator \<in> {''and'', ''or''}
            then let opHash = pe_hashOp X op' in if opHash \<in> set hashes then skip else append (opHash # hashes)
            else append hashes)
      in if normalOp = OpNil then skip
         else case asBoolValue normalOp of
             Some boolVal \<Rightarrow>
               if operator = ''and'' \<and> boolVal then skip
               else if operator = ''or'' \<and> \<not> boolVal then skip
               else if operator = ''and'' then stop falseExprOpValue
               else if operator = ''or'' \<and> boolVal then stop trueExprOpValue
               else keep
           | None \<Rightarrow> keep)"

text \<open>The result and what becomes of the expression.\<close>

definition finishExpr :: "string \<Rightarrow> (Operand + Operand list) \<times> Operand list \<Rightarrow> Operand \<times> Operand" where
  "finishExpr operator r =
     (case r of
        (Inl v, after) \<Rightarrow> (v, OpExpr operator after)
      | (Inr operands, after) \<Rightarrow>
          let keep = (OpExpr operator operands, OpExpr operator operands)
          in if operator \<in> {''and'', ''or'', ''not''}
             then (case operands of
                 [] \<Rightarrow> (if operator = ''and'' then OpValue (VBool True) else if operator = ''or'' then OpValue (VBool False) else OpNil, OpExpr operator after)
               | [op] \<Rightarrow>
                   if operator = ''and'' \<or> operator = ''or'' then (op, OpExpr operator after)
                   else (case asBoolValue op of Some boolVal \<Rightarrow> (OpValue (VBool (\<not> boolVal)), OpExpr operator after) | None \<Rightarrow> keep)
               | _ \<Rightarrow> keep)
             else keep)"

primrec opSize :: "Operand \<Rightarrow> nat" where
  "opSize OpNil = 1"
| "opSize OpEmpty = 1"
| "opSize (OpValue v) = 1"
| "opSize (OpVariable n) = 1"
| "opSize (OpExpr f ops) = Suc (sum_list (map opSize ops))"

lemma opSize_pos: "0 < opSize op"
  by (cases op) simp_all

lemma inExpr_size:
  assumes "inExpr f ops = Some (f', ops')" and "op \<in> set ops'"
  shows "opSize op < Suc (sum_list (map opSize ops))"
proof -
  have old: "opSize op < Suc (sum_list (map opSize ops))" if "op \<in> set ops" for op
    using that by (simp add: le_imp_less_Suc member_le_sum_list)
  show ?thesis
    using assms old
    by (auto simp: inExpr_def normaliseInExpr_def split: if_splits list.splits Operand.splits PValue.splits prod.splits)
qed

function normaliseFilterExprOp :: "PlanExt \<Rightarrow> Operand \<Rightarrow> Operand \<times> Operand" where
  "normaliseFilterExprOp X OpNil = (OpNil, OpNil)"
| "normaliseFilterExprOp X OpEmpty = (OpEmpty, OpEmpty)"
| "normaliseFilterExprOp X (OpValue v) = (OpValue v, OpValue v)"
| "normaliseFilterExprOp X (OpVariable n) = (OpVariable (ExpandAbbrev n), OpVariable (ExpandAbbrev n))"
| "normaliseFilterExprOp X (OpExpr operator operands) =
     (case inExpr operator operands of
        None \<Rightarrow> (falseExprOpValue, OpExpr operator operands)
      | Some (operator', operands') \<Rightarrow>
          finishExpr operator' (normaliseOperands X operator' [] (map (\<lambda>op. (op, normaliseFilterExprOp X op)) operands')))"
  by pat_completeness auto
termination normaliseFilterExprOp
  by (relation "measure (\<lambda>(X, op). opSize op)") (auto simp: inExpr_size)

datatype FilterKind = KIND_FILTER_UNSPECIFIED | KIND_ALWAYS_ALLOWED | KIND_ALWAYS_DENIED | KIND_CONDITIONAL

record PlanResourcesFilter =
  pf_Kind :: FilterKind
  pf_Condition :: Operand

definition normaliseFilter :: "PlanExt \<Rightarrow> PlanResourcesFilter \<Rightarrow> PlanResourcesFilter" where
  "normaliseFilter X f =
     (let cond = fst (normaliseFilterExprOp X (pf_Condition f))
      in case cond of
           OpNil \<Rightarrow> f\<lparr>pf_Kind := KIND_ALWAYS_ALLOWED, pf_Condition := OpNil\<rparr>
         | OpEmpty \<Rightarrow> f\<lparr>pf_Kind := KIND_ALWAYS_ALLOWED, pf_Condition := OpNil\<rparr>
         | _ \<Rightarrow>
             (case asBoolValue cond of
                Some b \<Rightarrow> f\<lparr>pf_Kind := (if b then KIND_ALWAYS_ALLOWED else KIND_ALWAYS_DENIED), pf_Condition := OpNil\<rparr>
              | None \<Rightarrow> f\<lparr>pf_Condition := cond\<rparr>))"

definition ToFilter :: "PlanExt \<Rightarrow> QpN \<Rightarrow> PlanErr + PlanResourcesFilter" where
  "ToFilter X plan = andThen (convert X plan) (\<lambda>cond. Inr (normaliseFilter X \<lparr>pf_Kind = KIND_CONDITIONAL, pf_Condition = cond\<rparr>))"

section \<open>Text and conjunction\<close>

fun joinWith :: "string \<Rightarrow> string list \<Rightarrow> string" where
  "joinWith sep [] = ''''"
| "joinWith sep [s] = s"
| "joinWith sep (s # ss) = s @ sep @ joinWith sep ss"

primrec filterExprOpToString :: "PlanExt \<Rightarrow> Operand \<Rightarrow> string" where
  "filterExprOpToString X OpNil = ''''"
| "filterExprOpToString X OpEmpty = ''''"
| "filterExprOpToString X (OpValue v) = (case pe_marshalValue X v of None \<Rightarrow> ''<ERROR>'' | Some s \<Rightarrow> s)"
| "filterExprOpToString X (OpVariable n) = n"
| "filterExprOpToString X (OpExpr operator operands) =
     ''('' @ operator @ '' '' @ joinWith '' '' (map (filterExprOpToString X) operands) @ '')''"

definition FilterToString :: "PlanExt \<Rightarrow> PlanResourcesFilter \<Rightarrow> string" where
  "FilterToString X f =
     (case pf_Kind f of
        KIND_ALWAYS_ALLOWED \<Rightarrow> ''(true)''
      | KIND_ALWAYS_DENIED \<Rightarrow> ''(false)''
      | KIND_CONDITIONAL \<Rightarrow> filterExprOpToString X (pf_Condition f)
      | KIND_FILTER_UNSPECIFIED \<Rightarrow> '''')"

text \<open>The conditions by their text; a filter that is always denied decides the conjunction.\<close>

fun collectConds :: "PlanExt \<Rightarrow> PlanResourcesFilter list \<Rightarrow> (string, Operand) gomap \<Rightarrow> PlanErr + (string, Operand) gomap option" where
  "collectConds X [] conds = Inr (Some conds)"
| "collectConds X (f # fs) conds =
     (case pf_Kind f of
        KIND_ALWAYS_ALLOWED \<Rightarrow> collectConds X fs conds
      | KIND_ALWAYS_DENIED \<Rightarrow> Inr None
      | KIND_CONDITIONAL \<Rightarrow> collectConds X fs (AList.update (FilterToString X f) (pf_Condition f) conds)
      | KIND_FILTER_UNSPECIFIED \<Rightarrow> Inl ErrFilterKind)"

definition MergeWithAnd :: "PlanExt \<Rightarrow> PlanResourcesFilter list \<Rightarrow> PlanErr + PlanResourcesFilter \<times> string" where
  "MergeWithAnd X filters =
     andThen (collectConds X filters []) (\<lambda>r.
       case r of
         None \<Rightarrow> Inr (\<lparr>pf_Kind = KIND_ALWAYS_DENIED, pf_Condition = OpNil\<rparr>, ''(false)'')
       | Some conds \<Rightarrow>
           let response = (case conds of
                 [] \<Rightarrow> \<lparr>pf_Kind = KIND_ALWAYS_ALLOWED, pf_Condition = OpNil\<rparr>
               | [(key, cond)] \<Rightarrow> \<lparr>pf_Kind = KIND_CONDITIONAL, pf_Condition = cond\<rparr>
               | _ \<Rightarrow> \<lparr>pf_Kind = KIND_CONDITIONAL,
                     pf_Condition = mkExprOpExpr ''and'' (map (\<lambda>key. the (map_of conds key)) (sort (map fst conds)))\<rparr>)
           in Inr (response, FilterToString X response))"

end
