(* ===== verification/PlanEval.thy ===== *)
theory PlanEval
  imports PlanFilter Check
begin

text \<open>
  What the planner makes of a condition: variables are replaced by their definitions, known attributes and the effective derived
  roles are put in, and each expression is evaluated as far as the unknown resource allows.  It models the evaluation part of
  \<^verbatim>\<open>internal/ruletable/planner/planner.go\<close>, the substitutions of \<^verbatim>\<open>ast.go\<close> and \<^verbatim>\<open>optionals.go\<close>.
\<close>

section \<open>Substitution in expressions\<close>

text \<open>
  The callback of a substitution returns the replacement, whether there is one, and an error.  Every call of it sets the error of
  the whole traversal, also when there was one before; a subexpression whose call fails becomes nil.
\<close>

type_synonym replaceVarsFunc = "PExpr \<Rightarrow> PExpr \<times> bool \<times> PlanErr option"

fun replaceIn :: "replaceVarsFunc \<Rightarrow> PExpr \<Rightarrow> PlanErr option \<Rightarrow> PExpr \<times> PlanErr option"
  and replaceInAll :: "replaceVarsFunc \<Rightarrow> PExpr list \<Rightarrow> PlanErr option \<Rightarrow> PExpr list \<times> PlanErr option"
  and replaceInEntries :: "replaceVarsFunc \<Rightarrow> PEntry list \<Rightarrow> PlanErr option \<Rightarrow> PEntry list \<times> PlanErr option" where
  "replaceIn f ENil err = (ENil, err)"
| "replaceIn f (EIdent n) err =
     (case f (EIdent n) of
        (e1, matched, Some err) \<Rightarrow> (ENil, Some err)
      | (e1, matched, None) \<Rightarrow> (if matched then e1 else EIdent n, None))"
| "replaceIn f (ESelect e field testOnly) err =
     (case f (ESelect e field testOnly) of
        (e1, matched, Some err) \<Rightarrow> (ENil, Some err)
      | (e1, matched, None) \<Rightarrow>
          if matched then (e1, None)
          else (case replaceIn f e None of (e', err) \<Rightarrow> (ESelect e' field testOnly, err)))"
| "replaceIn f (ECall t fn args) err =
     (case replaceInAll f args err of
        (args', err) \<Rightarrow>
          (case t of
             None \<Rightarrow> (ECall None fn args', err)
           | Some target \<Rightarrow> (case replaceIn f target err of (target', err) \<Rightarrow> (ECall (Some target') fn args', err))))"
| "replaceIn f (EList es opts) err = (case replaceInAll f es err of (es', err) \<Rightarrow> (EList es' opts, err))"
| "replaceIn f (EStruct n entries) err = (case replaceInEntries f entries err of (entries', err) \<Rightarrow> (EStruct n entries', err))"
| "replaceIn f (EComp r v v2 a i c s res) err =
     (case replaceIn f r err of
        (r', err) \<Rightarrow> (case replaceIn f i err of
           (i', err) \<Rightarrow> (case replaceIn f c err of
              (c', err) \<Rightarrow> (case replaceIn f s err of
                 (s', err) \<Rightarrow> (EComp r' v v2 a i' c' s' res, err)))))"
| "replaceIn f (EConst k) err = (EConst k, err)"
| "replaceInAll f [] err = ([], err)"
| "replaceInAll f (e # es) err =
     (case replaceIn f e err of (e', err) \<Rightarrow> (case replaceInAll f es err of (es', err) \<Rightarrow> (e' # es', err)))"
| "replaceInEntries f [] err = ([], err)"
| "replaceInEntries f (FieldEntry k v opt # entries) err =
     (case replaceIn f v err of
        (v', err) \<Rightarrow> (case replaceInEntries f entries err of (entries', err) \<Rightarrow> (FieldEntry k v' opt # entries', err)))"
| "replaceInEntries f (MapEntry k v opt # entries) err =
     (case replaceIn f k err of
        (k', err) \<Rightarrow> (case replaceIn f v err of
           (v', err) \<Rightarrow> (case replaceInEntries f entries err of (entries', err) \<Rightarrow> (MapEntry k' v' opt # entries', err))))"

definition replaceVarsGen :: "replaceVarsFunc \<Rightarrow> PExpr \<Rightarrow> PlanErr + PExpr" where
  "replaceVarsGen f e = (case replaceIn f e None of (output, Some err) \<Rightarrow> Inl err | (output, None) \<Rightarrow> Inr output)"

text \<open>The parts of a selection; an expression of another kind has empty ones.\<close>

definition selField :: "PExpr \<Rightarrow> string" where
  "selField e = (case e of ESelect x f t \<Rightarrow> f | _ \<Rightarrow> '''')"

definition selOperand :: "PExpr \<Rightarrow> PExpr" where
  "selOperand e = (case e of ESelect x f t \<Rightarrow> x | _ \<Rightarrow> ENil)"

fun isSelect :: "PExpr \<Rightarrow> bool" where
  "isSelect (ESelect x f t) \<longleftrightarrow> True"
| "isSelect _ \<longleftrightarrow> False"

definition replaceVars :: "(string, PExpr) gomap \<Rightarrow> PExpr \<Rightarrow> PlanErr + PExpr" where
  "replaceVars vars e =
     replaceVarsGen (\<lambda>ex.
       if \<not> isSelect ex then (ENil, False, None)
       else if selOperand ex = EIdent ''V'' \<or> selOperand ex = EIdent ''variables''
       then (case map_of vars (selField ex) of Some e1 \<Rightarrow> (e1, True, None) | None \<Rightarrow> (ENil, True, Some ErrUnknownVariable))
       else (ENil, False, None)) e"

text \<open>The first test is on the whole expression and not on the subexpression the callback is given.\<close>

definition replaceResourceVals :: "string list \<Rightarrow> PExpr \<Rightarrow> PlanErr + PExpr" where
  "replaceResourceVals vals e =
     replaceVarsGen (\<lambda>ex.
       if \<not> isSelect e then (ENil, False, None)
       else if selField ex \<in> set vals
       then let sel = selOperand ex
         in if selField sel \<noteq> ''attr'' then (ENil, False, None)
            else if selOperand sel = EIdent ''R'' then (ECall None ''id'' [ex], True, None)
            else if isSelect (selOperand sel) \<or> selField (selOperand sel) \<noteq> ''resource'' then (ENil, False, None)
            else if selOperand (selOperand sel) = EIdent ''request'' then (ECall None ''id'' [ex], True, None)
            else (ENil, False, None)
       else (ENil, False, None)) e"

definition isRuntimeEffectiveDerivedRoles :: "PExpr \<Rightarrow> bool" where
  "isRuntimeEffectiveDerivedRoles ex \<longleftrightarrow>
     selOperand ex = EIdent ''runtime'' \<and> (selField ex = ''effective_derived_roles'' \<or> selField ex = ''effectiveDerivedRoles'')"

definition replaceRuntimeEffectiveDerivedRoles :: "PlanErr + PExpr \<Rightarrow> PExpr \<Rightarrow> PlanErr + PExpr" where
  "replaceRuntimeEffectiveDerivedRoles derivedRolesList e =
     replaceVarsGen (\<lambda>ex.
       if \<not> isSelect ex then (ENil, False, None)
       else if isRuntimeEffectiveDerivedRoles ex
       then (case derivedRolesList of Inl err \<Rightarrow> (ENil, True, Some err) | Inr output \<Rightarrow> (output, True, None))
       else (ENil, False, None)) e"

section \<open>Optional values\<close>

fun hasOptional :: "PlanExt \<Rightarrow> PExpr \<Rightarrow> bool" and entryHasOptional :: "PlanExt \<Rightarrow> PEntry \<Rightarrow> bool" where
  "hasOptional X (ESelect e f t) \<longleftrightarrow> hasOptional X e"
| "hasOptional X (ECall t fn args) \<longleftrightarrow>
     fn \<in> set (pe_optionalFuncs X) \<or> (case t of None \<Rightarrow> False | Some e \<Rightarrow> hasOptional X e) \<or> (\<exists>e \<in> set args. hasOptional X e)"
| "hasOptional X (EList es opts) \<longleftrightarrow> opts \<noteq> [] \<or> (\<exists>e \<in> set es. hasOptional X e)"
| "hasOptional X (EStruct n entries) \<longleftrightarrow> (\<exists>entry \<in> set entries. entryHasOptional X entry)"
| "hasOptional X (EComp r v v2 a i c s res) \<longleftrightarrow>
     hasOptional X r \<or> hasOptional X i \<or> hasOptional X c \<or> hasOptional X s \<or> hasOptional X res"
| "hasOptional X _ \<longleftrightarrow> False"
| "entryHasOptional X (FieldEntry k v opt) \<longleftrightarrow> opt \<or> hasOptional X v"
| "entryHasOptional X (MapEntry k v opt) \<longleftrightarrow> opt \<or> hasOptional X k \<or> hasOptional X v"

definition checkNoOptionals :: "PlanExt \<Rightarrow> PExpr \<Rightarrow> PlanErr option" where
  "checkNoOptionals X e = (if hasOptional X e then Some ErrOptional else None)"

section \<open>Requests\<close>

record PlanResource =
  pr_Kind :: string
  pr_PolicyVersion :: string
  pr_Attr :: "(string, string) gomap"
  pr_Scope :: string

record PlanResourcesInput =
  pli_RequestId :: string
  pli_Action :: string
  pli_Actions :: "string list"
  pli_Principal :: PrincipalIn
  pli_Resource :: PlanResource
  pli_AuxData :: string

text \<open>The request expressions see has no version, and the scopes without their leading dot.\<close>

definition PlanResourcesInputToRequest :: "PlanResourcesInput \<Rightarrow> PlanResourcesInput" where
  "PlanResourcesInputToRequest input =
     input\<lparr>pli_RequestId := '''', pli_Action := '''', pli_Actions := [],
       pli_Principal := (pli_Principal input)\<lparr>pi_PolicyVersion := '''', pi_Scope := ScopeValue (pi_Scope (pli_Principal input))\<rparr>,
       pli_Resource := (pli_Resource input)\<lparr>pr_PolicyVersion := '''', pr_Scope := ScopeValue (pr_Scope (pli_Resource input))\<rparr>\<rparr>"

section \<open>Conditions\<close>

text \<open>
  The partial evaluator is the CEL engine: an evaluation fails, fails with a CEL runtime error, leaves a residual that depends on
  the resource, or gives a value, which is a boolean or not.  The last field simplifies a residual.
\<close>

datatype PartialResult = PartialFail | PartialCelErr | PartialUnknown PExpr | PartialKnown bool PExpr

record PartialEvaluator =
  pv_evalPartially :: "PExpr \<Rightarrow> PartialResult"
  pv_evaluateUnknown :: "PExpr \<Rightarrow> PExpr option"

record PlanCel =
  pc_compile :: "string \<Rightarrow> PExpr option"
  pc_newEvaluator :: "PlanResourcesInput \<Rightarrow> vars \<Rightarrow> vars \<Rightarrow> string \<Rightarrow> PartialEvaluator option"

text \<open>The context of a plan: the CEL engine, the request, the evaluation parameters.\<close>

record PlanContext =
  px_ext :: PlanExt
  px_cel :: PlanCel
  px_params :: EvalParams
  px_request :: PlanResourcesInput

text \<open>The cache of compiled expressions, a nil cache being none.\<close>

type_synonym ExprCache = "(string, PExpr) gomap"

definition NewExprCache :: ExprCache where
  "NewExprCache = []"

definition ExprCache_Clear :: "ExprCache option \<Rightarrow> ExprCache option" where
  "ExprCache_Clear c = map_option (\<lambda>_. []) c"

definition compileToExpr :: "PlanCel \<Rightarrow> string \<Rightarrow> PlanErr + PExpr" where
  "compileToExpr PC src = (case pc_compile PC src of None \<Rightarrow> Inl ErrCompile | Some e \<Rightarrow> Inr e)"

definition ExprCache_getOrCompile :: "PlanCel \<Rightarrow> Expr \<Rightarrow> ExprCache option \<Rightarrow> (PlanErr + PExpr) \<times> ExprCache option" where
  "ExprCache_getOrCompile PC e c =
     (case c of
        None \<Rightarrow> (compileToExpr PC (ex_Original e), None)
      | Some m \<Rightarrow>
          (case map_of m (ex_Original e) of
             Some x \<Rightarrow> (Inr x, Some m)
           | None \<Rightarrow>
               (case compileToExpr PC (ex_Original e) of
                  Inl err \<Rightarrow> (Inl err, Some m)
                | Inr x \<Rightarrow> (Inr x, Some (AList.update (ex_Original e) x m)))))"

lemma ExprCache_transparent:
  assumes "\<forall>m src x. c = Some m \<longrightarrow> map_of m src = Some x \<longrightarrow> compileToExpr PC src = Inr x" and "ExprCache_getOrCompile PC e c = (r, c')"
  shows "r = compileToExpr PC (ex_Original e)" and "\<forall>m src x. c' = Some m \<longrightarrow> map_of m src = Some x \<longrightarrow> compileToExpr PC src = Inr x"
  using assms by (auto simp: ExprCache_getOrCompile_def map_of_goupdate split: option.splits sum.splits if_splits)

text \<open>Compiled expressions only come from this cache, which maps a source to what compiling it gives; below it is left implicit.\<close>

fun variableExprsFrom :: "PlanContext \<Rightarrow> Variable list \<Rightarrow> (string, PExpr) gomap \<Rightarrow> PlanErr + (string, PExpr) gomap" where
  "variableExprsFrom P [] exprs = Inr exprs"
| "variableExprsFrom P (v # vs) exprs =
     andThen (compileToExpr (px_cel P) (ex_Original (var_Expr v))) (\<lambda>e.
       andThen (replaceVars exprs e) (\<lambda>expr. variableExprsFrom P vs (AList.update (var_Name v) expr exprs)))"

definition VariableExprs :: "PlanContext \<Rightarrow> Variable list \<Rightarrow> PlanErr + (string, PExpr) gomap" where
  "VariableExprs P variables = variableExprsFrom P variables []"

definition evaluateConditionExpression :: "PlanContext \<Rightarrow> PExpr \<Rightarrow> vars \<Rightarrow> (string, PExpr) gomap \<Rightarrow> PlanErr + PExpr \<Rightarrow> PlanErr + PExpr" where
  "evaluateConditionExpression P expr constants variables derivedRolesList =
     (case pc_newEvaluator (px_cel P) (px_request P) (ep_Globals (px_params P)) constants (ep_Now (px_params P)) of
        None \<Rightarrow> Inl ErrPartialEval
      | Some p \<Rightarrow>
          andThen (replaceVars variables expr) (\<lambda>e.
          andThen (let m = pr_Attr (pli_Resource (px_request P)) in if m \<noteq> [] then replaceResourceVals (map fst m) e else Inr e) (\<lambda>e.
          andThen (replaceRuntimeEffectiveDerivedRoles derivedRolesList e) (\<lambda>e.
            case pv_evalPartially p e of
              PartialCelErr \<Rightarrow> if ep_StrictEvaluation (px_params P) then Inl ErrStrict else Inr FalseExpr
            | PartialFail \<Rightarrow> Inl ErrPartialEval
            | PartialUnknown residual \<Rightarrow>
                (case checkNoOptionals (px_ext P) residual of
                   Some err \<Rightarrow> Inl err
                 | None \<Rightarrow> (case pv_evaluateUnknown p residual of None \<Rightarrow> Inl ErrPartialEval | Some r \<Rightarrow> Inr r))
            | PartialKnown isBool residual \<Rightarrow> Inr (if isBool then residual else FalseExpr)))))"

text \<open>The nodes of the operands of a condition; \<open>None\<close> when a constant decides the condition.\<close>

fun EvaluateCond :: "PlanContext \<Rightarrow> vars \<Rightarrow> (string, PExpr) gomap \<Rightarrow> PlanErr + PExpr \<Rightarrow> Condition \<Rightarrow> PlanErr + QpN"
  and EvaluateConds :: "PlanContext \<Rightarrow> vars \<Rightarrow> (string, PExpr) gomap \<Rightarrow> PlanErr + PExpr \<Rightarrow> bool \<Rightarrow> Condition list \<Rightarrow> PlanErr + QpN list option" where
  "EvaluateCond P constants variables drl (Cond_Any cs) =
     andThen (EvaluateConds P constants variables drl True cs) (\<lambda>r.
       case r of
         None \<Rightarrow> Inr mkTrueNode
       | Some [] \<Rightarrow> Inr (QpExpr FalseExpr)
       | Some [node] \<Rightarrow> Inr node
       | Some nodes \<Rightarrow> Inr (MkNodeFromLO (mkOrLogicalOperation nodes)))"
| "EvaluateCond P constants variables drl (Cond_All cs) =
     andThen (EvaluateConds P constants variables drl False cs) (\<lambda>r.
       case r of
         None \<Rightarrow> Inr MkFalseNode
       | Some [] \<Rightarrow> Inr (QpExpr TrueExpr)
       | Some [node] \<Rightarrow> Inr node
       | Some nodes \<Rightarrow> Inr (MkNodeFromLO (MkAndLogicalOperation nodes)))"
| "EvaluateCond P constants variables drl (Cond_None cs) =
     andThen (EvaluateConds P constants variables drl True cs) (\<lambda>r.
       case map_option (map InvertNodeBooleanValue) r of
         None \<Rightarrow> Inr (QpExpr FalseExpr)
       | Some [] \<Rightarrow> Inr (QpExpr TrueExpr)
       | Some [node] \<Rightarrow> Inr node
       | Some nodes \<Rightarrow> Inr (MkNodeFromLO (MkAndLogicalOperation nodes)))"
| "EvaluateCond P constants variables drl (Cond_Expr expr) =
     andThen (compileToExpr (px_cel P) (ex_Original expr)) (\<lambda>ex.
       andThen (evaluateConditionExpression P ex constants variables drl) (\<lambda>residual. Inr (QpExpr residual)))"
| "EvaluateCond P constants variables drl Cond_Unset = Inl ErrUnsupportedCondition"
| "EvaluateConds P constants variables drl decisive [] = Inr (Some [])"
| "EvaluateConds P constants variables drl decisive (c # cs) =
     andThen (EvaluateCond P constants variables drl c) (\<lambda>node.
       case IsNodeConstBool (Some node) of
         Some b \<Rightarrow> if b = decisive then Inr None else EvaluateConds P constants variables drl decisive cs
       | None \<Rightarrow> andThen (EvaluateConds P constants variables drl decisive cs) (\<lambda>r. Inr (map_option (\<lambda>nodes. node # nodes) r)))"

definition EvaluateCondition :: "PlanContext \<Rightarrow> Condition option \<Rightarrow> vars \<Rightarrow> (string, PExpr) gomap \<Rightarrow> PlanErr + PExpr \<Rightarrow> PlanErr + QpN" where
  "EvaluateCondition P condition constants variables derivedRolesList =
     (case condition of None \<Rightarrow> Inr mkTrueNode | Some c \<Rightarrow> EvaluateCond P constants variables derivedRolesList c)"

end
