(* ===== verification/Plan.thy ===== *)
theory Plan
  imports PlanEval
begin

text \<open>
  The plan of a request: for each action the rules of resource and principal policies are combined into one node, which says for
  which resources the action is allowed.  It models \<^verbatim>\<open>internal/ruletable/plan.go\<close>.
\<close>

section \<open>Environment and state\<close>

record PlanEnv = PlanContext +
  pn_world :: World
  pn_rt :: RuleTable
  pn_input :: PlanResourcesInput
  pn_resourceScope :: string
  pn_resourceVersion :: string
  pn_resourceKind :: ResourceKind
  pn_includingParentRoles :: "string list"
  pn_principalScopes :: "string list"
  pn_resourceScopes :: "string list"

record PlanState =
  ps_effectivePolicies :: "(string, string) gomap"
  ps_matchedScopes :: "(string, string) gomap"

definition planContext :: "PlanEnv \<Rightarrow> PlanContext" where
  "planContext P = \<lparr>px_ext = px_ext P, px_cel = px_cel P, px_params = px_params P, px_request = px_request P\<rparr>"

text \<open>A node that may be nil, joined with another.\<close>

definition addNode :: "QpN option \<Rightarrow> QpN option \<Rightarrow> (QpN list \<Rightarrow> QpN option) \<Rightarrow> QpN option" where
  "addNode node next' combine =
     (case next' of None \<Rightarrow> node | Some n \<Rightarrow> (case node of None \<Rightarrow> next' | Some c \<Rightarrow> combine [c, n]))"

definition gateByChildOverrideAllow :: "PlanExt \<Rightarrow> QpN option \<Rightarrow> QpN option \<Rightarrow> QpN option" where
  "gateByChildOverrideAllow X childOverrideAllow deny =
     (case (deny, childOverrideAllow) of
        (Some d, Some c) \<Rightarrow>
          let inv = InvertNodeBooleanValue c
          in if IsNodeConstBool deny = Some True then Some inv else MkAndNode X [inv, d]
      | _ \<Rightarrow> deny)"

section \<open>Derived roles of a scope\<close>

text \<open>The derived roles whose parents the principal has, with the nodes of their conditions; an error of strict evaluation is kept
  for the conditions that use the list, and any other error ends the plan.\<close>

fun derivedRoleNodes :: "PlanEnv \<Rightarrow> (string, WrappedRunnableDerivedRole) gomap \<Rightarrow> PlanErr + RN list \<times> bool" where
  "derivedRoleNodes P [] = Inr ([], False)"
| "derivedRoleNodes P ((name, dr) # drs) =
     (if \<not> SetIntersects (dr_ParentRoles (wdr_Role dr)) (pn_includingParentRoles P) then derivedRoleNodes P drs
      else andThen (VariableExprs (planContext P) (dr_OrderedVariables (wdr_Role dr))) (\<lambda>variables.
        case EvaluateCondition (planContext P) (dr_Condition (wdr_Role dr)) (wdr_Constants dr) variables (MkDerivedRolesList []) of
          Inl err \<Rightarrow>
            if err = ErrStrict then andThen (derivedRoleNodes P drs) (\<lambda>(rns, failed). Inr (rns, True)) else Inl err
        | Inr node \<Rightarrow> andThen (derivedRoleNodes P drs) (\<lambda>(rns, failed). Inr ((name, node) # rns, failed))))"

definition scopeDerivedRolesList :: "PlanEnv \<Rightarrow> Kind \<Rightarrow> string \<Rightarrow> PlanErr + (PlanErr + PExpr)" where
  "scopeDerivedRolesList P pt scope =
     (if pt = KIND_RESOURCE
      then let drs = (case GetDerivedRoles (pn_world P) (pn_rt P)
                 (ResourcePolicyFQN (pr_Kind (pli_Resource (pn_input P))) (pn_resourceVersion P) scope) of None \<Rightarrow> [] | Some m \<Rightarrow> m)
        in andThen (derivedRoleNodes P drs) (\<lambda>(rns, failed).
             Inr (if failed then Inl ErrStrict else MkDerivedRolesList (sort_key fst rns)))
      else Inr (MkDerivedRolesList []))"

section \<open>One binding\<close>

text \<open>The node of a binding: its condition, and that of its derived role.  The constants of the derived role are read even when the
  binding has no parameters for it.\<close>

definition bindingNode :: "PlanEnv \<Rightarrow> PlanErr + PExpr \<Rightarrow> BindingHandle \<Rightarrow> PlanErr + QpN" where
  "bindingNode P drl b =
     (let core = b_Core b
      in andThen (case fc_Params core of
             None \<Rightarrow> Inr ([], [])
           | Some p \<Rightarrow> andThen (VariableExprs (planContext P) (rp_Variables p)) (\<lambda>variables. Inr (rp_Constants p, variables))) (\<lambda>(constants, variables).
         andThen (EvaluateCondition (planContext P) (fc_Condition core) constants variables drl) (\<lambda>node.
           case fc_DerivedRoleCondition core of
             None \<Rightarrow> Inr node
           | Some drCondition \<Rightarrow>
               (case fc_DerivedRoleParams core of
                  None \<Rightarrow> Inl PanicNilParams
                | Some dp \<Rightarrow>
                    andThen (VariableExprs (planContext P) (rp_Variables dp)) (\<lambda>drVariables.
                    andThen (EvaluateCondition (planContext P) (Some drCondition) (rp_Constants dp) drVariables drl) (\<lambda>drNode.
                      Inr (if fc_Condition core = None then drNode
                           else MkNodeFromLO (MkAndLogicalOperation [node, drNode]))))))))"

record ScopeNodes =
  sn_allow :: "QpN option"
  sn_deny :: "QpN option"
  sn_denyRolePolicy :: "QpN option"

definition addEffect :: "PlanExt \<Rightarrow> BindingHandle \<Rightarrow> QpN \<Rightarrow> ScopeNodes \<Rightarrow> ScopeNodes" where
  "addEffect X b node sn =
     (case fc_Effect (b_Core b) of
        EFFECT_ALLOW \<Rightarrow> sn\<lparr>sn_allow := addNode (sn_allow sn) (Some node) (MkOrNode X)\<rparr>
      | EFFECT_DENY \<Rightarrow>
          if IsNodeConstBool (Some node) = Some False then sn
          else if fc_FromRolePolicy (b_Core b)
          then sn\<lparr>sn_denyRolePolicy := addNode (sn_denyRolePolicy sn) (Some node) (MkOrNode X)\<rparr>
          else sn\<lparr>sn_deny := addNode (sn_deny sn) (Some node) (MkOrNode X)\<rparr>
      | _ \<Rightarrow> sn)"

definition planAudit :: "PlanEnv \<Rightarrow> BindingHandle \<Rightarrow> PlanState \<Rightarrow> PlanState" where
  "planAudit P b s =
     (case GetMeta (pn_world P) (pn_rt P) (b_OriginFqn b) of
        None \<Rightarrow> s
      | Some md \<Rightarrow> s\<lparr>ps_effectivePolicies := fold (\<lambda>(k, v). AList.update k v) (md_SourceAttributes md) (ps_effectivePolicies s)\<rparr>)"

fun planBindings :: "PlanEnv \<Rightarrow> PlanErr + PExpr \<Rightarrow> BindingHandle list \<Rightarrow> ScopeNodes \<Rightarrow> PlanState \<Rightarrow> (PlanErr + ScopeNodes) \<times> PlanState" where
  "planBindings P drl [] sn s = (Inr sn, s)"
| "planBindings P drl (b # bs) sn s =
     (let s = planAudit P b s
      in case bindingNode P drl b of
           Inl err \<Rightarrow> (Inl err, s)
         | Inr node \<Rightarrow> planBindings P drl bs (addEffect (px_ext P) b node sn) s)"

section \<open>Scopes and roles\<close>

record RoleNodes =
  rn_allow :: "QpN option"
  rn_deny :: "QpN option"
  rn_denyRolePolicy :: "QpN option"
  rn_pendingAllow :: bool
  rn_childOverrideAllow :: "QpN option"

definition emptyRoleNodes :: RoleNodes where
  "emptyRoleNodes = \<lparr>rn_allow = None, rn_deny = None, rn_denyRolePolicy = None, rn_pendingAllow = False, rn_childOverrideAllow = None\<rparr>"

text \<open>The nodes of a scope join those of its children: a denial only counts where no child scope that overrides it allows, and an
  allow of a scope that requires consent waits for one of a parent.\<close>

definition joinScope :: "PlanEnv \<Rightarrow> string \<Rightarrow> ScopeNodes \<Rightarrow> RoleNodes \<Rightarrow> RoleNodes" where
  "joinScope P scope sn rn =
     (let X = px_ext P;
          perms = GetScopeScopePermissions (pn_rt P) scope;
          deny = gateByChildOverrideAllow X (rn_childOverrideAllow rn) (sn_deny sn);
          denyRolePolicy = gateByChildOverrideAllow X (rn_childOverrideAllow rn) (sn_denyRolePolicy sn);
          rn = rn\<lparr>rn_deny := addNode (rn_deny rn) deny (MkOrNode X),
                  rn_denyRolePolicy := addNode (rn_denyRolePolicy rn) denyRolePolicy (MkOrNode X)\<rparr>;
          rn = (case sn_allow sn of
              None \<Rightarrow> rn
            | Some a \<Rightarrow>
                let rn = (case rn_allow rn of
                      None \<Rightarrow> rn\<lparr>rn_allow := Some a\<rparr>
                    | Some r \<Rightarrow>
                        if rn_pendingAllow rn then rn\<lparr>rn_allow := MkAndNode X [r, a], rn_pendingAllow := False\<rparr>
                        else rn\<lparr>rn_allow := MkOrNode X [r, a]\<rparr>)
                in if perms = SCOPE_PERMISSIONS_REQUIRE_PARENTAL_CONSENT_FOR_ALLOWS then rn\<lparr>rn_pendingAllow := True\<rparr> else rn)
      in if sn_allow sn \<noteq> None \<and> perms = SCOPE_PERMISSIONS_OVERRIDE_PARENT
         then rn\<lparr>rn_childOverrideAllow := addNode (rn_childOverrideAllow rn) (sn_allow sn) (MkOrNode X)\<rparr> else rn)"

definition matchScope :: "PlanEnv \<Rightarrow> string \<Rightarrow> string \<Rightarrow> ScopeNodes \<Rightarrow> RoleNodes \<Rightarrow> PlanState \<Rightarrow> PlanState" where
  "matchScope P action scope sn rn s =
     (if (gateByChildOverrideAllow (px_ext P) (rn_childOverrideAllow rn) (sn_deny sn) \<noteq> None
          \<or> gateByChildOverrideAllow (px_ext P) (rn_childOverrideAllow rn) (sn_denyRolePolicy sn) \<noteq> None \<or> sn_allow sn \<noteq> None)
         \<and> GetScopeScopePermissions (pn_rt P) scope = SCOPE_PERMISSIONS_OVERRIDE_PARENT
      then s\<lparr>ps_matchedScopes := AList.update action scope (ps_matchedScopes s)\<rparr> else s)"

definition planQuery :: "PlanEnv \<Rightarrow> Kind \<Rightarrow> string \<Rightarrow> string \<Rightarrow> string list \<Rightarrow> BindingHandle list" where
  "planQuery P pt action scope rolesIncludingParents =
     Query (w_ext (pn_world P)) (rt_idx (pn_rt P)) (pn_resourceVersion P) (pn_resourceKind P) scope action rolesIncludingParents pt
       (if pt = KIND_PRINCIPAL then pi_Id (pli_Principal (pn_input P)) else '''') []"

fun planScopes :: "PlanEnv \<Rightarrow> Kind \<Rightarrow> string \<Rightarrow> string list \<Rightarrow> string list \<Rightarrow> RoleNodes \<Rightarrow> PlanState \<Rightarrow> (PlanErr + RoleNodes) \<times> PlanState" where
  "planScopes P pt action rs [] rn s = (Inr rn, s)"
| "planScopes P pt action rs (scope # scopes) rn s =
     (if IsNodeConstBool (rn_childOverrideAllow rn) = Some True then (Inr rn, s)
      else case scopeDerivedRolesList P pt scope of
          Inl err \<Rightarrow> (Inl err, s)
        | Inr drl \<Rightarrow>
            (case planBindings P drl (planQuery P pt action scope rs) \<lparr>sn_allow = None, sn_deny = None, sn_denyRolePolicy = None\<rparr> s of
               (Inl err, s) \<Rightarrow> (Inl err, s)
             | (Inr sn, s) \<Rightarrow> planScopes P pt action rs scopes (joinScope P scope sn rn) (matchScope P action scope sn rn s)))"

text \<open>The nodes of the roles so far, for a policy type; the flag says that the loop over roles ends.\<close>

record TypeNodes =
  tn_allow :: "QpN option"
  tn_deny :: "QpN option"

definition joinRole :: "PlanExt \<Rightarrow> Kind \<Rightarrow> RoleNodes \<Rightarrow> TypeNodes \<Rightarrow> TypeNodes \<times> bool" where
  "joinRole X pt rn tn =
     (let allow = (if rn_pendingAllow rn then None else rn_allow rn);
          deny = rn_deny rn;
          denyRolePolicy = rn_denyRolePolicy rn;
          constTrue = (IsNodeConstBool deny = Some True \<or> IsNodeConstBool denyRolePolicy = Some True)
      in if \<not> constTrue \<and> allow \<noteq> None \<and> deny = None \<and> denyRolePolicy = None \<and> IsNodeConstBool allow = Some True
         then (tn\<lparr>tn_allow := allow, tn_deny := None\<rparr>, True)
         else let (allow, deny, denyRolePolicy) =
                (if constTrue \<and> pt \<noteq> KIND_PRINCIPAL then (Some MkFalseNode, None, None) else (allow, deny, denyRolePolicy));
              allow = (case (denyRolePolicy, allow) of
                  (Some d, Some a) \<Rightarrow> MkAndNode X [a, InvertNodeBooleanValue d]
                | _ \<Rightarrow> allow)
              in (\<lparr>tn_allow = addNode (tn_allow tn) allow (MkOrNode X), tn_deny = addNode (tn_deny tn) deny (MkOrNode X)\<rparr>, False))"

fun planRoles :: "PlanEnv \<Rightarrow> Kind \<Rightarrow> string \<Rightarrow> string list \<Rightarrow> TypeNodes \<Rightarrow> PlanState \<Rightarrow> (PlanErr + TypeNodes) \<times> PlanState" where
  "planRoles P pt action [] tn s = (Inr tn, s)"
| "planRoles P pt action (role # roles) tn s =
     (case planScopes P pt action (AddParentRoles (rt_idx (pn_rt P)) [pn_resourceScope P] [role])
             (if pt = KIND_PRINCIPAL then pn_principalScopes P else pn_resourceScopes P) emptyRoleNodes s of
        (Inl err, s) \<Rightarrow> (Inl err, s)
      | (Inr rn, s) \<Rightarrow>
          (case joinRole (px_ext P) pt rn tn of
             (tn, stop) \<Rightarrow> if stop \<or> pt = KIND_PRINCIPAL then (Inr tn, s) else planRoles P pt action roles tn s))"

section \<open>Policy types and actions\<close>

record RootNode =
  ro_root :: "QpN option"
  ro_hasPolicyTypeAllow :: bool

definition joinType :: "PlanExt \<Rightarrow> TypeNodes \<Rightarrow> RootNode \<Rightarrow> RootNode" where
  "joinType X tn root =
     (let root = (case tn_allow tn of
            None \<Rightarrow> root
          | Some a \<Rightarrow> root\<lparr>ro_hasPolicyTypeAllow := True,
                ro_root := (case ro_root root of None \<Rightarrow> Some a | Some r \<Rightarrow> MkOrNode X [a, r])\<rparr>)
      in case tn_deny tn of
           None \<Rightarrow> root
         | Some d \<Rightarrow>
             let inv = InvertNodeBooleanValue d
             in root\<lparr>ro_root := (case ro_root root of None \<Rightarrow> Some inv | Some r \<Rightarrow> MkAndNode X [inv, r])\<rparr>)"

fun planTypes :: "PlanEnv \<Rightarrow> string \<Rightarrow> Kind list \<Rightarrow> RootNode \<Rightarrow> PlanState \<Rightarrow> (PlanErr + RootNode) \<times> PlanState" where
  "planTypes P action [] root s = (Inr root, s)"
| "planTypes P action (pt # pts) root s =
     (case planRoles P pt action (pi_Roles (pli_Principal (pn_input P))) \<lparr>tn_allow = None, tn_deny = None\<rparr> s of
        (Inl err, s) \<Rightarrow> (Inl err, s)
      | (Inr tn, s) \<Rightarrow> planTypes P action pts (joinType (px_ext P) tn root) s)"

text \<open>The filter of an action over nodes, and whether a policy matched; an error of strict evaluation denies.\<close>

definition actionFilter :: "PlanErr + RootNode \<Rightarrow> PlanErr + NodeFilter \<times> bool" where
  "actionFilter r =
     (let nf = \<lparr>nf_allowFilter = [], nf_denyFilter = []\<rparr>;
          result = (case r of
              Inl err \<Rightarrow> if err = ErrStrict then Inr (ResetToUnconditionalDeny nf, True) else Inl err
            | Inr root \<Rightarrow>
                Inr (case ro_root root of
                    None \<Rightarrow> (nf, False)
                  | Some node \<Rightarrow> (if \<not> ro_hasPolicyTypeAllow root then ResetToUnconditionalDeny nf else NodeFilter_Add node EFFECT_ALLOW nf, True)))
      in andThen result (\<lambda>(nf, policyMatch).
           Inr (if AllowIsEmpty nf \<and> \<not> DenyIsEmpty nf then ResetToUnconditionalDeny nf else nf, policyMatch)))"

definition planAction :: "PlanEnv \<Rightarrow> string \<Rightarrow> PlanState \<Rightarrow> (PlanErr + PlanResourcesFilter \<times> bool) \<times> PlanState" where
  "planAction P action s =
     (let s = s\<lparr>ps_matchedScopes := AList.update action '''' (ps_matchedScopes s)\<rparr>
      in case planTypes P action [KIND_RESOURCE, KIND_PRINCIPAL] \<lparr>ro_root = None, ro_hasPolicyTypeAllow = False\<rparr> s of
           (r, s) \<Rightarrow> (andThen (actionFilter r) (\<lambda>(nf, policyMatch).
                       andThen (ToFilter (px_ext P) (ToAST nf)) (\<lambda>f. Inr (f, policyMatch))), s))"

fun planActions :: "PlanEnv \<Rightarrow> string list \<Rightarrow> PlanState \<Rightarrow> (PlanErr + PlanResourcesFilter list \<times> bool) \<times> PlanState" where
  "planActions P [] s = (Inr ([], False), s)"
| "planActions P (action # actions) s =
     (case planAction P action s of
        (Inl err, s) \<Rightarrow> (Inl err, s)
      | (Inr (f, matched), s) \<Rightarrow>
          (case planActions P actions s of
             (Inl err, s) \<Rightarrow> (Inl err, s)
           | (Inr (fs, policyMatch), s) \<Rightarrow> (Inr (f # fs, matched \<or> policyMatch), s)))"

section \<open>A whole plan\<close>

record PlanResourcesOutput =
  po_RequestId :: string
  po_Kind :: string
  po_PolicyVersion :: string
  po_Action :: string
  po_Actions :: "string list"
  po_Scope :: string
  po_MatchedScopes :: "(string, string) gomap"
  po_ValidationErrors :: "string list"
  po_Filter :: "PlanResourcesFilter option"
  po_FilterDebug :: string

definition MkPlanResourcesOutput :: "PlanResourcesInput \<Rightarrow> (string, string) gomap \<Rightarrow> string list \<Rightarrow> PlanResourcesOutput" where
  "MkPlanResourcesOutput input matchedScopes validationErrors =
     \<lparr>po_RequestId = pli_RequestId input, po_Kind = pr_Kind (pli_Resource input), po_PolicyVersion = pr_PolicyVersion (pli_Resource input),
      po_Action = pli_Action input, po_Actions = pli_Actions input, po_Scope = ScopeValue (pr_Scope (pli_Resource input)),
      po_MatchedScopes = matchedScopes, po_ValidationErrors = validationErrors, po_Filter = None, po_FilterDebug = ''''\<rparr>"

definition alwaysDenied :: PlanResourcesFilter where
  "alwaysDenied = \<lparr>pf_Kind = KIND_ALWAYS_DENIED, pf_Condition = OpNil\<rparr>"

definition noMatchPlanOutput :: "PlanResourcesInput \<Rightarrow> string list \<Rightarrow> PlanResourcesOutput" where
  "noMatchPlanOutput input validationErrors =
     (MkPlanResourcesOutput input [] validationErrors)\<lparr>po_Filter := Some alwaysDenied, po_FilterDebug := noPolicyMatch\<rparr>"

definition planEnv :: "World \<Rightarrow> PlanExt \<Rightarrow> PlanCel \<Rightarrow> RuleTable \<Rightarrow> EvalParams \<Rightarrow> PlanResourcesInput \<Rightarrow> PlanEnv" where
  "planEnv W X PC rt ep input =
     (let p = pli_Principal input; r = pli_Resource input;
          resourceScope = Scope (pr_Scope r) ep;
          resourceVersion = PolicyVersion (pr_PolicyVersion r) ep
      in \<lparr>px_ext = X, px_cel = PC, px_params = ep, px_request = PlanResourcesInputToRequest input, pn_world = W, pn_rt = rt, pn_input = input,
          pn_resourceScope = resourceScope, pn_resourceVersion = resourceVersion, pn_resourceKind = NewResourceKind (pr_Kind r),
          pn_includingParentRoles = AddParentRoles (rt_idx rt) [resourceScope] (pi_Roles p),
          pn_principalScopes = fst (GetAllScopes rt KIND_PRINCIPAL (Scope (pi_Scope p) ep) (pi_Id p)
            (PolicyVersion (pi_PolicyVersion p) ep) (ep_LenientScopeSearch ep)),
          pn_resourceScopes = fst (GetAllScopes rt KIND_RESOURCE resourceScope (pr_Kind r) resourceVersion (ep_LenientScopeSearch ep))\<rparr>)"

text \<open>The validator of plan requests: an error, or the validation errors and whether they reject the request.\<close>

type_synonym PlanValidator = "Schemas option \<Rightarrow> PlanResourcesInput \<Rightarrow> (string list \<times> bool) option"

definition planWithAuditTrail :: "World \<Rightarrow> PlanExt \<Rightarrow> PlanCel \<Rightarrow> PlanValidator \<Rightarrow> RuleTable \<Rightarrow> EvalParams \<Rightarrow> PlanResourcesInput
    \<Rightarrow> PlanErr + PlanResourcesOutput \<times> (string, string) gomap" where
  "planWithAuditTrail W X PC validate rt ep input =
     (let P = planEnv W X PC rt ep input;
          r = pli_Resource input;
          resourcePolicyFQN = snd (snd (GetAllScopes rt KIND_RESOURCE (Scope (pr_Scope r) ep) (pr_Kind r)
            (PolicyVersion (pr_PolicyVersion r) ep) (ep_LenientScopeSearch ep)))
      in if pn_principalScopes P = [] \<and> pn_resourceScopes P = [] then Inr (noMatchPlanOutput input [], [])
         else case validate (GetSchema W rt resourcePolicyFQN) input of
             None \<Rightarrow> Inl ErrPlanValidation
           | Some (errs, reject) \<Rightarrow>
               if errs \<noteq> [] \<and> reject
               then Inr ((MkPlanResourcesOutput input [] errs)\<lparr>po_Filter := Some alwaysDenied, po_FilterDebug := FilterToString X alwaysDenied\<rparr>, [])
               else (case planActions P (pli_Actions input) \<lparr>ps_effectivePolicies = [], ps_matchedScopes = []\<rparr> of
                   (Inl err, s) \<Rightarrow> Inl err
                 | (Inr (fs, policyMatch), s) \<Rightarrow>
                     andThen (MergeWithAnd X fs) (\<lambda>(f, debug).
                       Inr ((MkPlanResourcesOutput input (ps_matchedScopes s) errs)\<lparr>po_Filter := Some f,
                              po_FilterDebug := (if policyMatch then debug else noPolicyMatch)\<rparr>, ps_effectivePolicies s))))"

end
