(* ===== verification/FilterProps.thy ===== *)
theory FilterProps
  imports PlanFilter
begin

text \<open>
  What a filter means, and that its normal form and the conjunction of filters mean the same as what they are computed from.
\<close>

section \<open>The meaning of operands\<close>

text \<open>An interpretation of variables and of the operators other than the logical ones, over environments: an operator gets the
  meanings of its operands, so that one that binds variables can evaluate them in another environment.\<close>

record 'e Interp =
  i_var :: "string \<Rightarrow> 'e \<Rightarrow> PValue"
  i_fn :: "string \<Rightarrow> ('e \<Rightarrow> PValue) list \<Rightarrow> 'e \<Rightarrow> PValue"

primrec evalOp :: "'e Interp \<Rightarrow> Operand \<Rightarrow> 'e \<Rightarrow> PValue" where
  "evalOp I OpNil = (\<lambda>e. VNull)"
| "evalOp I OpEmpty = (\<lambda>e. VBool True)"
| "evalOp I (OpValue v) = (\<lambda>e. v)"
| "evalOp I (OpVariable n) = i_var I n"
| "evalOp I (OpExpr f ops) =
     (let ds = map (evalOp I) ops
      in if f = ''and'' then (\<lambda>e. VBool (\<forall>d \<in> set ds. d e = VBool True))
         else if f = ''or'' then (\<lambda>e. VBool (\<exists>d \<in> set ds. d e = VBool True))
         else if f = ''not'' then (\<lambda>e. VBool (\<not> (\<forall>d \<in> set ds. d e = VBool True)))
         else i_fn I f ds)"

text \<open>The operators and variables mean what their documentation says: membership in a constant list or map, and the long names of
  the abbreviated variables.\<close>

definition filterLaws :: "'e Interp \<Rightarrow> bool" where
  "filterLaws I \<longleftrightarrow> (\<forall>n. i_var I (ExpandAbbrev n) = i_var I n)
     \<and> (\<forall>d. i_fn I ''in'' [d, \<lambda>e. VList []] = (\<lambda>e. VBool False))
     \<and> (\<forall>d w. i_fn I ''in'' [d, \<lambda>e. VList [w]] = i_fn I ''eq'' [d, \<lambda>e. w])
     \<and> (\<forall>d. i_fn I ''in'' [d, \<lambda>e. VStruct []] = (\<lambda>e. VBool False))
     \<and> (\<forall>d k w. i_fn I ''in'' [d, \<lambda>e. VStruct [(k, w)]] = i_fn I ''eq'' [d, \<lambda>e. VString k])"

text \<open>The operands of logical operators are boolean, a negation has one operand, and membership is tested in lists and maps.\<close>

fun container :: "PValue \<Rightarrow> bool" where
  "container (VList vs) \<longleftrightarrow> True"
| "container (VStruct fs) \<longleftrightarrow> True"
| "container _ \<longleftrightarrow> False"

primrec typed :: "'e Interp \<Rightarrow> Operand \<Rightarrow> bool" where
  "typed I OpNil \<longleftrightarrow> False"
| "typed I OpEmpty \<longleftrightarrow> True"
| "typed I (OpValue v) \<longleftrightarrow> True"
| "typed I (OpVariable n) \<longleftrightarrow> True"
| "typed I (OpExpr f ops) \<longleftrightarrow>
     (\<forall>b \<in> set (map (typed I) ops). b)
     \<and> (f \<in> {''and'', ''or'', ''not''} \<longrightarrow> (\<forall>d \<in> set (map (evalOp I) ops). \<forall>e. \<exists>b. d e = VBool b))
     \<and> (f = ''not'' \<longrightarrow> length ops = 1)
     \<and> (f = ''in'' \<longrightarrow> (\<forall>x v. ops = [x, OpValue v] \<longrightarrow> container v))"

primrec subOps :: "Operand \<Rightarrow> Operand set" where
  "subOps OpNil = {OpNil}"
| "subOps OpEmpty = {OpEmpty}"
| "subOps (OpValue v) = {OpValue v}"
| "subOps (OpVariable n) = {OpVariable n}"
| "subOps (OpExpr f ops) = insert (OpExpr f ops) (\<Union> (set (map subOps ops)))"

text \<open>The operands that are hashed: what normalising makes of the operands of the filter.\<close>

definition noOpCollisions :: "PlanExt \<Rightarrow> Operand \<Rightarrow> bool" where
  "noOpCollisions X op \<longleftrightarrow> inj_on (pe_hashOp X) ((\<lambda>o'. snd (normaliseFilterExprOp X o')) ` subOps op)"

section \<open>Normalising preserves the meaning\<close>

text \<open>An operand normalises well: to something that means the same, in place as well.\<close>

definition preserved :: "'e Interp \<Rightarrow> PlanExt \<Rightarrow> Operand \<Rightarrow> bool" where
  "preserved I X op \<longleftrightarrow> evalOp I (fst (normaliseFilterExprOp X op)) = evalOp I op \<and> evalOp I (snd (normaliseFilterExprOp X op)) = evalOp I op
     \<and> fst (normaliseFilterExprOp X op) \<noteq> OpNil"

lemma asBoolValue_Some: "asBoolValue op = Some b \<longleftrightarrow> op = OpValue (VBool b)"
  by (cases op rule: asBoolValue.cases) auto

abbreviation triples :: "PlanExt \<Rightarrow> Operand list \<Rightarrow> (Operand \<times> Operand \<times> Operand) list" where
  "triples X ops \<equiv> map (\<lambda>op. (op, normaliseFilterExprOp X op)) ops"

text \<open>An operand that decides a conjunction is false, one that decides a disjunction is true.\<close>

definition decidesOp :: "'e Interp \<Rightarrow> string \<Rightarrow> Operand \<Rightarrow> 'e \<Rightarrow> bool" where
  "decidesOp I f op e \<longleftrightarrow> evalOp I op e = VBool (f = ''or'')"

lemma normaliseOperands_logical:
  assumes "f = ''and'' \<or> f = ''or''" and "\<forall>o' \<in> set ops \<union> S. preserved I X o'"
    and "set hashes = pe_hashOp X ` (\<lambda>o'. snd (normaliseFilterExprOp X o')) ` S"
    and "inj_on (pe_hashOp X) ((\<lambda>o'. snd (normaliseFilterExprOp X o')) ` (set ops \<union> S))"
    and "normaliseOperands X f hashes (triples X ops) = (r, after)"
  shows "list_all2 (\<lambda>a o'. evalOp I a = evalOp I o') after ops \<and>
    (case r of Inl v \<Rightarrow> v = OpValue (VBool (f = ''or'')) \<and> (\<exists>o' \<in> set ops. \<forall>e. decidesOp I f o' e)
     | Inr ns \<Rightarrow> (\<forall>n \<in> set ns. n \<noteq> OpNil \<and> (\<exists>o' \<in> set ops. evalOp I n = evalOp I o'))
         \<and> (\<forall>e. (\<exists>o' \<in> set ns. decidesOp I f o' e) \<or> (\<exists>o' \<in> S. decidesOp I f o' e)
             \<longleftrightarrow> (\<exists>o' \<in> set ops. decidesOp I f o' e) \<or> (\<exists>o' \<in> S. decidesOp I f o' e)))"
  using assms(2-5)
proof (induction ops arbitrary: S hashes r after)
  case Nil
  then show ?case by auto
next
  case (Cons op ops)
  obtain n op' where n: "normaliseFilterExprOp X op = (n, op')" by fastforce
  have p: "evalOp I n = evalOp I op" "evalOp I op' = evalOp I op" "n \<noteq> OpNil" using Cons.prems(1) n by (auto simp: preserved_def)
  obtain r0 after0 where rest: "normaliseOperands X f hashes (triples X ops) = (r0, after0)" by fastforce
  have inj0: "inj_on (pe_hashOp X) ((\<lambda>o'. snd (normaliseFilterExprOp X o')) ` (set ops \<union> S))"
    by (rule inj_on_subset [OF Cons.prems(3)]) auto
  note IH0 = Cons.IH [OF _ Cons.prems(2) inj0 rest]
  have refl': "list_all2 (\<lambda>a o'. evalOp I a = evalOp I o') ops ops" by (simp add: list_all2_refl)
  show ?case
  proof (cases "asBoolValue n")
    case (Some b)
    then have b: "evalOp I op = (\<lambda>e. VBool b)" "n = OpValue (VBool b)" using p(1) by (simp_all add: asBoolValue_Some)
    show ?thesis
    proof (cases "b = (f = ''or'')")
      case True
      then have "r = Inl (OpValue (VBool (f = ''or''))) \<and> after = op' # ops"
        using Cons.prems(4) assms(1) b(2) n by (auto simp: falseExprOpValue_def trueExprOpValue_def comp_def)
      moreover have "decidesOp I f op e" for e using b(1) True by (simp add: decidesOp_def)
      ultimately show ?thesis using p(2) refl' by auto
    next
      case False
      then have "r = r0 \<and> after = op' # after0" using Cons.prems(4) assms(1) b(2) n rest by (auto split: if_splits)
      moreover have "\<not> decidesOp I f op e" for e using b(1) False by (auto simp: decidesOp_def)
      ultimately show ?thesis using p(2) IH0 Cons.prems(1) by (auto split: sum.splits)
    qed
  next
    case None
    show ?thesis
    proof (cases "pe_hashOp X op' \<in> set hashes")
      case True
      then have eq: "r = r0 \<and> after = op' # after0" using Cons.prems(4) assms(1) None n rest p(3) by auto
      obtain o2 where o2: "o2 \<in> S" "pe_hashOp X op' = pe_hashOp X (snd (normaliseFilterExprOp X o2))" using True Cons.prems(2) by auto
      then have "op' = snd (normaliseFilterExprOp X o2)" using Cons.prems(3) n by (force dest: inj_onD)
      then have "evalOp I op = evalOp I o2" using p(2) Cons.prems(1) o2(1) by (auto simp: preserved_def)
      then have "decidesOp I f op = decidesOp I f o2" by (simp add: decidesOp_def fun_eq_iff)
      then show ?thesis using eq p(2) IH0 Cons.prems(1) o2(1) by (auto split: sum.splits)
    next
      case False
      obtain r1 after1 where rest1: "normaliseOperands X f (pe_hashOp X op' # hashes) (triples X ops) = (r1, after1)" by fastforce
      have eq: "r = map_sum id (\<lambda>ns. n # ns) r1 \<and> after = op' # after1"
        using Cons.prems(4) assms(1) None n rest1 False p(3) by auto
      have h: "set (pe_hashOp X op' # hashes) = pe_hashOp X ` (\<lambda>o'. snd (normaliseFilterExprOp X o')) ` insert op S" using Cons.prems(2) n by simp
      have "inj_on (pe_hashOp X) ((\<lambda>o'. snd (normaliseFilterExprOp X o')) ` (set ops \<union> insert op S))" using Cons.prems(3) by simp
      note IH1 = Cons.IH [OF _ h this rest1]
      have "decidesOp I f n = decidesOp I f op" using p(1) by (simp add: decidesOp_def fun_eq_iff)
      then show ?thesis using eq p IH1 Cons.prems(1) by (auto split: sum.splits)
    qed
  qed
qed

lemma normaliseOperands_other:
  assumes "f \<noteq> ''and''" and "f \<noteq> ''or''" and "\<forall>o' \<in> set ops. fst (normaliseFilterExprOp X o') \<noteq> OpNil"
  shows "normaliseOperands X f hashes (triples X ops)
    = (Inr (map (\<lambda>o'. fst (normaliseFilterExprOp X o')) ops), map (\<lambda>o'. snd (normaliseFilterExprOp X o')) ops)"
  using assms(3)
proof (induction ops)
  case (Cons op ops)
  obtain n op' where "normaliseFilterExprOp X op = (n, op')" by fastforce
  then show ?case using Cons assms(1,2) by (auto simp: Let_def split: option.split)
qed simp


text \<open>Conjunctions and disjunctions by what decides them.\<close>

lemma evalOp_logical:
  assumes "f = ''and'' \<or> f = ''or''" and "\<forall>o' \<in> set ops. \<forall>e. \<exists>b. evalOp I o' e = VBool b"
  shows "evalOp I (OpExpr f ops) = (\<lambda>e. VBool ((\<exists>o' \<in> set ops. decidesOp I f o' e) = (f = ''or'')))"
proof
  fix e
  have "evalOp I o' e = VBool False \<longleftrightarrow> evalOp I o' e \<noteq> VBool True" if "o' \<in> set ops" for o'
    using assms(2) that by (metis (full_types) PValue.inject(1))
  then show "evalOp I (OpExpr f ops) e = VBool ((\<exists>o' \<in> set ops. decidesOp I f o' e) = (f = ''or''))"
    using assms(1) by (auto simp: decidesOp_def)
qed

lemma evalOp_cong: "map (evalOp I) ops = map (evalOp I) ops' \<Longrightarrow> evalOp I (OpExpr f ops) = evalOp I (OpExpr f ops')"
  by (simp only: evalOp.simps)

lemma evalOp_after: "list_all2 (\<lambda>a o'. evalOp I a = evalOp I o') after ops \<Longrightarrow> evalOp I (OpExpr f after) = evalOp I (OpExpr f ops)"
  by (rule evalOp_cong) (induction rule: list_all2_induct, simp_all)

lemma finish_logical:
  assumes "f = ''and'' \<or> f = ''or''" and "\<forall>o' \<in> set ops. preserved I X o'" and "\<forall>o' \<in> set ops. \<forall>e. \<exists>b. evalOp I o' e = VBool b"
    and "inj_on (pe_hashOp X) ((\<lambda>o'. snd (normaliseFilterExprOp X o')) ` set ops)"
    and "finishExpr f (normaliseOperands X f [] (triples X ops)) = (res, after')"
  shows "evalOp I res = evalOp I (OpExpr f ops) \<and> evalOp I after' = evalOp I (OpExpr f ops) \<and> res \<noteq> OpNil"
proof -
  obtain r after where n: "normaliseOperands X f [] (triples X ops) = (r, after)" by fastforce
  note N = normaliseOperands_logical [where S = "{}", OF assms(1) _ _ _ n, simplified, OF assms(2,4)]
  have after: "evalOp I (OpExpr f after) = evalOp I (OpExpr f ops)" using N by (intro evalOp_after) simp
  note ops = evalOp_logical [OF assms(1,3)]
  show ?thesis
  proof (cases r)
    case (Inl v)
    then have res: "res = OpValue (VBool (f = ''or''))" "after' = OpExpr f after" and "\<exists>o' \<in> set ops. \<forall>e. decidesOp I f o' e"
      using N assms(5) n by (auto simp: finishExpr_def)
    then have "evalOp I (OpExpr f ops) = (\<lambda>e. VBool (f = ''or''))" unfolding ops by (auto simp: fun_eq_iff)
    then show ?thesis using res after by simp
  next
    case (Inr ns)
    then have kept: "\<forall>n \<in> set ns. n \<noteq> OpNil \<and> (\<exists>o' \<in> set ops. evalOp I n = evalOp I o')"
      and dec: "\<And>e. (\<exists>o' \<in> set ns. decidesOp I f o' e) \<longleftrightarrow> (\<exists>o' \<in> set ops. decidesOp I f o' e)" using N by auto
    have typed': "\<forall>o' \<in> set ns. \<forall>e. \<exists>b. evalOp I o' e = VBool b" using kept assms(3) by metis
    have same: "evalOp I (OpExpr f ns) = evalOp I (OpExpr f ops)" unfolding evalOp_logical [OF assms(1) typed'] ops dec ..
    consider "ns = []" | n where "ns = [n]" | "2 \<le> length ns" by (cases ns rule: remdups_adj.cases) auto
    then show ?thesis
    proof cases
      case 1
      then have "res = OpValue (VBool (f = ''and''))" "after' = OpExpr f after"
        using assms(1,5) n Inr by (auto simp: finishExpr_def)
      moreover have "evalOp I (OpExpr f ops) = (\<lambda>e. VBool (f = ''and''))" using same 1 assms(1) by (auto simp flip: same)
      ultimately show ?thesis using after by simp
    next
      case 2
      then have r2: "res = n" "after' = OpExpr f after" using assms(1,5) n Inr by (auto simp: finishExpr_def)
      have "evalOp I n e = evalOp I (OpExpr f [n]) e" for e using typed' 2 assms(1) by (auto dest: spec [of _ e])
      then have "evalOp I n = evalOp I (OpExpr f ops)" using same 2 by (simp only: fun_eq_iff) auto
      then show ?thesis using r2 after kept 2 by simp
    next
      case 3
      then have "res = OpExpr f ns" "after' = OpExpr f ns"
        using assms(1,5) n Inr by (auto simp: finishExpr_def Let_def split: list.splits)
      then show ?thesis using same by simp
    qed
  qed
qed

lemma finish_other:
  assumes "f \<noteq> ''and''" and "f \<noteq> ''or''" and "\<forall>o' \<in> set ops. preserved I X o'" and "f = ''not'' \<Longrightarrow> length ops = 1"
    and "finishExpr f (normaliseOperands X f [] (triples X ops)) = (res, after')"
  shows "evalOp I res = evalOp I (OpExpr f ops) \<and> evalOp I after' = evalOp I (OpExpr f ops) \<and> res \<noteq> OpNil"
proof -
  let ?ns = "map (\<lambda>o'. fst (normaliseFilterExprOp X o')) ops" and ?as = "map (\<lambda>o'. snd (normaliseFilterExprOp X o')) ops"
  have n: "normaliseOperands X f [] (triples X ops) = (Inr ?ns, ?as)"
    by (rule normaliseOperands_other [OF assms(1,2)]) (use assms(3) in \<open>simp add: preserved_def\<close>)
  have ns: "evalOp I (OpExpr f ?ns) = evalOp I (OpExpr f ops)" and as: "evalOp I (OpExpr f ?as) = evalOp I (OpExpr f ops)"
    by (rule evalOp_cong, use assms(3) in \<open>simp add: preserved_def\<close>)+
  show ?thesis
  proof (cases "f = ''not''")
    case False
    then have "res = OpExpr f ?ns" "after' = OpExpr f ?ns" using assms(1,2,5) n by (auto simp: finishExpr_def)
    then show ?thesis using ns by simp
  next
    case True
    then obtain o1 where o1: "ops = [o1]" using assms(4) by (auto simp: length_Suc_conv)
    let ?n = "fst (normaliseFilterExprOp X o1)"
    show ?thesis
    proof (cases "asBoolValue ?n")
      case None
      then have "res = OpExpr f ?ns" "after' = OpExpr f ?ns" using assms(5) n True o1 by (auto simp: finishExpr_def)
      then show ?thesis using ns by simp
    next
      case (Some b)
      then have "res = OpValue (VBool (\<not> b))" "after' = OpExpr f ?as" using assms(5) n True o1 by (auto simp: finishExpr_def)
      moreover have "evalOp I o1 = (\<lambda>e. VBool b)" using Some assms(3) o1 by (simp add: asBoolValue_Some preserved_def)
      then have "evalOp I (OpExpr f ops) = (\<lambda>e. VBool (\<not> b))" using True o1 by simp
      ultimately show ?thesis using as by simp
    qed
  qed
qed

text \<open>Membership tests.\<close>

lemma inExpr_None:
  assumes "inExpr f ops = None" and "filterLaws I"
  shows "evalOp I (OpExpr f ops) = (\<lambda>e. VBool False)"
  using assms by (auto simp: inExpr_def normaliseInExpr_def filterLaws_def split: if_splits list.splits Operand.splits PValue.splits prod.splits)

lemma inExpr_Some:
  assumes "inExpr f ops = Some (f', ops')" and "filterLaws I" and "typed I (OpExpr f ops)"
  shows "evalOp I (OpExpr f' ops') = evalOp I (OpExpr f ops)" and "f' = f \<and> ops' = ops \<or> f' = ''eq'' \<and> (\<forall>o' \<in> set ops'. o' \<in> set ops \<or> (\<exists>v. o' = OpValue v))"
  using assms by (auto simp: inExpr_def normaliseInExpr_def filterLaws_def split: if_splits list.splits Operand.splits PValue.splits prod.splits)

lemma subOps_mono: "o' \<in> set ops \<Longrightarrow> subOps o' \<subseteq> subOps (OpExpr f ops)"
  by auto

lemma self_subOps: "o' \<in> subOps o'"
  by (cases o') auto

lemma normalise_preserves: "typed I op \<Longrightarrow> filterLaws I \<Longrightarrow> noOpCollisions X op \<Longrightarrow> preserved I X op"
proof (induction X op rule: normaliseFilterExprOp.induct)
  case (5 X f ops)
  note IH = "5.IH" and prems = "5.prems"
  show ?case
  proof (cases "inExpr f ops")
    case None
    then show ?thesis using inExpr_None [OF None prems(2)] by (simp add: preserved_def falseExprOpValue_def del: evalOp.simps(5))
  next
    case (Some r)
    obtain f' ops' where r: "r = (f', ops')" by fastforce
    note S = inExpr_Some [OF Some [unfolded r] prems(2,1)]
    have sub: "preserved I X o'" if o': "o' \<in> set ops'" for o'
    proof -
      consider "o' \<in> set ops" | v where "o' = OpValue v" using S(2) o' by blast
      then show ?thesis
      proof cases
        case 1
        have "noOpCollisions X o'" using prems(3) subOps_mono [OF 1, of f] unfolding noOpCollisions_def by (meson image_mono inj_on_subset)
        moreover have "typed I o'" using prems(1) 1 by simp
        ultimately show ?thesis using IH [OF Some r [symmetric] o'] prems(2) by blast
      next
        case 2
        then show ?thesis by (simp add: preserved_def)
      qed
    qed
    obtain res after where fin: "finishExpr f' (normaliseOperands X f' [] (triples X ops')) = (res, after)" by fastforce
    have n: "normaliseFilterExprOp X (OpExpr f ops) = (res, after)" using Some r fin by simp
    have "evalOp I res = evalOp I (OpExpr f' ops') \<and> evalOp I after = evalOp I (OpExpr f' ops') \<and> res \<noteq> OpNil"
    proof (cases "f' = ''and'' \<or> f' = ''or''")
      case True
      then have same: "f' = f" "ops' = ops" using S(2) by auto
      have "set ops \<subseteq> subOps (OpExpr f ops)" using self_subOps subOps_mono by blast
      then have inj: "inj_on (pe_hashOp X) ((\<lambda>o'. snd (normaliseFilterExprOp X o')) ` set ops')"
        using prems(3) unfolding noOpCollisions_def same by (meson image_mono inj_on_subset)
      have "f \<in> {''and'', ''or'', ''not''}" using True same(1) by blast
      then have bools: "\<forall>o' \<in> set ops'. \<forall>e. \<exists>b. evalOp I o' e = VBool b" using prems(1) unfolding same(2) typed.simps by simp
      have "\<forall>o' \<in> set ops'. preserved I X o'" using sub by blast
      from finish_logical [OF True this bools inj fin] show ?thesis .
    next
      case False
      have "length ops' = 1" if "f' = ''not''"
      proof -
        have "f = ''not''" "ops' = ops" using S(2) that by auto
        then show ?thesis using prems(1) unfolding typed.simps by blast
      qed
      moreover have "f' \<noteq> ''and''" "f' \<noteq> ''or''" "\<forall>o' \<in> set ops'. preserved I X o'" using False sub by blast+
      ultimately show ?thesis using finish_other [OF _ _ _ _ fin] by blast
    qed
    then show ?thesis using S(1) n by (simp add: preserved_def del: evalOp.simps)
  qed
qed (auto simp: preserved_def filterLaws_def)

section \<open>Filters\<close>

text \<open>The resources a filter lets through.\<close>

definition filterHolds :: "'e Interp \<Rightarrow> PlanResourcesFilter \<Rightarrow> 'e \<Rightarrow> bool" where
  "filterHolds I f e =
     (case pf_Kind f of
        KIND_ALWAYS_ALLOWED \<Rightarrow> True
      | KIND_CONDITIONAL \<Rightarrow> evalOp I (pf_Condition f) e = VBool True
      | _ \<Rightarrow> False)"

lemma normaliseFilter_kind:
  assumes "fst (normaliseFilterExprOp X cond) = n" and "n \<noteq> OpNil"
  shows "filterHolds I (normaliseFilter X \<lparr>pf_Kind = KIND_CONDITIONAL, pf_Condition = cond\<rparr>) e \<longleftrightarrow> evalOp I n e = VBool True"
proof (cases "asBoolValue n")
  case (Some b)
  then show ?thesis using assms by (simp add: asBoolValue_Some normaliseFilter_def filterHolds_def)
next
  case None
  then show ?thesis using assms by (cases n) (simp_all add: normaliseFilter_def filterHolds_def del: evalOp.simps(5))
qed

lemma normaliseFilter_holds:
  assumes "typed I cond" and "filterLaws I" and "noOpCollisions X cond"
  shows "filterHolds I (normaliseFilter X \<lparr>pf_Kind = KIND_CONDITIONAL, pf_Condition = cond\<rparr>) e \<longleftrightarrow> evalOp I cond e = VBool True"
  using normalise_preserves [OF assms] normaliseFilter_kind [OF refl, of X cond I e] by (simp add: preserved_def)


text \<open>Conditions with the same text mean the same.\<close>

definition textsApart :: "'e Interp \<Rightarrow> PlanExt \<Rightarrow> PlanResourcesFilter set \<Rightarrow> bool" where
  "textsApart I X fs \<longleftrightarrow> (\<forall>f \<in> fs. \<forall>g \<in> fs. pf_Kind f = KIND_CONDITIONAL \<longrightarrow> pf_Kind g = KIND_CONDITIONAL \<longrightarrow>
     FilterToString X f = FilterToString X g \<longrightarrow> evalOp I (pf_Condition f) = evalOp I (pf_Condition g))"

definition condsFrom :: "PlanExt \<Rightarrow> PlanResourcesFilter set \<Rightarrow> (string, Operand) gomap \<Rightarrow> bool" where
  "condsFrom X G conds \<longleftrightarrow> distinct (map fst conds)
     \<and> (\<forall>k c. map_of conds k = Some c \<longrightarrow> (\<exists>g \<in> G. pf_Kind g = KIND_CONDITIONAL \<and> FilterToString X g = k \<and> pf_Condition g = c))"

definition condsHold :: "'e Interp \<Rightarrow> (string, Operand) gomap \<Rightarrow> 'e \<Rightarrow> bool" where
  "condsHold I conds e \<longleftrightarrow> (\<forall>k c. map_of conds k = Some c \<longrightarrow> evalOp I c e = VBool True)"

lemma condsHold_update:
  assumes "textsApart I X G" and "condsFrom X G conds" and "f \<in> G" and "pf_Kind f = KIND_CONDITIONAL"
  shows "condsHold I (AList.update (FilterToString X f) (pf_Condition f) conds) e \<longleftrightarrow> condsHold I conds e \<and> filterHolds I f e"
    and "condsFrom X G (AList.update (FilterToString X f) (pf_Condition f) conds)"
proof -
  have same: "evalOp I c e = evalOp I (pf_Condition f) e" if "map_of conds (FilterToString X f) = Some c" for c
    using assms that unfolding condsFrom_def textsApart_def by metis
  then show "condsHold I (AList.update (FilterToString X f) (pf_Condition f) conds) e \<longleftrightarrow> condsHold I conds e \<and> filterHolds I f e"
    using assms(4) by (auto simp: condsHold_def map_of_goupdate filterHolds_def split: if_splits)
  show "condsFrom X G (AList.update (FilterToString X f) (pf_Condition f) conds)"
    using assms(2-4) by (auto simp: condsFrom_def map_of_goupdate distinct_update split: if_splits)
qed

lemma collectConds_holds:
  assumes "collectConds X fs conds = Inr r" and "textsApart I X G" and "condsFrom X G conds" and "set fs \<subseteq> G"
  shows "case r of None \<Rightarrow> \<exists>f \<in> set fs. pf_Kind f = KIND_ALWAYS_DENIED
    | Some conds' \<Rightarrow> condsFrom X G conds' \<and> (\<forall>e. condsHold I conds' e \<longleftrightarrow> condsHold I conds e \<and> (\<forall>f \<in> set fs. filterHolds I f e))"
  using assms(1,3,4)
proof (induction fs arbitrary: conds)
  case (Cons f fs)
  show ?case
  proof (cases "pf_Kind f")
    case KIND_CONDITIONAL
    then show ?thesis
      using Cons condsHold_update [OF assms(2) Cons.prems(2), of f] by (auto split: option.splits)
  qed (use Cons in \<open>auto simp: filterHolds_def split: option.splits\<close>)
qed auto

lemma mem_the_image: "c \<in> (\<lambda>k. the (m k)) ` dom m \<longleftrightarrow> (\<exists>k. m k = Some c)"
  by (auto simp: dom_def image_iff)

lemma filterHolds_and:
  "filterHolds I \<lparr>pf_Kind = KIND_CONDITIONAL, pf_Condition = OpExpr ''and'' cs\<rparr> e \<longleftrightarrow> (\<forall>c \<in> set cs. evalOp I c e = VBool True)"
  by (simp add: filterHolds_def)

lemma MergeWithAnd_holds:
  assumes "MergeWithAnd X fs = Inr (f, debug)" and "textsApart I X (set fs)"
  shows "filterHolds I f e \<longleftrightarrow> (\<forall>g \<in> set fs. filterHolds I g e)"
proof -
  obtain r where r: "collectConds X fs [] = Inr r" using assms(1) by (auto simp: MergeWithAnd_def andThen_Inr)
  have nil: "condsFrom X (set fs) []" "condsHold I [] e" by (simp_all add: condsFrom_def condsHold_def)
  note C = collectConds_holds [OF r assms(2) nil(1) order_refl]
  show ?thesis
  proof (cases r)
    case None
    then have "pf_Kind f = KIND_ALWAYS_DENIED" using assms(1) r by (auto simp: MergeWithAnd_def)
    moreover obtain g where "g \<in> set fs" "\<not> filterHolds I g e" using C None by (auto simp: filterHolds_def)
    ultimately show ?thesis by (auto simp: filterHolds_def)
  next
    case (Some conds)
    then have dist: "distinct (map fst conds)" and all: "condsHold I conds e \<longleftrightarrow> (\<forall>g \<in> set fs. filterHolds I g e)"
      using C nil(2) by (auto simp: condsFrom_def)
    consider "conds = []" | k c where "conds = [(k, c)]" | "2 \<le> length conds" by (cases conds rule: remdups_adj.cases) auto
    then show ?thesis
    proof cases
      case 1
      then have "f = \<lparr>pf_Kind = KIND_ALWAYS_ALLOWED, pf_Condition = OpNil\<rparr>" using assms(1) r Some by (auto simp: MergeWithAnd_def Let_def)
      then show ?thesis using all 1 nil(2) by (simp add: filterHolds_def)
    next
      case 2
      then have "f = \<lparr>pf_Kind = KIND_CONDITIONAL, pf_Condition = c\<rparr>" using assms(1) r Some by (auto simp: MergeWithAnd_def Let_def)
      moreover have "condsHold I conds e \<longleftrightarrow> evalOp I c e = VBool True" using 2 by (auto simp: condsHold_def)
      ultimately show ?thesis using all by (simp add: filterHolds_def)
    next
      case 3
      let ?cs = "map (\<lambda>key. the (map_of conds key)) (sort (map fst conds))"
      have many: "(case conds of [] \<Rightarrow> x | [(key, cond)] \<Rightarrow> y key cond | _ \<Rightarrow> z) = z" for x y and z :: PlanResourcesFilter
        using 3 by (cases conds rule: remdups_adj.cases) auto
      have f: "f = \<lparr>pf_Kind = KIND_CONDITIONAL, pf_Condition = OpExpr ''and'' ?cs\<rparr>"
        using assms(1) unfolding MergeWithAnd_def r Some andThen_simps option.case many Let_def mkExprOpExpr_def by simp
      have "set ?cs = (\<lambda>key. the (map_of conds key)) ` dom (map_of conds)" by (simp add: dom_map_of_conv_image_fst)
      then have cs: "c \<in> set ?cs \<longleftrightarrow> (\<exists>k. map_of conds k = Some c)" for c using mem_the_image by simp
      have "filterHolds I f e \<longleftrightarrow> (\<forall>c \<in> set ?cs. evalOp I c e = VBool True)" unfolding f by (rule filterHolds_and)
      then have "filterHolds I f e \<longleftrightarrow> condsHold I conds e" unfolding cs condsHold_def Ball_def by blast
      then show ?thesis using all by simp
    qed
  qed
qed

section \<open>From plans to filters\<close>

text \<open>The resources for which a node of a plan holds: logical operations as usual, an expression if what it is translated to is
  true.\<close>

primrec nodeHolds :: "'e Interp \<Rightarrow> PlanExt \<Rightarrow> QpN \<Rightarrow> 'e \<Rightarrow> bool" where
  "nodeHolds I X QpEmpty = (\<lambda>e. True)"
| "nodeHolds I X (QpExpr x) = (\<lambda>e. case buildExpr X x of Inl err \<Rightarrow> False | Inr op \<Rightarrow> evalOp I op e = VBool True)"
| "nodeHolds I X (QpLO op nodes) =
     (let hs = map (nodeHolds I X) nodes
      in case op of
           OPERATOR_AND \<Rightarrow> (\<lambda>e. \<forall>h \<in> set hs. h e)
         | OPERATOR_OR \<Rightarrow> (\<lambda>e. \<exists>h \<in> set hs. h e)
         | OPERATOR_NOT \<Rightarrow> (\<lambda>e. \<not> (\<forall>h \<in> set hs. h e))
         | OPERATOR_UNSPECIFIED \<Rightarrow> (\<lambda>e. False))"

lemma convert_holds: "convert X node = Inr op \<Longrightarrow> evalOp I op e = VBool True \<longleftrightarrow> nodeHolds I X node e"
proof (induction node arbitrary: op)
  case (QpLO lo nodes)
  obtain ops where ops: "map (convert X) nodes = map Inr ops" using QpLO.prems by (auto simp: andThen_Inr sequence_Inr)
  have "list_all2 (\<lambda>o' n. evalOp I o' e = VBool True \<longleftrightarrow> nodeHolds I X n e) ops nodes"
    using QpLO.IH ops by (induction nodes arbitrary: ops) (auto simp: Cons_eq_map_conv)
  then have "(\<forall>o' \<in> set ops. evalOp I o' e = VBool True) = (\<forall>n \<in> set nodes. nodeHolds I X n e)
    \<and> (\<exists>o' \<in> set ops. evalOp I o' e = VBool True) = (\<exists>n \<in> set nodes. nodeHolds I X n e)"
    by (induction rule: list_all2_induct) auto
  moreover have "sequence (map (convert X) nodes) = Inr ops" using ops by (simp add: sequence_Inr)
  ultimately show ?case using QpLO.prems by (cases lo) (auto simp: mkExprOpExpr_def)
qed auto

definition convertsWell :: "'e Interp \<Rightarrow> PlanExt \<Rightarrow> QpN \<Rightarrow> bool" where
  "convertsWell I X node = (case convert X node of Inl err \<Rightarrow> True | Inr op \<Rightarrow> typed I op \<and> noOpCollisions X op)"

lemma ToFilter_holds:
  assumes "ToFilter X node = Inr f" and "convertsWell I X node" and "filterLaws I"
  shows "filterHolds I f e \<longleftrightarrow> nodeHolds I X node e"
  using assms by (auto simp: ToFilter_def andThen_Inr convertsWell_def normaliseFilter_holds convert_holds)



text \<open>The filter of a plan with a constant and a repeated membership test, for resources given by their owner.\<close>

definition ownerInterp :: "string Interp" where
  "ownerInterp = \<lparr>i_var = (\<lambda>n e. VString e),
     i_fn = (\<lambda>f ds e. case ds of
         [a, b] \<Rightarrow>
           if f = ''eq'' then VBool (a e = b e)
           else if f = ''in'' then (case b e of
               VList vs \<Rightarrow> VBool (a e \<in> set vs)
             | VStruct fs \<Rightarrow> VBool (a e \<in> VString ` fst ` set fs)
             | _ \<Rightarrow> VNull)
           else VNull
       | _ \<Rightarrow> VNull)\<rparr>"

definition ownerExt :: PlanExt where
  "ownerExt = \<lparr>pe_hashNode = (\<lambda>n. if n = mkTrueNode then 1 else 0),
     pe_hashOp = (\<lambda>op. case op of OpExpr f ops \<Rightarrow> (if f = ''and'' then 1 else if f = ''or'' then 2 else 3) | OpValue (VBool b) \<Rightarrow> 4 | OpValue v \<Rightarrow> 5 | _ \<Rightarrow> 6),
     pe_exprString = (\<lambda>e. ''''), pe_marshalValue = (\<lambda>v. case v of VString s \<Rightarrow> Some s | _ \<Rightarrow> None),
     pe_NewValue = (\<lambda>c. case c of CBool b \<Rightarrow> Some (VBool b) | CString s \<Rightarrow> Some (VString s) | _ \<Rightarrow> None), pe_optionalFuncs = []\<rparr>"

definition ownerPlan :: QpN where
  "ownerPlan =
     (let test = QpExpr (ECall None ''@in'' [EIdent ''R.owner'', EList [EConst (CString ''alice'')] []])
      in QpLO OPERATOR_AND [mkTrueNode, QpLO OPERATOR_OR [test, test]])"

definition ownerFilter :: PlanResourcesFilter where
  "ownerFilter = \<lparr>pf_Kind = KIND_CONDITIONAL, pf_Condition = OpExpr ''eq'' [OpVariable ''request.resource.owner'', OpValue (VString ''alice'')]\<rparr>"

lemma ownerInterp_laws: "filterLaws ownerInterp"
  by (auto simp: filterLaws_def ownerInterp_def fun_eq_iff)

lemma ownerPlan_converts:
  "convert ownerExt ownerPlan = Inr (OpExpr ''and'' [OpValue (VBool True), OpExpr ''or''
     (let test = OpExpr ''in'' [OpVariable ''R.owner'', OpValue (VList [VString ''alice''])] in [test, test])])"
  by (simp add: ownerPlan_def ownerExt_def mkTrueNode_def TrueExpr_def buildExpr_def visitConst_def buildElements_def mkExprOpExpr_def
      opFromCLE_def celOperators_def Let_def)

lemma ownerPlan_well: "convertsWell ownerInterp ownerExt ownerPlan"
  unfolding convertsWell_def ownerPlan_converts
  by (simp add: ownerExt_def ownerInterp_def noOpCollisions_def inExpr_def normaliseInExpr_def finishExpr_def asBoolValue_Some ExpandAbbrev_def ex_bool_eq Let_def)

lemma ownerPlan_filter: "ToFilter ownerExt ownerPlan = Inr ownerFilter"
  unfolding ToFilter_def ownerPlan_converts
  by (simp add: ownerFilter_def normaliseFilter_def ownerExt_def inExpr_def normaliseInExpr_def finishExpr_def ExpandAbbrev_def Let_def)


end
