(* ===== verification/Spec2Isabelle.thy ===== *)
theory Spec2Isabelle
  imports Prelude Namer Bitmap BitmapOps BitmapIter Dimension PolicyTypes RuleIndex Index IndexQuery IndexUpdate ScopePerms RuleTable
    TableBuild ScopeTree Check CheckEval CheckSteps CheckProps Manager ManagerProps ManagerEvents
    PlanAst PlanFilter PlanEval Plan FilterProps
begin

text \<open>
  The policy decision point answers two questions about a principal and a resource: may an action be done (\<^verbatim>\<open>check\<close>), and for which
  resources of a kind may it be done (\<^verbatim>\<open>plan\<close>).  Both read the rule table, which the rule table manager keeps in step with a policy
  store.  The development models this core from the names of policies up to the decisions, in the order in which the code builds on
  itself.

  \<^bold>\<open>Parts and theories.\<close>  Paths are below \<^verbatim>\<open>internal/\<close>.

  \<^item> \<open>Prelude\<close>: Go maps as association lists, words, lists, and the collections of rewrite rules.
  \<^item> \<open>Namer\<close> (\<^verbatim>\<open>namer/namer.go\<close>): sanitised names, fully-qualified names, policy keys, module IDs, scope chains.
  \<^item> \<open>Bitmap\<close>, \<open>BitmapOps\<close>, \<open>BitmapIter\<close> (\<^verbatim>\<open>ruletable/index/bitmap.go\<close>, \<^verbatim>\<open>bitmap_pool.go\<close>): the two-level bitset over 64-bit words, with the
    spare capacity of its slices, its iterator, its encoding and the recycling of bitmaps.
  \<^item> \<open>Dimension\<close> (\<^verbatim>\<open>lazy_dimension.go\<close>, \<^verbatim>\<open>glob_dimension.go\<close>, \<^verbatim>\<open>util/globs_common.go\<close>): maps from keys and patterns to bitmaps.
  \<^item> \<open>PolicyTypes\<close>, \<open>RuleIndex\<close>, \<open>Index\<close> (\<^verbatim>\<open>core.go\<close>, \<^verbatim>\<open>bitmap_index.go\<close>, \<^verbatim>\<open>index.go\<close>): the binding table, shared cores and parameters, indexing,
    deletion, \<open>Query\<close>, \<open>QueryMulti\<close>, listings, parent roles.  \<open>IndexQuery\<close> and \<open>IndexUpdate\<close> hold their correctness.
  \<^item> \<open>ScopePerms\<close> (\<^verbatim>\<open>policy/scopeperms\<close>): the tracker of scope permission conflicts.
  \<^item> \<open>RuleTable\<close>, \<open>TableBuild\<close>, \<open>ScopeTree\<close> (\<^verbatim>\<open>ruletable/ruletable.go\<close>): rows of compiled policies, loading, building, migration, the scope
    search and the tree behind \<open>CombineScopes\<close>.
  \<^item> \<open>Check\<close> (\<^verbatim>\<open>ruletable/check.go\<close>, \<^verbatim>\<open>evaluator\<close>, \<^verbatim>\<open>engine/audit/trail.go\<close>): the decision procedure with its caches, outputs, audit trail and
    recorded errors.  \<open>CheckEval\<close>, \<open>CheckSteps\<close> and \<open>CheckProps\<close> hold its correctness.
  \<^item> \<open>Manager\<close>, \<open>ManagerProps\<close>, \<open>ManagerEvents\<close> (\<^verbatim>\<open>ruletable/manager.go\<close>): storage events, updates, reloads.
  \<^item> \<open>PlanAst\<close>, \<open>PlanFilter\<close>, \<open>PlanEval\<close>, \<open>Plan\<close> (\<^verbatim>\<open>ruletable/planner\<close>, \<^verbatim>\<open>ruletable/plan.go\<close>): the nodes of a plan, the translation of
    plans into filters and their normal form, the evaluation of conditions on a partly known resource, and the loops of a plan.
    \<open>FilterProps\<close> says what filters mean.

  \<^bold>\<open>Correspondence.\<close>  A struct is a record, an enumeration a datatype, a method a function from the receiver's old state to its new
  state; definitions have the names of the code, with the type as a prefix where two methods share a name.  A loop of the code is a
  recursive function with the loop's variables as arguments.  Maps are association lists, whose order is the iteration order of the
  Go map, so that statements hold for every order.  A nil pointer is \<open>None\<close> or a constructor of its own; a returned error or a panic
  is a value.  Shared cells (the origins and reference counts of cores and parameters) live in explicit stores.  An operation of
  the manager that takes the write lock is one step, and the tables between the steps are those a concurrent request may see.

  \<^bold>\<open>Parameters.\<close>  Code outside the repository is an argument: \<open>Ext\<close> (glob compiler, CEL compiler and hashes of the index), \<open>World\<close> (the same for
  tables, with the answers of the file system), \<open>CelWorld\<close> (the CEL runtime), \<open>Validator\<close> and \<open>PlanValidator\<close> (JSON schema validation),
  \<open>Loader\<close> (the policy store), \<open>PlanExt\<close> and \<open>PlanCel\<close> (hashes and text of messages, the CEL parser and partial evaluator).
  What is assumed of them is written in the theorems: that hashes do not collide on the values at hand, that a compiled pattern
  matches what it says, that the operators of filters mean what their documentation says.

  \<^bold>\<open>What is shown.\<close>

  \<^item> Bitmaps refine sets: every operation, with stale memory behind the slices, acts on the represented set as the set operation.
    The locales \<open>combine_parts\<close> and \<open>id_dimension\<close> carry this to unions, intersections and the three kinds of dimension.
  \<^item> The index refines a list of rows: \<open>Query\<close> and \<open>QueryMulti\<close> are a scan of the list; indexing appends rows, deletion filters
    them, and deletion undoes indexing; row identifiers are reused.  The locale \<open>key_dimension\<close> carries the listings.
  \<^item> The table has exactly the rows of its policies; the streaming build agrees with the batch build; migrated tables agree with
    freshly compiled ones; the scope search and the combination of scopes return what they promise.
  \<^item> A decision does not depend on what the caches contain; every action gets an allow or a deny; an allow has a row behind it
    that permits it through all child scopes.
  \<^item> The locale \<open>table_invariant\<close> says what all tables have in common that are seen while events are handled; it gives that requests
    never meet a row without its policy and that the identifiers stay within 32 bits.  An update that loads takes effect, and a
    failed one loses the policy it should have replaced.
  \<^item> Filters mean the same as the plans they are made of: translation, normal form and conjunction let the same resources through.

  \<^bold>\<open>Recursion and bounds.\<close>  All functions terminate and none needs fuel: the loops of the bitmap run over the length of a slice, the collection of
  parent roles over the roles not yet seen, the translation of expressions over their size.  Bitmap words and hashes are
  64 bits wide and row identifiers 32 bits; the theorems about additions assume that the identifiers left suffice, which
  \<open>row_ids_bounded\<close> shows to depend on the number of rows alone.

  \<^bold>\<open>Not modelled.\<close>  The policy compiler, the parsers of policy files and the storage back ends, whose results are inputs of the model;
  the CEL library, the custom CEL functions and the partial evaluator of the planner built on its internals; servers, audit logs,
  metrics and command line tools, which are I/O; the interning of strings, which changes no value; the text of error
  messages.  The worker pool of the engine runs independent checks, so that the model has them one after the other.
\<close>


end
